(* ===== verification/Go_Prelude.thy ===== *)
theory Go_Prelude
  imports Main "HOL-Library.Word"
begin

text \<open>
  What every component shares: the machine integers and byte slices of Go, the
  outcome of a Go call (a value, an error value, or a run-time panic), the
  byte-order conversions of \<^verbatim>\<open>encoding/binary\<close>, and the
  list, option and word lemmas that the component proofs use.

  A slice is a HOL list. Reading past its end panics in Go, so indexing and
  slicing return a \<open>result\<close>. The slices modelled here have a capacity equal to
  their length (they come from \<^verbatim>\<open>make\<close> or from a full slice), unless a
  theory says otherwise.
\<close>

unbundle bit_operations_syntax

named_theorems go_simps "unfolding of Go run-time operations"
named_theorems wire_simps "byte-order round trips"

type_synonym byte = "8 word"
type_synonym bytes = "byte list"
type_synonym u16 = "16 word"
type_synonym u32 = "32 word"

subsection \<open>Outcomes of a Go call\<close>

datatype panic = IndexOutOfRange | SliceOutOfRange | NilDereference
  | TypeAssertion | ExplicitPanic string

datatype failure = Panic panic | Error string

type_synonym 'a result = "failure + 'a"

fun bindR :: "'a result \<Rightarrow> ('a \<Rightarrow> 'b result) \<Rightarrow> 'b result" where
  "bindR (Inl e) f = Inl e"
| "bindR (Inr x) f = f x"

fun is_panic :: "'a result \<Rightarrow> bool" where
  "is_panic (Inl (Panic p)) = True"
| "is_panic _ = False"

fun is_ok :: "'a result \<Rightarrow> bool" where
  "is_ok (Inr _) = True"
| "is_ok (Inl _) = False"

text \<open>
  \<^verbatim>\<open>xs[i]\<close>, \<^verbatim>\<open>xs[lo:hi]\<close> and \<^verbatim>\<open>xs[lo:]\<close>
  with the run-time check the compiler inserts.
\<close>

definition go_at :: "'a list \<Rightarrow> nat \<Rightarrow> 'a result" where
  "go_at xs i = (if i < length xs then Inr (xs ! i) else Inl (Panic IndexOutOfRange))"

definition go_slice :: "'a list \<Rightarrow> nat \<Rightarrow> nat \<Rightarrow> 'a list result" where
  "go_slice xs lo hi =
     (if lo \<le> hi \<and> hi \<le> length xs then Inr (take (hi - lo) (drop lo xs))
      else Inl (Panic SliceOutOfRange))"

definition go_from :: "'a list \<Rightarrow> nat \<Rightarrow> 'a list result" where
  "go_from xs lo = go_slice xs lo (length xs)"

text \<open>\<^verbatim>\<open>copy(dst, src)\<close>: the shorter of the two lengths is copied.\<close>

definition go_copy :: "'a list \<Rightarrow> 'a list \<Rightarrow> 'a list" where
  "go_copy dst src = take (length dst) src @ drop (length src) dst"

text \<open>\<^verbatim>\<open>copy(dst[off:], src)\<close> for an offset inside \<^verbatim>\<open>dst\<close>.\<close>

definition go_copy_at :: "'a list \<Rightarrow> nat \<Rightarrow> 'a list \<Rightarrow> 'a list" where
  "go_copy_at dst off src = take off dst @ go_copy (drop off dst) src"

subsection \<open>encoding/binary\<close>

definition be16 :: "byte \<Rightarrow> byte \<Rightarrow> u16" where
  "be16 a b = ucast b OR push_bit 8 (ucast a)"

definition be32 :: "byte \<Rightarrow> byte \<Rightarrow> byte \<Rightarrow> byte \<Rightarrow> u32" where
  "be32 a b c d = ucast d OR push_bit 8 (ucast c) OR push_bit 16 (ucast b) OR push_bit 24 (ucast a)"

definition le16 :: "byte \<Rightarrow> byte \<Rightarrow> u16" where
  "le16 a b = be16 b a"

definition put_be16 :: "u16 \<Rightarrow> bytes" where
  "put_be16 v = [ucast (drop_bit 8 v), ucast v]"

definition put_be32 :: "u32 \<Rightarrow> bytes" where
  "put_be32 v = [ucast (drop_bit 24 v), ucast (drop_bit 16 v), ucast (drop_bit 8 v), ucast v]"

definition put_le16 :: "u16 \<Rightarrow> bytes" where
  "put_le16 v = [ucast v, ucast (drop_bit 8 v)]"

text \<open>
  \<^verbatim>\<open>binary.BigEndian.Uint16(data[i:i+2])\<close> and its 32-bit counterpart: the
  slice expression is what panics.
\<close>

definition u16_at :: "bytes \<Rightarrow> nat \<Rightarrow> u16 result" where
  "u16_at data i = (if i + 2 \<le> length data then Inr (be16 (data ! i) (data ! (i + 1)))
                    else Inl (Panic SliceOutOfRange))"

definition u32_at :: "bytes \<Rightarrow> nat \<Rightarrow> u32 result" where
  "u32_at data i = (if i + 4 \<le> length data
     then Inr (be32 (data ! i) (data ! (i + 1)) (data ! (i + 2)) (data ! (i + 3)))
     else Inl (Panic SliceOutOfRange))"

subsection \<open>Lemmas on outcomes and slices\<close>

lemma bindR_Inr_iff: "bindR m f = Inr y \<longleftrightarrow> (\<exists>x. m = Inr x \<and> f x = Inr y)"
  by (cases m) auto

lemma bindR_assoc: "bindR (bindR m f) g = bindR m (\<lambda>x. bindR (f x) g)"
  by (cases m) auto

lemma is_ok_iff: "is_ok m \<longleftrightarrow> (\<exists>x. m = Inr x)"
  by (cases m) auto

lemma is_panic_iff: "is_panic m \<longleftrightarrow> (\<exists>p. m = Inl (Panic p))"
  by (cases m rule: is_panic.cases) auto

lemma go_at_ok [simp]: "i < length xs \<Longrightarrow> go_at xs i = Inr (xs ! i)"
  by (simp add: go_at_def)

lemma go_at_panic: "length xs \<le> i \<Longrightarrow> go_at xs i = Inl (Panic IndexOutOfRange)"
  by (simp add: go_at_def)

lemma go_slice_ok [simp]:
  "lo \<le> hi \<Longrightarrow> hi \<le> length xs \<Longrightarrow> go_slice xs lo hi = Inr (take (hi - lo) (drop lo xs))"
  by (simp add: go_slice_def)

lemma go_from_ok [simp]: "lo \<le> length xs \<Longrightarrow> go_from xs lo = Inr (drop lo xs)"
  by (simp add: go_from_def)

lemma go_from_panic: "length xs < lo \<Longrightarrow> go_from xs lo = Inl (Panic SliceOutOfRange)"
  by (simp add: go_from_def go_slice_def)

lemma u16_at_ok [simp]:
  "i + 2 \<le> length data \<Longrightarrow> u16_at data i = Inr (be16 (data ! i) (data ! (i + 1)))"
  by (simp add: u16_at_def)

lemma u32_at_ok [simp]:
  "i + 4 \<le> length data \<Longrightarrow>
   u32_at data i = Inr (be32 (data ! i) (data ! (i + 1)) (data ! (i + 2)) (data ! (i + 3)))"
  by (simp add: u32_at_def)

lemma length_go_copy [simp]: "length (go_copy dst src) = length dst"
  by (simp add: go_copy_def)

lemma length_go_copy_at [simp]: "off \<le> length dst \<Longrightarrow> length (go_copy_at dst off src) = length dst"
  by (simp add: go_copy_at_def)

lemma go_copy_Nil [simp]: "go_copy [] xs = []" "go_copy xs [] = xs"
  by (simp_all add: go_copy_def)

lemma go_copy_same: "length src = length dst \<Longrightarrow> go_copy dst src = src"
  by (simp add: go_copy_def)

lemma go_copy_zeros:
  "length src \<le> n \<Longrightarrow> go_copy (replicate n z) src = src @ replicate (n - length src) z"
  by (simp add: go_copy_def)

lemma split_two: "i + 1 < length xs \<Longrightarrow> xs = take i xs @ xs ! i # xs ! (i + 1) # drop (i + 2) xs"
  by (metis Cons_nth_drop_Suc Suc_eq_plus1 add_2_eq_Suc' add_lessD1 append_take_drop_id)

lemmas go_panic_defs = go_at_def go_slice_def go_from_def u16_at_def u32_at_def

subsection \<open>Byte-order round trips\<close>

lemma byte_bit_le: "bit (b :: byte) n \<Longrightarrow> n < 8"
  using bit_imp_le_length by fastforce

lemma unat_byte_less: "unat (b :: byte) < 256"
proof -
  have "unat b < 2 ^ LENGTH(8)" by (rule unsigned_less)
  then show ?thesis by simp
qed

lemma word_bit_bound:
  assumes "unat (w :: 'a :: len word) < 2 ^ k" "bit w n"
  shows "n < k"
proof -
  have "bit (unat w) n" using assms(2) by (simp add: bit_unsigned_iff bit_imp_le_length)
  then have "bit (take_bit k (unat w)) n" using assms(1) by (simp only: take_bit_nat_eq_self)
  then show ?thesis by (simp add: bit_take_bit_iff)
qed

lemma unat_ucast_byte [simp]:
  "unat (ucast (b :: byte) :: u16) = unat b" "unat (ucast (b :: byte) :: u32) = unat b"
  using unat_byte_less [of b]
  by (simp_all add: unsigned_ucast_eq take_bit_nat_eq_self)

lemma be16_put [wire_simps, simp]: "be16 (ucast (drop_bit 8 v)) (ucast v) = v"
  by (rule bit_word_eqI) (auto simp: be16_def bit_simps)

lemma be16_hi [wire_simps, simp]: "(ucast (drop_bit 8 (be16 a b)) :: byte) = a"
  by (rule bit_word_eqI) (auto simp: be16_def bit_simps dest: byte_bit_le)

lemma be16_lo [wire_simps, simp]: "(ucast (be16 a b) :: byte) = b"
  by (rule bit_word_eqI) (auto simp: be16_def bit_simps)

lemma le16_put [wire_simps, simp]: "le16 (ucast v) (ucast (drop_bit 8 v)) = v"
  by (simp add: le16_def)

lemma put_be16_be16 [wire_simps]: "put_be16 (be16 a b) = [a, b]"
  by (simp add: put_be16_def)

lemma be32_put [wire_simps, simp]:
  "be32 (ucast (drop_bit 24 v)) (ucast (drop_bit 16 v)) (ucast (drop_bit 8 v)) (ucast v) = v"
proof (rule bit_word_eqI)
  fix n assume "n < LENGTH(32)"
  then consider "n < 8" | "8 \<le> n" "n < 16" | "16 \<le> n" "n < 24" | "24 \<le> n" "n < 32"
    by fastforce
  then show "bit (be32 (ucast (drop_bit 24 v)) (ucast (drop_bit 16 v)) (ucast (drop_bit 8 v)) (ucast v)) n
      = bit v n"
    by cases (simp_all add: be32_def bit_simps, auto)
qed

lemma unat_be16: "unat (be16 a b) = 256 * unat a + unat b"
proof -
  have "be16 a b = push_bit 8 (ucast a) + ucast b"
    unfolding be16_def
    by (subst or.commute, rule disjunctive_add [symmetric])
       (auto simp: bit_simps dest: byte_bit_le)
  moreover have "unat (push_bit 8 (ucast a) + ucast b :: u16) = 256 * unat a + unat b"
  proof -
    note a = unat_byte_less [of a] and b = unat_byte_less [of b]
    have pa: "unat (push_bit 8 (ucast a) :: u16) = 256 * unat a"
      using a by (simp add: push_bit_eq_mult unat_word_ariths)
    show ?thesis
      using a b by (simp add: unat_word_ariths pa)
  qed
  ultimately show ?thesis by simp
qed

lemma u16_and_ff: "(x :: u16) AND 0xFF = take_bit 8 x"
proof -
  have m: "(0xFF :: u16) = mask 8" by (simp add: mask_eq_exp_minus_1)
  show ?thesis by (simp only: m take_bit_eq_mask)
qed

lemma u16_low_byte [simp]:
  "(ucast (drop_bit 8 t AND 0xFF) :: byte) = ucast (drop_bit 8 t)"
  "(ucast (t AND 0xFF) :: byte) = ucast (t :: u16)"
  unfolding u16_and_ff by (auto intro!: bit_word_eqI simp: bit_simps)

lemma length_put [simp]:
  "length (put_be16 v) = 2" "length (put_be32 w) = 4" "length (put_le16 v) = 2"
  by (simp_all add: put_be16_def put_be32_def put_le16_def)

end
