(* ===== verification/Go_Strings.thy ===== *)
theory Go_Strings
  imports Go_Prelude
begin

text \<open>
  The parts of Go's \<^verbatim>\<open>fmt\<close>, \<^verbatim>\<open>strconv\<close>,
  \<^verbatim>\<open>strings\<close> and \<^verbatim>\<open>encoding/hex\<close> packages that the
  program calls. A Go string is a sequence of bytes, modelled as \<open>string\<close>.
\<close>

subsection \<open>Printing numbers\<close>

definition digit :: "nat \<Rightarrow> char" where
  "digit d = char_of (48 + d)"

fun itoa :: "nat \<Rightarrow> string" where
  "itoa n = (if n < 10 then [digit n] else itoa (n div 10) @ [digit (n mod 10)])"

declare itoa.simps [simp del]

definition itoa_int :: "int \<Rightarrow> string" where
  "itoa_int i = (if i < 0 then ''-'' @ itoa (nat (- i)) else itoa (nat i))"

definition hex_digit :: "nat \<Rightarrow> char" where
  "hex_digit d = (if d < 10 then char_of (48 + d) else char_of (87 + d))"

definition hex_encode :: "bytes \<Rightarrow> string" where
  "hex_encode bs = concat (map (\<lambda>b. [hex_digit (unat b div 16), hex_digit (unat b mod 16)]) bs)"

subsection \<open>Reading numbers\<close>

definition digit_val :: "char \<Rightarrow> nat option" where
  "digit_val c = (if 48 \<le> (of_char c :: nat) \<and> (of_char c :: nat) \<le> 57
                  then Some (of_char c - 48) else None)"

text \<open>
  \<^verbatim>\<open>strconv.ParseUint(s, 10, bits)\<close> and \<^verbatim>\<open>ParseInt\<close>: a byte that is
  no digit is a syntax error with value 0, a value out of range gives the nearest
  representable one together with the error.
\<close>

datatype 'n parsed = NumOk 'n | NumSyntax | NumRange 'n

fun parse_digits :: "nat \<Rightarrow> nat \<Rightarrow> string \<Rightarrow> nat parsed" where
  "parse_digits limit acc [] = NumOk acc"
| "parse_digits limit acc (c # cs) =
     (case digit_val c of
        None \<Rightarrow> NumSyntax
      | Some d \<Rightarrow> if limit \<le> 10 * acc + d then NumRange (limit - 1)
                  else parse_digits limit (10 * acc + d) cs)"

definition ParseUint :: "string \<Rightarrow> nat \<Rightarrow> nat parsed" where
  "ParseUint s bits = (if s = [] then NumSyntax else parse_digits (2 ^ bits) 0 s)"

definition ParseInt :: "string \<Rightarrow> nat \<Rightarrow> int parsed" where
  "ParseInt s bits =
     (let neg = (s \<noteq> [] \<and> hd s = CHR ''-'');
          digits = (if s \<noteq> [] \<and> (hd s = CHR ''-'' \<or> hd s = CHR ''+'') then tl s else s);
          cutoff = 2 ^ (bits - 1)
      in case ParseUint digits bits of
           NumSyntax \<Rightarrow> NumSyntax
         | NumRange un \<Rightarrow> NumRange (if neg then - cutoff else cutoff - 1)
         | NumOk un \<Rightarrow>
             if \<not> neg \<and> cutoff \<le> int un then NumRange (cutoff - 1)
             else if neg \<and> cutoff < int un then NumRange (- cutoff)
             else NumOk (if neg then - int un else int un))"

definition Atoi :: "string \<Rightarrow> int parsed" where
  "Atoi s = ParseInt s 64"

text \<open>The value a call returns beside its error.\<close>

fun parsed_val :: "('n :: zero) parsed \<Rightarrow> 'n" where
  "parsed_val (NumOk n) = n"
| "parsed_val NumSyntax = 0"
| "parsed_val (NumRange n) = n"

fun parsed_ok :: "'n parsed \<Rightarrow> bool" where
  "parsed_ok (NumOk n) = True"
| "parsed_ok _ = False"

subsection \<open>Reading hexadecimal\<close>

text \<open>\<^verbatim>\<open>hex.DecodeString\<close>: what was decoded before the first error.\<close>

definition hex_val :: "char \<Rightarrow> nat option" where
  "hex_val c =
     (let n = of_char c in
      if 48 \<le> n \<and> n \<le> 57 then Some (n - 48)
      else if 97 \<le> n \<and> n \<le> 102 then Some (n - 87)
      else if 65 \<le> n \<and> n \<le> 70 then Some (n - 55)
      else None)"

fun hex_DecodeString :: "string \<Rightarrow> bytes" where
  "hex_DecodeString (a # b # rest) =
     (case (hex_val a, hex_val b) of
        (Some x, Some y) \<Rightarrow> of_nat (16 * x + y) # hex_DecodeString rest
      | _ \<Rightarrow> [])"
| "hex_DecodeString _ = []"

text \<open>\<^verbatim>\<open>%x\<close> of a number, \<^verbatim>\<open>string\<close> of a byte slice and back.\<close>

fun hex_of_nat :: "nat \<Rightarrow> string" where
  "hex_of_nat n = (if n < 16 then [hex_digit n] else hex_of_nat (n div 16) @ [hex_digit (n mod 16)])"

declare hex_of_nat.simps [simp del]

definition string_of_bytes :: "bytes \<Rightarrow> string" where
  "string_of_bytes = map (\<lambda>b. char_of (unat b))"

definition bytes_of_string :: "string \<Rightarrow> bytes" where
  "bytes_of_string = map (\<lambda>c. of_nat (of_char c))"

subsection \<open>Splitting\<close>

text \<open>\<^verbatim>\<open>strings.Split\<close> with a one-byte separator.\<close>

fun split_on :: "char \<Rightarrow> string \<Rightarrow> string list" where
  "split_on c [] = [[]]"
| "split_on c (x # xs) =
     (if x = c then [] # split_on c xs
      else (case split_on c xs of [] \<Rightarrow> [[x]] | y # ys \<Rightarrow> (x # y) # ys))"

subsection \<open>Lemmas\<close>

lemma digit_val_digit [simp]: "d < 10 \<Longrightarrow> digit_val (digit d) = Some d"
  by (simp add: digit_val_def digit_def)

lemma of_nat_unat_byte: "n < 256 \<Longrightarrow> unat (of_nat n :: byte) = n"
  by (simp add: unsigned_of_nat take_bit_nat_eq_self)

lemma string_of_bytes_inverse [simp]: "bytes_of_string (string_of_bytes bs) = bs"
  by (induction bs) (simp_all add: bytes_of_string_def string_of_bytes_def unat_byte_less)

lemma bytes_of_string_inverse [simp]: "string_of_bytes (bytes_of_string s) = s"
  by (induction s) (simp_all add: bytes_of_string_def string_of_bytes_def of_nat_unat_byte)

lemma hex_val_digit: "d < 16 \<Longrightarrow> hex_val (hex_digit d) = Some d"
  by (auto simp: hex_val_def hex_digit_def)

lemma hex_DecodeString_encode: "hex_DecodeString (hex_encode bs) = bs"
proof (induction bs)
  case (Cons b bs)
  have "unat b div 16 < 16" using unat_byte_less [of b] by simp
  moreover have "of_nat (16 * (unat b div 16) + unat b mod 16) = b" by (simp del: of_nat_add of_nat_mult)
  ultimately show ?case using Cons by (simp add: hex_encode_def hex_val_digit del: of_nat_add of_nat_mult)
qed (simp add: hex_encode_def)

lemma length_hex_encode: "length (hex_encode bs) = 2 * length bs"
  by (induction bs) (simp_all add: hex_encode_def)

lemma itoa_nonempty [simp]: "itoa n \<noteq> []"
  by (subst itoa.simps) simp

lemma digit_val_itoa: "c \<in> set (itoa n) \<Longrightarrow> digit_val c \<noteq> None"
proof (induction n rule: itoa.induct)
  case (1 n)
  then show ?case
    by (subst (asm) (2) itoa.simps) (auto split: if_splits)
qed

lemma parse_digits_append:
  "parse_digits limit acc (xs @ ys) =
     (case parse_digits limit acc xs of NumOk a \<Rightarrow> parse_digits limit a ys | r \<Rightarrow> r)"
  by (induction xs arbitrary: acc) (auto split: option.splits)

lemma parse_digits_itoa: "n < limit \<Longrightarrow> parse_digits limit 0 (itoa n) = NumOk n"
proof (induction n rule: itoa.induct)
  case (1 n)
  show ?case
  proof (cases "n < 10")
    case True
    with "1.prems" show ?thesis by (simp add: itoa.simps [of n])
  next
    case False
    then have "parse_digits limit 0 (itoa (n div 10)) = NumOk (n div 10)"
      using 1 by (simp add: less_imp_diff_less)
    with False "1.prems" show ?thesis
      by (simp add: itoa.simps [of n] parse_digits_append)
  qed
qed

lemma ParseUint_itoa: "n < 2 ^ bits \<Longrightarrow> ParseUint (itoa n) bits = NumOk n"
  by (simp add: ParseUint_def parse_digits_itoa)

lemma hd_itoa_digit: "digit_val (hd (itoa n)) \<noteq> None"
  by (rule digit_val_itoa [of _ n]) simp

lemma hd_itoa_sign [simp]: "hd (itoa n) \<noteq> CHR ''-''" "hd (itoa n) \<noteq> CHR ''+''"
  using hd_itoa_digit [of n] by (auto simp: digit_val_def)

lemma Atoi_itoa: "n < 2 ^ 63 \<Longrightarrow> Atoi (itoa n) = NumOk (int n)"
  by (simp add: Atoi_def ParseInt_def ParseUint_itoa)

lemma parse_digits_bound: "parse_digits limit acc s = NumOk n \<Longrightarrow> acc < limit \<Longrightarrow> n < limit"
  by (induction limit acc s rule: parse_digits.induct) (auto split: option.splits if_splits)

lemma ParseUint_bound: "ParseUint s bits = NumOk n \<Longrightarrow> n < 2 ^ bits"
  by (auto simp: ParseUint_def split: if_splits dest: parse_digits_bound)

lemma split_on_nonempty [simp]: "split_on c s \<noteq> []"
  by (induction s) (auto split: list.splits)

lemma split_on_no_sep: "c \<notin> set s \<Longrightarrow> split_on c s = [s]"
  by (induction s) auto

lemma split_on_sep: "c \<notin> set s \<Longrightarrow> split_on c (s @ c # t) = s # split_on c t"
  by (induction s) auto

lemma sep_notin_itoa: "digit_val c = None \<Longrightarrow> c \<notin> set (itoa n)"
  using digit_val_itoa by blast

end
