(* ===== verification/Go_Net.thy ===== *)
theory Go_Net
  imports Go_Strings
begin

text \<open>
  Addresses of Go's \<^verbatim>\<open>net\<close> package, as the listeners use them: an
  \<^verbatim>\<open>IP\<close> is a byte slice of length 4 or 16, and the two forms of an
  IPv4 address compare equal.
\<close>

type_synonym ip = bytes
type_synonym mac = bytes

definition v4InV6Prefix :: bytes where
  "v4InV6Prefix = replicate 10 0 @ [0xff, 0xff]"

definition net_IPv4 :: "byte \<Rightarrow> byte \<Rightarrow> byte \<Rightarrow> byte \<Rightarrow> ip" where
  "net_IPv4 a b c d = v4InV6Prefix @ [a, b, c, d]"

definition To4 :: "ip \<Rightarrow> ip option" where
  "To4 p = (if length p = 4 then Some p
            else if length p = 16 \<and> take 12 p = v4InV6Prefix then Some (drop 12 p)
            else None)"

definition ip_Equal :: "ip \<Rightarrow> ip \<Rightarrow> bool" where
  "ip_Equal p x =
     (if length p = length x then p = x
      else if length p = 4 \<and> length x = 16 then take 12 x = v4InV6Prefix \<and> p = drop 12 x
      else if length p = 16 \<and> length x = 4 then take 12 p = v4InV6Prefix \<and> drop 12 p = x
      else False)"

text \<open>\<^verbatim>\<open>net.TCPAddr\<close> and \<^verbatim>\<open>net.UDPAddr\<close>; any other address type has no port.\<close>

datatype net_addr = TCPAddr ip int | UDPAddr ip int | OtherAddr string

text \<open>
  \<^verbatim>\<open>IP.String\<close>: dotted decimal for IPv4, and for the other 16-byte
  addresses groups in hexadecimal, where the first longest run of at least two zero groups is
  written as a double colon. \<open>zero_run gs\<close> is that run, as first and past-the-end group.
\<close>

definition ip_groups :: "ip \<Rightarrow> nat list" where
  "ip_groups p = map (\<lambda>i. unat (be16 (p ! (2 * i)) (p ! (2 * i + 1)))) [0..<8]"

definition run_from :: "nat list \<Rightarrow> nat \<Rightarrow> nat" where
  "run_from gs i = length (takeWhile (\<lambda>g. g = 0) (drop i gs))"

definition zero_run :: "nat list \<Rightarrow> nat \<times> nat" where
  "zero_run gs =
     fold (\<lambda>i (e0, e1). if e1 - e0 < run_from gs i then (i, i + run_from gs i) else (e0, e1)) [0..<length gs] (0, 0)"

fun colon_join :: "string list \<Rightarrow> string" where
  "colon_join [] = []"
| "colon_join [s] = s"
| "colon_join (s # ss) = s @ '':'' @ colon_join ss"

definition ipv6_String :: "ip \<Rightarrow> string" where
  "ipv6_String p =
     (let gs = ip_groups p; (e0, e1) = zero_run gs; hex = map hex_of_nat gs in
      if e1 - e0 < 2 then colon_join hex
      else colon_join (take e0 hex) @ ''::'' @ colon_join (drop e1 hex))"

definition ip_String :: "ip \<Rightarrow> string" where
  "ip_String p =
     (if p = [] then ''<nil>''
      else case To4 p of
        Some p4 \<Rightarrow> concat (map (\<lambda>i. (if i = 0 then [] else ''.'') @ itoa (unat (p4 ! i))) [0..<4])
      | None \<Rightarrow> if length p = 16 then ipv6_String p else ''?'' @ hex_encode p)"

text \<open>\<^verbatim>\<open>HardwareAddr.String\<close>.\<close>

definition mac_String :: "mac \<Rightarrow> string" where
  "mac_String a = colon_join (map (\<lambda>b. [hex_digit (unat b div 16), hex_digit (unat b mod 16)]) a)"

text \<open>\<^verbatim>\<open>Addr.String\<close> and \<^verbatim>\<open>Addr.Network\<close>.\<close>

definition join_host_port :: "string \<Rightarrow> int \<Rightarrow> string" where
  "join_host_port host port =
     (if CHR '':'' \<in> set host then ''['' @ host @ '']:'' @ itoa_int port else host @ '':'' @ itoa_int port)"

fun addr_String :: "net_addr \<Rightarrow> string" where
  "addr_String (TCPAddr ip port) = join_host_port (if ip = [] then [] else ip_String ip) port"
| "addr_String (UDPAddr ip port) = join_host_port (if ip = [] then [] else ip_String ip) port"
| "addr_String (OtherAddr s) = s"

fun addr_Network :: "net_addr \<Rightarrow> string" where
  "addr_Network (TCPAddr ip port) = ''tcp''"
| "addr_Network (UDPAddr ip port) = ''udp''"
| "addr_Network (OtherAddr s) = []"

lemma length_v4InV6Prefix [simp]: "length v4InV6Prefix = 12"
  by (simp add: v4InV6Prefix_def)

lemma length_net_IPv4 [simp]: "length (net_IPv4 a b c d) = 16"
  by (simp add: net_IPv4_def)

lemma To4_net_IPv4 [simp]: "To4 (net_IPv4 a b c d) = Some [a, b, c, d]"
  by (simp add: To4_def net_IPv4_def)

lemma ip_Equal_refl [simp]: "ip_Equal p p"
  by (simp add: ip_Equal_def)

lemma ip_Equal_sym: "ip_Equal p q = ip_Equal q p"
  by (auto simp: ip_Equal_def)

lemma ip_Equal_To4: "To4 p = Some a \<Longrightarrow> To4 q = Some b \<Longrightarrow> ip_Equal p q \<longleftrightarrow> a = b"
  by (auto simp: ip_Equal_def To4_def split: if_splits)
    (metis append_take_drop_id)+

lemma net_IPv4_inject [simp]:
  "net_IPv4 a b c d = net_IPv4 a' b' c' d' \<longleftrightarrow> a = a' \<and> b = b' \<and> c = c' \<and> d = d'"
  by (simp add: net_IPv4_def)

end
