(* ===== verification/Link_Headers.thy ===== *)
theory Link_Headers
  imports Go_Net
begin

text \<open>
  The link-layer and datagram formats of the canary listener: Ethernet frames
  (\<^verbatim>\<open>listener/canary/ethernet\<close>), ARP (\<^verbatim>\<open>listener/canary/arp\<close>),
  ICMP (\<^verbatim>\<open>listener/canary/icmp\<close>) and UDP (\<^verbatim>\<open>listener/canary/udp\<close>).
  The lemmas give the exact inputs on which each parser panics or reports an
  error, and the encode/decode round trips.
\<close>

section \<open>Ethernet\<close>

record eth_Frame =
  eth_Source :: mac
  eth_Destination :: mac
  eth_Type :: u16
  eth_Payload :: bytes

definition eth_Unmarshal :: "eth_Frame \<Rightarrow> bytes \<Rightarrow> eth_Frame result" where
  "eth_Unmarshal f data =
     bindR (go_slice data 0 6) (\<lambda>dst.
     bindR (go_slice data 6 12) (\<lambda>src.
     bindR (u16_at data 12) (\<lambda>typ.
     bindR (go_from data 14) (\<lambda>payload.
       Inr (f\<lparr>eth_Destination := go_copy (eth_Destination f) dst,
              eth_Source := go_copy (eth_Source f) src,
              eth_Type := typ,
              eth_Payload := payload\<rparr>)))))"

definition eth_Parse :: "bytes \<Rightarrow> eth_Frame result" where
  "eth_Parse data =
     eth_Unmarshal \<lparr>eth_Source = replicate 6 0, eth_Destination = replicate 6 0,
                    eth_Type = 0, eth_Payload = []\<rparr> data"

text \<open>The receiver of \<^verbatim>\<open>Marshal\<close> may be a nil pointer, here \<open>None\<close>.\<close>

definition eth_Marshal :: "eth_Frame option \<Rightarrow> bytes result" where
  "eth_Marshal fo = (case fo of
     None \<Rightarrow> Inl (Error ''invalid argument'')
   | Some f \<Rightarrow>
       Inr (go_copy (replicate 6 0) (eth_Destination f) @
            go_copy (replicate 6 0) (eth_Source f) @
            [ucast (drop_bit 8 (eth_Type f) AND 0xFF), ucast (eth_Type f AND 0xFF)]))"

section \<open>ARP\<close>

record arp_Frame =
  arp_HardwareType :: u16
  arp_ProtocolType :: u16
  arp_HardwareSize :: byte
  arp_ProtocolSize :: byte
  arp_Opcode :: u16
  arp_SenderMAC :: bytes
  arp_SenderIP :: bytes
  arp_TargetMAC :: bytes
  arp_TargetIP :: bytes

definition arp_Unmarshal :: "arp_Frame \<Rightarrow> bytes \<Rightarrow> arp_Frame result" where
  "arp_Unmarshal f data =
     (if length data < 28
      then Inl (Error (''Incorrect ARP header size: '' @ itoa (length data)))
      else
       bindR (u16_at data 0) (\<lambda>ht.
       bindR (u16_at data 2) (\<lambda>pt.
       bindR (go_at data 4) (\<lambda>hs.
       bindR (go_at data 5) (\<lambda>ps.
       bindR (u16_at data 6) (\<lambda>opc.
       bindR (go_slice data 8 14) (\<lambda>smac.
       bindR (go_slice data 14 18) (\<lambda>sip.
       bindR (go_slice data 18 24) (\<lambda>tmac.
       bindR (go_slice data 24 28) (\<lambda>tip.
         Inr (f\<lparr>arp_HardwareType := ht, arp_ProtocolType := pt,
                arp_HardwareSize := hs, arp_ProtocolSize := ps, arp_Opcode := opc,
                arp_SenderMAC := go_copy (arp_SenderMAC f) smac,
                arp_SenderIP := go_copy (arp_SenderIP f) sip,
                arp_TargetMAC := go_copy (arp_TargetMAC f) tmac,
                arp_TargetIP := go_copy (arp_TargetIP f) tip\<rparr>)))))))))))"

definition arp_Parse :: "bytes \<Rightarrow> arp_Frame result" where
  "arp_Parse data =
     arp_Unmarshal \<lparr>arp_HardwareType = 0, arp_ProtocolType = 0, arp_HardwareSize = 0,
       arp_ProtocolSize = 0, arp_Opcode = 0,
       arp_SenderMAC = replicate 6 0, arp_SenderIP = replicate 4 0,
       arp_TargetMAC = replicate 6 0, arp_TargetIP = replicate 4 0\<rparr> data"

section \<open>ICMP\<close>

type_synonym ICMPv4TypeCode = u16

definition icmp_Type :: "ICMPv4TypeCode \<Rightarrow> byte" where
  "icmp_Type a = ucast (drop_bit 8 a)"

definition icmp_Code :: "ICMPv4TypeCode \<Rightarrow> byte" where
  "icmp_Code a = ucast a"

definition CreateICMPv4TypeCode :: "byte \<Rightarrow> byte \<Rightarrow> ICMPv4TypeCode" where
  "CreateICMPv4TypeCode typ code = be16 typ code"

definition icmp_SerializeTo :: "ICMPv4TypeCode \<Rightarrow> bytes \<Rightarrow> bytes result" where
  "icmp_SerializeTo a buf =
     (if 2 \<le> length buf then Inr (go_copy buf (put_be16 a)) else Inl (Panic IndexOutOfRange))"

definition icmp_unreachable_codes :: "(byte \<times> string) list" where
  "icmp_unreachable_codes =
     [(0, ''Net''), (1, ''Host''), (2, ''Protocol''), (3, ''Port''),
      (4, ''FragmentationNeeded''), (5, ''SourceRoutingFailed''), (6, ''NetUnknown''),
      (7, ''HostUnknown''), (8, ''SourceIsolated''), (9, ''NetAdminProhibited''),
      (10, ''HostAdminProhibited''), (11, ''NetTOS''), (12, ''HostTOS''),
      (13, ''CommAdminProhibited''), (14, ''HostPrecedence''), (15, ''PrecedenceCutoff'')]"

definition icmpv4TypeCodeInfo :: "(byte \<times> string \<times> (byte \<times> string) list option) list" where
  "icmpv4TypeCodeInfo =
     [(3, ''DestinationUnreachable'', Some icmp_unreachable_codes),
      (11, ''TimeExceeded'',
         Some [(0, ''TTLExceeded''), (1, ''FragmentReassemblyTimeExceeded'')]),
      (12, ''ParameterProblem'',
         Some [(0, ''PointerIndicatesError''), (1, ''MissingOption''), (2, ''BadLength'')]),
      (4, ''SourceQuench'', None),
      (5, ''Redirect'',
         Some [(0, ''Net''), (1, ''Host''), (2, ''TOS+Net''), (3, ''TOS+Host'')]),
      (8, ''EchoRequest'', None),
      (0, ''EchoReply'', None),
      (13, ''TimestampRequest'', None),
      (14, ''TimestampReply'', None),
      (15, ''InfoRequest'', None),
      (16, ''InfoReply'', None),
      (10, ''RouterSolicitation'', None),
      (9, ''RouterAdvertisement'', None),
      (17, ''AddressMaskRequest'', None),
      (18, ''AddressMaskReply'', None)]"

definition icmp_TypeCode_String :: "ICMPv4TypeCode \<Rightarrow> string" where
  "icmp_TypeCode_String a =
     (let t = icmp_Type a; c = icmp_Code a in
      case map_of icmpv4TypeCodeInfo t of
        None \<Rightarrow> itoa (unat t) @ ''('' @ itoa (unat c) @ '')''
      | Some (typeStr, codes) \<Rightarrow>
          (case codes of
             None \<Rightarrow> if c = 0 then typeStr
                     else typeStr @ ''(Code: '' @ itoa (unat c) @ '')''
           | Some m \<Rightarrow>
               (case map_of m c of
                  None \<Rightarrow> typeStr @ ''(Code: '' @ itoa (unat c) @ '')''
                | Some codeStr \<Rightarrow> typeStr @ ''('' @ codeStr @ '')'')))"

record ICMPv4 =
  icmp_TypeCode :: ICMPv4TypeCode
  icmp_Checksum :: u16
  icmp_ID :: u16
  icmp_Seq :: u16

definition icmp_Parse :: "bytes \<Rightarrow> ICMPv4 result" where
  "icmp_Parse data =
     (if length data < 8
      then Inl (Error (''Incorrect ICMP header size: '' @ itoa (length data)))
      else
       bindR (go_at data 0) (\<lambda>t.
       bindR (go_at data 1) (\<lambda>c.
       bindR (u16_at data 2) (\<lambda>ck.
       bindR (u16_at data 4) (\<lambda>ident.
       bindR (u16_at data 6) (\<lambda>sq.
         Inr \<lparr>icmp_TypeCode = CreateICMPv4TypeCode t c, icmp_Checksum = ck,
              icmp_ID = ident, icmp_Seq = sq\<rparr>))))))"

definition icmp_String :: "ICMPv4 \<Rightarrow> string" where
  "icmp_String i = ''type='' @ icmp_TypeCode_String (icmp_TypeCode i) @
     '', checksum='' @ itoa (unat (icmp_Checksum i)) @
     '', id='' @ itoa (unat (icmp_ID i)) @ '', seq='' @ itoa (unat (icmp_Seq i))"

section \<open>UDP\<close>

record udp_Header =
  udp_Source :: u16
  udp_Destination :: u16
  udp_Length :: u16
  udp_Checksum :: u16
  udp_Payload :: bytes

definition udp_Unmarshal :: "bytes \<Rightarrow> udp_Header result" where
  "udp_Unmarshal data =
     (if length data < 8
      then Inl (Error (''Incorrect UDP header size: '' @ itoa (length data)))
      else
       bindR (u16_at data 0) (\<lambda>src.
       bindR (u16_at data 2) (\<lambda>dst.
       bindR (u16_at data 4) (\<lambda>len.
       bindR (u16_at data 6) (\<lambda>ck.
       bindR (go_from data 8) (\<lambda>payload.
         if length data \<noteq> unat len
         then Inl (Error (''UDP payload length and size doesn't match, got '' @
                itoa (length data) @ '', expected '' @ itoa (unat len)))
         else Inr \<lparr>udp_Source = src, udp_Destination = dst, udp_Length = len,
                   udp_Checksum = ck, udp_Payload = payload\<rparr>))))))"

definition udp_Marshal :: "udp_Header \<Rightarrow> bytes" where
  "udp_Marshal hdr =
     put_be16 (udp_Source hdr) @ put_be16 (udp_Destination hdr) @
     put_be16 (udp_Length hdr) @ put_be16 (udp_Checksum hdr) @ udp_Payload hdr"

section \<open>Properties\<close>

subsection \<open>Ethernet\<close>

lemma eth_Parse_ok:
  "14 \<le> length data \<Longrightarrow>
   eth_Parse data = Inr \<lparr>eth_Source = take 6 (drop 6 data), eth_Destination = take 6 data,
     eth_Type = be16 (data ! 12) (data ! 13), eth_Payload = drop 14 data\<rparr>"
  by (simp add: eth_Parse_def eth_Unmarshal_def go_copy_same)

lemma eth_Parse_short: "length data < 14 \<Longrightarrow> eth_Parse data = Inl (Panic SliceOutOfRange)"
  by (auto simp: eth_Parse_def eth_Unmarshal_def go_panic_defs)

lemma eth_Marshal_bytes:
  "length (eth_Source f) = 6 \<Longrightarrow> length (eth_Destination f) = 6 \<Longrightarrow>
   eth_Marshal (Some f) = Inr (eth_Destination f @ eth_Source f @ put_be16 (eth_Type f))"
  by (simp add: eth_Marshal_def go_copy_same u16_low_byte put_be16_def)

subsection \<open>ARP, ICMP and UDP\<close>

lemma arp_Parse_ok:
  "28 \<le> length data \<Longrightarrow>
   arp_Parse data = Inr \<lparr>arp_HardwareType = be16 (data ! 0) (data ! 1),
     arp_ProtocolType = be16 (data ! 2) (data ! 3),
     arp_HardwareSize = data ! 4, arp_ProtocolSize = data ! 5,
     arp_Opcode = be16 (data ! 6) (data ! 7),
     arp_SenderMAC = take 6 (drop 8 data), arp_SenderIP = take 4 (drop 14 data),
     arp_TargetMAC = take 6 (drop 18 data), arp_TargetIP = take 4 (drop 24 data)\<rparr>"
  by (simp add: arp_Parse_def arp_Unmarshal_def go_copy_same)

lemma icmp_Parse_ok:
  "8 \<le> length data \<Longrightarrow>
   icmp_Parse data = Inr \<lparr>icmp_TypeCode = be16 (data ! 0) (data ! 1),
     icmp_Checksum = be16 (data ! 2) (data ! 3),
     icmp_ID = be16 (data ! 4) (data ! 5), icmp_Seq = be16 (data ! 6) (data ! 7)\<rparr>"
  by (auto simp: icmp_Parse_def CreateICMPv4TypeCode_def go_at_def)

lemma udp_Unmarshal_ok:
  "8 \<le> length data \<Longrightarrow> length data = unat (be16 (data ! 4) (data ! 5)) \<Longrightarrow>
   udp_Unmarshal data = Inr \<lparr>udp_Source = be16 (data ! 0) (data ! 1),
     udp_Destination = be16 (data ! 2) (data ! 3),
     udp_Length = be16 (data ! 4) (data ! 5), udp_Checksum = be16 (data ! 6) (data ! 7),
     udp_Payload = drop 8 data\<rparr>"
  by (simp add: udp_Unmarshal_def)

lemma udp_Unmarshal_Inr:
  assumes "udp_Unmarshal data = Inr h"
  shows "8 \<le> length data \<and> length data = unat (udp_Length h) \<and> length (udp_Payload h) = length data - 8"
  using assms by (auto simp: udp_Unmarshal_def split: if_splits)

text \<open>
  Ethernet round trip. \<^verbatim>\<open>Marshal\<close> writes the 14-byte header of a frame with
  6-byte addresses, and \<^verbatim>\<open>Parse\<close> of that header and any payload gives the
  frame back with that payload.
\<close>

theorem eth_roundtrip:
  assumes "length (eth_Source f) = 6" "length (eth_Destination f) = 6"
  shows "\<exists>b. eth_Marshal (Some f) = Inr b \<and> length b = 14 \<and>
    (\<forall>p. eth_Parse (b @ p) = Inr (f\<lparr>eth_Payload := p\<rparr>))"
proof -
  let ?b = "eth_Destination f @ eth_Source f @ put_be16 (eth_Type f)"
  have "eth_Parse (?b @ p) = Inr (f\<lparr>eth_Payload := p\<rparr>)" for p
    using assms by (subst eth_Parse_ok) (auto simp: nth_append put_be16_def)
  then show ?thesis using assms by (simp add: eth_Marshal_bytes)
qed

theorem eth_roundtrip_witness:
  "\<exists>b. eth_Marshal (Some \<lparr>eth_Source = [2, 0, 0, 0, 0, 1], eth_Destination = [2, 0, 0, 0, 0, 2],
      eth_Type = 0x0800, eth_Payload = []\<rparr>) = Inr b \<and> length b = 14 \<and>
    eth_Parse (b @ [0x45]) = Inr \<lparr>eth_Source = [2, 0, 0, 0, 0, 1],
      eth_Destination = [2, 0, 0, 0, 0, 2], eth_Type = 0x0800, eth_Payload = [0x45]\<rparr>"
  using eth_roundtrip [of "\<lparr>eth_Source = [2, 0, 0, 0, 0, 1], eth_Destination = [2, 0, 0, 0, 0, 2],
      eth_Type = 0x0800, eth_Payload = []\<rparr>"]
  by auto

text \<open>
  UDP round trip, and the datagrams it holds for: \<^verbatim>\<open>Unmarshal\<close> gives back what
  \<^verbatim>\<open>Marshal\<close> wrote if and only if the length field counts the 8 header bytes and
  the payload (\<^verbatim>\<open>Marshal\<close> does not compute it).
\<close>

theorem udp_roundtrip:
  "udp_Unmarshal (udp_Marshal h) = Inr h \<longleftrightarrow> unat (udp_Length h) = 8 + length (udp_Payload h)"
proof
  assume "udp_Unmarshal (udp_Marshal h) = Inr h"
  then show "unat (udp_Length h) = 8 + length (udp_Payload h)"
    using udp_Unmarshal_Inr [of "udp_Marshal h" h] by (simp add: udp_Marshal_def)
next
  assume "unat (udp_Length h) = 8 + length (udp_Payload h)"
  then show "udp_Unmarshal (udp_Marshal h) = Inr h"
    by (subst udp_Unmarshal_ok) (auto simp: udp_Marshal_def put_be16_def)
qed

text \<open>
  What the four parsers do on arbitrary bytes. \<^verbatim>\<open>ethernet.Parse\<close> has no length
  check and panics on exactly the frames shorter than 14 bytes; ARP, ICMP and UDP never
  panic, and accept exactly the buffers long enough for their header (for UDP: whose
  length field is the length of the buffer).
\<close>

theorem link_parsers_outcome:
  "(is_panic (eth_Parse data) \<longleftrightarrow> length data < 14) \<and>
   (is_ok (eth_Parse data) \<longleftrightarrow> 14 \<le> length data) \<and>
   \<not> is_panic (arp_Parse data) \<and> (is_ok (arp_Parse data) \<longleftrightarrow> 28 \<le> length data) \<and>
   \<not> is_panic (icmp_Parse data) \<and> (is_ok (icmp_Parse data) \<longleftrightarrow> 8 \<le> length data) \<and>
   \<not> is_panic (udp_Unmarshal data) \<and>
   (is_ok (udp_Unmarshal data) \<longleftrightarrow>
      8 \<le> length data \<and> length data = unat (be16 (data ! 4) (data ! 5)))"
proof -
  have "(is_panic (eth_Parse data) \<longleftrightarrow> length data < 14) \<and> (is_ok (eth_Parse data) \<longleftrightarrow> 14 \<le> length data)"
    by (cases "length data < 14") (simp_all add: eth_Parse_short eth_Parse_ok)
  moreover have "\<not> is_panic (arp_Parse data) \<and> (is_ok (arp_Parse data) \<longleftrightarrow> 28 \<le> length data)"
    by (cases "length data < 28") (simp_all add: arp_Parse_ok, simp_all add: arp_Parse_def arp_Unmarshal_def)
  moreover have "\<not> is_panic (icmp_Parse data) \<and> (is_ok (icmp_Parse data) \<longleftrightarrow> 8 \<le> length data)"
    by (cases "length data < 8") (simp_all add: icmp_Parse_ok, simp_all add: icmp_Parse_def)
  moreover have "\<not> is_panic (udp_Unmarshal data) \<and> (is_ok (udp_Unmarshal data) \<longleftrightarrow>
      8 \<le> length data \<and> length data = unat (be16 (data ! 4) (data ! 5)))"
    by (cases "length data < 8") (simp_all add: udp_Unmarshal_def)
  ultimately show ?thesis by blast
qed

end
