(* ===== verification/Ring_Buffer.thy ===== *)
theory Ring_Buffer
  imports Go_Prelude
begin

text \<open>
  The fixed-size ring buffer \<^verbatim>\<open>rbuf\<close> that the canary listener uses for the
  receive side of its sockets and for its transmit queue. The model keeps the two
  ping/pong arrays, the start index and the number of readable bytes; the refinement
  is to the list of readable bytes. The locale \<open>byte_queue\<close> is what the clients rely on:
  a bounded queue whose write takes what fits and whose read takes from the front.
\<close>

section \<open>The buffer\<close>

datatype rb_error = EOF | ErrShortWrite

record FixedSizeRingBuf =
  rb_A0 :: bytes
  rb_A1 :: bytes
  rb_Use :: nat
  rb_N :: nat
  rb_Beg :: nat
  rb_Readable :: nat

definition rb_active :: "FixedSizeRingBuf \<Rightarrow> bytes" where
  "rb_active b = (if rb_Use b = 0 then rb_A0 b else rb_A1 b)"

definition rb_set_active :: "FixedSizeRingBuf \<Rightarrow> bytes \<Rightarrow> FixedSizeRingBuf" where
  "rb_set_active b a = (if rb_Use b = 0 then b\<lparr>rb_A0 := a\<rparr> else b\<lparr>rb_A1 := a\<rparr>)"

definition NewFixedSizeRingBuf :: "nat \<Rightarrow> FixedSizeRingBuf" where
  "NewFixedSizeRingBuf n =
     \<lparr>rb_A0 = replicate n 0, rb_A1 = replicate n 0, rb_Use = 0, rb_N = n, rb_Beg = 0, rb_Readable = 0\<rparr>"

definition rb_ContigLen :: "FixedSizeRingBuf \<Rightarrow> nat" where
  "rb_ContigLen b = min (rb_Beg b + rb_Readable b) (rb_N b) - rb_Beg b"

definition rb_Advance :: "FixedSizeRingBuf \<Rightarrow> nat \<Rightarrow> FixedSizeRingBuf" where
  "rb_Advance b n0 =
     (if n0 = 0 then b
      else let n = min n0 (rb_Readable b) in
           b\<lparr>rb_Readable := rb_Readable b - n, rb_Beg := (rb_Beg b + n) mod rb_N b\<rparr>)"

definition rb_Avail :: "FixedSizeRingBuf \<Rightarrow> nat" where
  "rb_Avail b = rb_Readable b"

definition rb_Reset :: "FixedSizeRingBuf \<Rightarrow> FixedSizeRingBuf" where
  "rb_Reset b = b\<lparr>rb_Beg := 0, rb_Readable := 0, rb_Use := 0\<rparr>"

text \<open>
  A read fills the front of the caller's slice \<open>p\<close>; the result is the buffer, the
  slice, the number of bytes and the error.
\<close>

definition rb_ReadAndMaybeAdvance ::
  "FixedSizeRingBuf \<Rightarrow> bytes \<Rightarrow> bool \<Rightarrow> (FixedSizeRingBuf \<times> bytes \<times> nat \<times> rb_error option) result" where
  "rb_ReadAndMaybeAdvance b p doAdvance =
     (if length p = 0 then Inr (b, p, 0, None)
      else if rb_Readable b = 0 then Inr (b, p, 0, Some EOF)
      else
       let extent = rb_Beg b + rb_Readable b in
       bindR
         (if extent \<le> rb_N b
          then bindR (go_slice (rb_active b) (rb_Beg b) extent) (\<lambda>s.
                 Inr (go_copy p s, min (length p) (length s)))
          else bindR (go_slice (rb_active b) (rb_Beg b) (rb_N b)) (\<lambda>s.
                 let n = min (length p) (length s); p1 = go_copy p s in
                 if n < length p
                 then bindR (go_slice (rb_active b) 0 (extent mod rb_N b)) (\<lambda>s2.
                        Inr (go_copy_at p1 n s2, n + min (length p - n) (length s2)))
                 else Inr (p1, n)))
         (\<lambda>(p', n). Inr (if doAdvance then rb_Advance b n else b, p', n, None)))"

definition rb_Read ::
  "FixedSizeRingBuf \<Rightarrow> bytes \<Rightarrow> (FixedSizeRingBuf \<times> bytes \<times> nat \<times> rb_error option) result" where
  "rb_Read b p = rb_ReadAndMaybeAdvance b p True"

definition rb_ReadWithoutAdvance ::
  "FixedSizeRingBuf \<Rightarrow> bytes \<Rightarrow> (FixedSizeRingBuf \<times> bytes \<times> nat \<times> rb_error option) result" where
  "rb_ReadWithoutAdvance b p = rb_ReadAndMaybeAdvance b p False"

text \<open>
  The loop of \<^verbatim>\<open>Write\<close>, with its local variables \<open>p\<close> (what is left),
  \<open>n\<close> and \<open>err\<close>.
\<close>

function rb_write_loop ::
  "FixedSizeRingBuf \<Rightarrow> bytes \<Rightarrow> nat \<Rightarrow> rb_error option \<Rightarrow> (FixedSizeRingBuf \<times> nat \<times> rb_error option) result" where
  "rb_write_loop b p n err =
     (if length p = 0 then Inr (b, n, err)
      else if rb_N b \<le> rb_Readable b then Inr (b, n, Some ErrShortWrite)
      else
       let writeCapacity = rb_N b - rb_Readable b;
           err1 = (if writeCapacity < length p then Some ErrShortWrite else err);
           writeStart = (rb_Beg b + rb_Readable b) mod rb_N b;
           upperLim = min (writeStart + writeCapacity) (rb_N b);
           k = min (upperLim - writeStart) (length p)
       in if length (rb_active b) < upperLim then Inl (Panic SliceOutOfRange)
          else rb_write_loop
                 ((rb_set_active b (go_copy_at (rb_active b) writeStart (take k p)))
                    \<lparr>rb_Readable := rb_Readable b + k\<rparr>)
                 (drop k p) (n + k) err1)"
  by pat_completeness auto
termination
proof (relation "measure (\<lambda>(b, p, n, err). length p)", goal_cases)
  case (2 b p n err wc err1 ws ul k)
  then have "ws < ul" by (simp add: min_def) (use mod_less_divisor in fastforce)
  moreover have "0 < length p" using 2(1) by simp
  ultimately have "0 < k" unfolding 2(7) by simp
  then show ?case using \<open>0 < length p\<close> by simp
qed simp

declare rb_write_loop.simps [simp del]

definition rb_Write ::
  "FixedSizeRingBuf \<Rightarrow> bytes \<Rightarrow> (FixedSizeRingBuf \<times> nat \<times> rb_error option) result" where
  "rb_Write b p = rb_write_loop b p 0 None"

definition rb_WriteAndMaybeOverwriteOldestData ::
  "FixedSizeRingBuf \<Rightarrow> bytes \<Rightarrow> (FixedSizeRingBuf \<times> nat \<times> rb_error option) result" where
  "rb_WriteAndMaybeOverwriteOldestData b p =
     (let writeCapacity = rb_N b - rb_Readable b;
          b1 = (if writeCapacity < length p then rb_Advance b (length p - writeCapacity) else b);
          startPos = (if rb_N b < length p then length p - rb_N b else 0)
      in bindR (rb_Write b1 (drop startPos p)) (\<lambda>(b2, n, err).
           Inr (b2, if err \<noteq> None then n else length p, err)))"

text \<open>\<^verbatim>\<open>Bytes\<close> copies a wrapped content into the other array and switches to it.\<close>

definition rb_Bytes :: "FixedSizeRingBuf \<Rightarrow> (FixedSizeRingBuf \<times> bytes) result" where
  "rb_Bytes b =
     (let extent = rb_Beg b + rb_Readable b in
      if extent \<le> rb_N b
      then bindR (go_slice (rb_active b) (rb_Beg b) extent) (\<lambda>s. Inr (b, s))
      else
       bindR (go_from (rb_active b) (rb_Beg b)) (\<lambda>s1.
       bindR (go_slice (rb_active b) 0 (extent mod rb_N b)) (\<lambda>s2.
         let dest = 1 - rb_Use b;
             old = rb_active (b\<lparr>rb_Use := dest\<rparr>);
             n1 = min (length old) (length s1);
             new = go_copy_at (go_copy old s1) n1 s2;
             n = n1 + min (length old - n1) (length s2);
             b' = (rb_set_active (b\<lparr>rb_Use := dest\<rparr>) new)\<lparr>rb_Beg := 0\<rparr>
         in bindR (go_slice (rb_active b') 0 n) (\<lambda>s. Inr (b', s)))))"

definition rb_BytesTwo :: "FixedSizeRingBuf \<Rightarrow> (bytes \<times> bytes) result" where
  "rb_BytesTwo b =
     (let extent = rb_Beg b + rb_Readable b in
      if extent \<le> rb_N b
      then bindR (go_slice (rb_active b) (rb_Beg b) extent) (\<lambda>s. Inr (s, []))
      else bindR (go_slice (rb_active b) (rb_Beg b) (rb_N b)) (\<lambda>s1.
           bindR (go_slice (rb_active b) 0 (extent mod rb_N b)) (\<lambda>s2. Inr (s1, s2))))"

section \<open>Invariant and abstraction\<close>

definition rb_inv :: "FixedSizeRingBuf \<Rightarrow> bool" where
  "rb_inv b \<longleftrightarrow> 0 < rb_N b \<and> length (rb_A0 b) = rb_N b \<and> length (rb_A1 b) = rb_N b \<and>
     rb_Use b < 2 \<and> rb_Beg b < rb_N b \<and> rb_Readable b \<le> rb_N b"

definition rb_list :: "FixedSizeRingBuf \<Rightarrow> bytes" where
  "rb_list b = map (\<lambda>i. rb_active b ! ((rb_Beg b + i) mod rb_N b)) [0..<rb_Readable b]"

section \<open>Sequences of calls\<close>

text \<open>
  A client's calls and what it sees of them (bytes read, count, error), on the buffer
  and on a plain list bounded by \<open>cap\<close>.
\<close>

datatype rb_op = OpWrite bytes | OpRead nat | OpPeek nat | OpAdvance nat | OpBytes | OpReset

type_synonym rb_out = "bytes \<times> nat \<times> rb_error option"

fun rb_step :: "FixedSizeRingBuf \<Rightarrow> rb_op \<Rightarrow> (FixedSizeRingBuf \<times> rb_out) result" where
  "rb_step b (OpWrite p) = bindR (rb_Write b p) (\<lambda>(b', n, err). Inr (b', [], n, err))"
| "rb_step b (OpRead k) = bindR (rb_Read b (replicate k 0)) (\<lambda>(b', p, n, err). Inr (b', take n p, n, err))"
| "rb_step b (OpPeek k) =
     bindR (rb_ReadWithoutAdvance b (replicate k 0)) (\<lambda>(b', p, n, err). Inr (b', take n p, n, err))"
| "rb_step b (OpAdvance k) = Inr (rb_Advance b k, [], rb_Avail (rb_Advance b k), None)"
| "rb_step b OpBytes = bindR (rb_Bytes b) (\<lambda>(b', s). Inr (b', s, rb_Avail b', None))"
| "rb_step b OpReset = Inr (rb_Reset b, [], 0, None)"

fun rb_run :: "FixedSizeRingBuf \<Rightarrow> rb_op list \<Rightarrow> (FixedSizeRingBuf \<times> rb_out list) result" where
  "rb_run b [] = Inr (b, [])"
| "rb_run b (opn # opns) =
     bindR (rb_step b opn) (\<lambda>(b1, out).
     bindR (rb_run b1 opns) (\<lambda>(b2, outs). Inr (b2, out # outs)))"

fun queue_step :: "nat \<Rightarrow> bytes \<Rightarrow> rb_op \<Rightarrow> bytes \<times> rb_out" where
  "queue_step cap xs (OpWrite p) =
     (let room = cap - length xs in
      (xs @ take room p, [], min (length p) room, if room < length p then Some ErrShortWrite else None))"
| "queue_step cap xs (OpRead k) =
     (drop k xs, take k xs, min k (length xs), if 0 < k \<and> xs = [] then Some EOF else None)"
| "queue_step cap xs (OpPeek k) =
     (xs, take k xs, min k (length xs), if 0 < k \<and> xs = [] then Some EOF else None)"
| "queue_step cap xs (OpAdvance k) = (drop k xs, [], length (drop k xs), None)"
| "queue_step cap xs OpBytes = (xs, xs, length xs, None)"
| "queue_step cap xs OpReset = ([], [], 0, None)"

fun queue_run :: "nat \<Rightarrow> bytes \<Rightarrow> rb_op list \<Rightarrow> bytes \<times> rb_out list" where
  "queue_run cap xs [] = (xs, [])"
| "queue_run cap xs (opn # opns) =
     (let (xs1, out) = queue_step cap xs opn; (xs2, outs) = queue_run cap xs1 opns
      in (xs2, out # outs))"

section \<open>What clients rely on\<close>

text \<open>
  A bounded byte queue: \<open>enq\<close> appends what fits and says how much that was, \<open>deq\<close> fills
  the caller's slice from the front. Neither panics on a valid queue.
\<close>

locale byte_queue =
  fixes inv :: "'q \<Rightarrow> bool"
    and content :: "'q \<Rightarrow> bytes"
    and capacity :: "'q \<Rightarrow> nat"
    and enq :: "'q \<Rightarrow> bytes \<Rightarrow> ('q \<times> nat \<times> rb_error option) result"
    and deq :: "'q \<Rightarrow> bytes \<Rightarrow> ('q \<times> bytes \<times> nat \<times> rb_error option) result"
  assumes bounded: "inv q \<Longrightarrow> length (content q) \<le> capacity q"
    and enq_law: "inv q \<Longrightarrow> \<exists>q'. enq q p = Inr (q',
        min (length p) (capacity q - length (content q)),
        if capacity q - length (content q) < length p then Some ErrShortWrite else None) \<and>
      inv q' \<and> capacity q' = capacity q \<and>
      content q' = content q @ take (capacity q - length (content q)) p"
    and deq_law: "inv q \<Longrightarrow> \<exists>q'. deq q p = Inr (q', go_copy p (content q),
        min (length p) (length (content q)),
        if p \<noteq> [] \<and> content q = [] then Some EOF else None) \<and>
      inv q' \<and> capacity q' = capacity q \<and> content q' = drop (length p) (content q)"
begin

lemma enq_fits:
  assumes "inv q" "length (content q) + length p \<le> capacity q"
  obtains q' where "enq q p = Inr (q', length p, None)" "inv q'" "capacity q' = capacity q"
    "content q' = content q @ p"
  using enq_law [OF assms(1), of p] assms(2) by (auto simp: min_absorb1)

lemma enq_drops:
  assumes "inv q" "capacity q < length (content q) + length p"
  obtains q' n where "enq q p = Inr (q', n, Some ErrShortWrite)" "inv q'" "capacity q' = capacity q"
    "n < length p" "length (content q') = capacity q" "content q' = content q @ take n p"
proof -
  let ?n = "capacity q - length (content q)"
  have n: "?n < length p" "length (content q) + ?n = capacity q"
    using assms bounded [OF assms(1)] by linarith+
  then obtain q' where q': "enq q p = Inr (q', ?n, Some ErrShortWrite)" "inv q'" "capacity q' = capacity q"
    "content q' = content q @ take ?n p"
    using enq_law [OF assms(1), of p] by (auto simp: min_absorb2)
  have "length (content q') = capacity q" using q'(4) n by simp
  with q' n(1) show ?thesis by (intro that)
qed

text \<open>Reading exactly the front: a slice of the right length receives it.\<close>

lemma deq_front:
  assumes "inv q" "content q = xs @ ys" "length p = length xs" "xs \<noteq> []"
  obtains q' where "deq q p = Inr (q', xs, length xs, None)" "inv q'" "capacity q' = capacity q"
    "content q' = ys"
proof -
  have "go_copy p (xs @ ys) = xs" using assms(3) by (simp add: go_copy_def)
  then show ?thesis
    using that deq_law [OF assms(1), of p] assms by (auto simp: min_absorb1)
qed

lemma enq_deq:
  assumes "inv q" "content q = []" "length p \<le> capacity q" "p \<noteq> []" "length buf = length p"
  obtains q1 q2 where "enq q p = Inr (q1, length p, None)" "deq q1 buf = Inr (q2, p, length p, None)"
    "content q2 = []"
proof -
  obtain q1 where q1: "enq q p = Inr (q1, length p, None)" "inv q1" "content q1 = p @ []"
    using assms by (auto elim: enq_fits [of q p])
  obtain q2 where "deq q1 buf = Inr (q2, p, length p, None)" "content q2 = []"
    using deq_front [OF q1(2,3) assms(5,4)] by metis
  with q1(1) show ?thesis by (rule that)
qed

end

section \<open>The ring buffer is such a queue\<close>

lemma length_rb_list [simp]: "length (rb_list b) = rb_Readable b"
  by (simp add: rb_list_def)

lemma nth_rb_list: "i < rb_Readable b \<Longrightarrow> rb_list b ! i = rb_active b ! ((rb_Beg b + i) mod rb_N b)"
  by (simp add: rb_list_def)

lemma length_rb_active: "rb_inv b \<Longrightarrow> length (rb_active b) = rb_N b"
  by (simp add: rb_inv_def rb_active_def)

lemma rb_set_active_simps [simp]:
  "rb_active (rb_set_active b a) = a" "rb_N (rb_set_active b a) = rb_N b"
  "rb_Beg (rb_set_active b a) = rb_Beg b" "rb_Readable (rb_set_active b a) = rb_Readable b"
  "rb_Use (rb_set_active b a) = rb_Use b"
  by (simp_all add: rb_active_def rb_set_active_def)

lemma rb_active_update [simp]:
  "rb_active (b\<lparr>rb_Readable := r\<rparr>) = rb_active b" "rb_active (b\<lparr>rb_Beg := k\<rparr>) = rb_active b"
  by (simp_all add: rb_active_def)

lemma rb_inv_set_active:
  "rb_inv b \<Longrightarrow> length a = rb_N b \<Longrightarrow> rb_inv (rb_set_active b a)"
  by (simp add: rb_inv_def rb_set_active_def)

lemma rb_wrap:
  assumes "rb_inv b" "rb_N b \<le> rb_Beg b + i" "i \<le> rb_N b"
  shows "(rb_Beg b + i) mod rb_N b = rb_Beg b + i - rb_N b"
proof -
  have "rb_Beg b + i - rb_N b < rb_N b" using assms unfolding rb_inv_def by linarith
  then show ?thesis using assms(2) by (simp add: le_mod_geq)
qed

text \<open>The content is one or two slices of the active array.\<close>

lemma rb_list_slices:
  assumes "rb_inv b"
  shows "rb_list b =
    (if rb_Beg b + rb_Readable b \<le> rb_N b
     then take (rb_Readable b) (drop (rb_Beg b) (rb_active b))
     else drop (rb_Beg b) (rb_active b) @ take ((rb_Beg b + rb_Readable b) mod rb_N b) (rb_active b))"
    (is "_ = ?r")
proof (rule nth_equalityI)
  note inv = assms [unfolded rb_inv_def] and len = length_rb_active [OF assms]
  note wrap = rb_wrap [OF assms]
  show "length (rb_list b) = length ?r"
    using inv len wrap [of "rb_Readable b"] by auto
  show "rb_list b ! i = ?r ! i" if "i < length (rb_list b)" for i
  proof (cases "rb_Beg b + i < rb_N b")
    case True
    then show ?thesis using that len by (auto simp: nth_rb_list nth_append)
  next
    case False
    then have "(rb_Beg b + i) mod rb_N b = rb_Beg b + i - rb_N b"
      using that inv by (intro wrap) auto
    then have m: "(i + rb_Beg b) mod rb_N b = i + rb_Beg b - rb_N b"
      by (simp only: add.commute)
    show ?thesis
      using False that len inv wrap [of "rb_Readable b"] by (auto simp: nth_rb_list nth_append m add.commute)
  qed
qed

lemma mod_neq:
  fixes i j :: nat
  assumes "i < j" "j < i + n"
  shows "(k + i) mod n \<noteq> (k + j) mod n"
proof
  assume "(k + i) mod n = (k + j) mod n"
  then have "n dvd (k + j) - (k + i)"
    using assms by (metis mod_eq_dvd_iff_nat add_le_cancel_left less_imp_le)
  then have "n dvd j - i" by simp
  with assms show False by (auto dest!: dvd_imp_le)
qed

text \<open>One round of the write loop appends the bytes it copies.\<close>

lemma rb_write_chunk:
  assumes inv: "rb_inv b" and ws: "ws = (rb_Beg b + rb_Readable b) mod rb_N b"
    and fit: "ws + length q \<le> rb_N b" and cap: "rb_Readable b + length q \<le> rb_N b"
  defines "b' \<equiv> (rb_set_active b (go_copy_at (rb_active b) ws q))\<lparr>rb_Readable := rb_Readable b + length q\<rparr>"
  shows "rb_inv b'" "rb_N b' = rb_N b" "rb_list b' = rb_list b @ q"
proof -
  note i = inv [unfolded rb_inv_def] and len = length_rb_active [OF inv]
  let ?A = "go_copy_at (rb_active b) ws q"
  have lA: "length ?A = rb_N b" using fit len by simp
  have "rb_inv (rb_set_active b ?A)" using inv lA by (rule rb_inv_set_active)
  then show "rb_inv b'" using cap by (simp add: b'_def rb_inv_def)
  show "rb_N b' = rb_N b" by (simp add: b'_def)
  have A: "?A ! j = (if ws \<le> j \<and> j < ws + length q then q ! (j - ws) else rb_active b ! j)" if "j < rb_N b" for j
    using that fit len by (auto simp: go_copy_at_def go_copy_def nth_append)
  show "rb_list b' = rb_list b @ q"
  proof (rule nth_equalityI)
    show "length (rb_list b') = length (rb_list b @ q)" by (simp add: b'_def)
    fix k assume "k < length (rb_list b')"
    then have k: "k < rb_Readable b + length q" by (simp add: b'_def)
    let ?j = "(rb_Beg b + k) mod rb_N b"
    have j: "?j < rb_N b" using i by simp
    have nth: "rb_list b' ! k = ?A ! ?j" using k by (simp add: b'_def nth_rb_list)
    show "rb_list b' ! k = (rb_list b @ q) ! k"
    proof (cases "k < rb_Readable b")
      case True
      have "?j \<noteq> ws + m" if "m < length q" for m
      proof -
        have "ws + m = (rb_Beg b + (rb_Readable b + m)) mod rb_N b"
          using that fit ws by (metis add.assoc add_less_cancel_left less_le_trans mod_add_left_eq mod_less)
        then show ?thesis
          using mod_neq [of k "rb_Readable b + m" "rb_N b" "rb_Beg b"] True that cap by simp
      qed
      then have "\<not> (ws \<le> ?j \<and> ?j < ws + length q)"
        by (metis add_diff_inverse_nat add_less_cancel_left not_less)
      then show ?thesis using True j by (auto simp: nth A nth_append nth_rb_list)
    next
      case False
      then obtain m where m: "k = rb_Readable b + m" "m < length q"
        using k by (metis add_diff_inverse_nat add_less_cancel_left)
      have "?j = (ws + m) mod rb_N b" by (simp only: m(1) add.assoc [symmetric] ws mod_add_left_eq)
      then have "?j = ws + m" using m(2) fit by simp
      then show ?thesis using nth j m by (simp add: A nth_append)
    qed
  qed
qed

lemma rb_write_loop_spec:
  assumes "rb_inv b" "err \<noteq> None \<Longrightarrow> rb_N b - rb_Readable b < length p"
  shows "\<exists>b'. rb_write_loop b p n err = Inr (b', n + min (length p) (rb_N b - rb_Readable b),
      if rb_N b - rb_Readable b < length p then Some ErrShortWrite else None) \<and>
    rb_inv b' \<and> rb_N b' = rb_N b \<and> rb_list b' = rb_list b @ take (rb_N b - rb_Readable b) p"
  using assms
proof (induction b p n err rule: rb_write_loop.induct)
  case (1 b p n err)
  note inv = "1.prems"(1) [unfolded rb_inv_def]
  consider "p = []" | "p \<noteq> []" "rb_N b \<le> rb_Readable b" | (go) "p \<noteq> []" "rb_Readable b < rb_N b"
    by fastforce
  then show ?case
  proof cases
    case go
    define wc where "wc = rb_N b - rb_Readable b"
    define ws where "ws = (rb_Beg b + rb_Readable b) mod rb_N b"
    define ul where "ul = min (ws + wc) (rb_N b)"
    define k where "k = min (ul - ws) (length p)"
    define err1 where "err1 = (if wc < length p then Some ErrShortWrite else err)"
    let ?b = "(rb_set_active b (go_copy_at (rb_active b) ws (take k p)))\<lparr>rb_Readable := rb_Readable b + k\<rparr>"
    have ws: "ws < rb_N b" using inv by (simp add: ws_def)
    have k: "k \<le> length p" "ws + k \<le> rb_N b" "k \<le> wc" "rb_Readable b + k \<le> rb_N b"
      using ws go(2) by (auto simp: k_def ul_def wc_def)
    have len: "\<not> length (rb_active b) < ul"
      using length_rb_active [OF "1.prems"(1)] by (simp add: ul_def)
    have conds: "(length p = 0) = False" "(rb_N b \<le> rb_Readable b) = False"
      "(length (rb_active b) < ul) = False"
      using go len by auto
    have step: "rb_write_loop b p n err = rb_write_loop ?b (drop k p) (n + k) err1"
      by (simp only: rb_write_loop.simps [of b p n err] Let_def wc_def [symmetric] ws_def [symmetric]
          ul_def [symmetric] k_def [symmetric] err1_def [symmetric] conds if_False)
    have b: "rb_inv ?b" "rb_N ?b = rb_N b" "rb_list ?b = rb_list b @ take k p"
      using rb_write_chunk [OF "1.prems"(1) ws_def, of "take k p"] k by (simp_all add: min_absorb2)
    have e: "err1 \<noteq> None \<Longrightarrow> rb_N ?b - rb_Readable ?b < length (drop k p)"
      using "1.prems"(2) k by (auto simp: err1_def wc_def split: if_splits)
    note IH = "1.IH" [OF _ _ wc_def err1_def ws_def ul_def k_def len b(1) e]
    have "rb_N ?b - rb_Readable ?b = wc - k" using b(2) by (simp add: wc_def)
    moreover have "take k p @ take (wc - k) (drop k p) = take wc p"
      using k(3) by (metis le_add_diff_inverse take_add)
    moreover have "n + k + min (length p - k) (wc - k) = n + min (length p) wc"
      using k by simp
    moreover have "(wc - k < length p - k) = (wc < length p)" using k by auto
    ultimately show ?thesis
      using IH go b step by (auto simp: wc_def [symmetric])
  next
    assume "p = []"
    moreover have "err = None" using \<open>p = []\<close> "1.prems"(2) by (cases err) auto
    ultimately show ?thesis using "1.prems"(1) by (simp add: rb_write_loop.simps [of b "[]"])
  next
    assume "p \<noteq> []" "rb_N b \<le> rb_Readable b"
    then show ?thesis using "1.prems"(1) by (simp add: rb_write_loop.simps [of b p])
  qed
qed

lemma rb_Advance_spec:
  assumes "rb_inv b"
  shows "rb_inv (rb_Advance b n)" "rb_N (rb_Advance b n) = rb_N b"
    "rb_list (rb_Advance b n) = drop n (rb_list b)"
proof -
  show "rb_inv (rb_Advance b n)" using assms by (auto simp: rb_inv_def rb_Advance_def Let_def)
  show "rb_N (rb_Advance b n) = rb_N b" by (simp add: rb_Advance_def Let_def)
  show "rb_list (rb_Advance b n) = drop n (rb_list b)"
  proof (rule nth_equalityI)
    show "length (rb_list (rb_Advance b n)) = length (drop n (rb_list b))"
      by (auto simp: rb_Advance_def Let_def)
    fix i assume "i < length (rb_list (rb_Advance b n))"
    then have "n + i < rb_Readable b" by (auto simp: rb_Advance_def Let_def split: if_splits)
    then show "rb_list (rb_Advance b n) ! i = drop n (rb_list b) ! i"
      by (auto simp: rb_Advance_def Let_def nth_rb_list mod_add_left_eq add.assoc)
  qed
qed

lemma go_copy_two: "length xs < length p \<Longrightarrow> go_copy_at (go_copy p xs) (length xs) ys = go_copy p (xs @ ys)"
  by (simp add: go_copy_def go_copy_at_def add.commute)

lemma rb_ReadAndMaybeAdvance_spec:
  assumes "rb_inv b"
  shows "rb_ReadAndMaybeAdvance b p adv = Inr (if adv then rb_Advance b (min (length p) (rb_Readable b)) else b,
     go_copy p (rb_list b), min (length p) (rb_Readable b), if p \<noteq> [] \<and> rb_list b = [] then Some EOF else None)"
proof -
  note inv = assms [unfolded rb_inv_def] and len = length_rb_active [OF assms]
  have empty: "rb_list b = [] \<longleftrightarrow> rb_Readable b = 0" by (metis length_0_conv length_rb_list)
  show ?thesis
  proof (cases "p = [] \<or> rb_Readable b = 0")
    case True
    then show ?thesis
      by (auto simp: rb_ReadAndMaybeAdvance_def go_copy_def rb_Advance_def empty)
  next
    case False
    show ?thesis
    proof (cases "rb_Beg b + rb_Readable b \<le> rb_N b")
      case True
      then show ?thesis
        using False len by (simp add: rb_ReadAndMaybeAdvance_def rb_list_slices [OF assms])
    next
      case wrap: False
      let ?s1 = "drop (rb_Beg b) (rb_active b)"
      let ?m = "(rb_Beg b + rb_Readable b) mod rb_N b"
      have m: "?m = rb_Beg b + rb_Readable b - rb_N b"
        using wrap inv by (intro rb_wrap [OF assms]) auto
      have l: "length ?s1 + ?m = rb_Readable b" "?m \<le> rb_N b"
        using m inv wrap len by auto
      let ?s2 = "take ?m (rb_active b)"
      have slices: "go_slice (rb_active b) (rb_Beg b) (rb_N b) = Inr ?s1" "go_slice (rb_active b) 0 ?m = Inr ?s2"
        "length ?s2 = ?m" "rb_list b = ?s1 @ ?s2"
        using len inv l wrap by (simp_all add: rb_list_slices [OF assms])
      have conds: "(length p = 0) = False" "(rb_Readable b = 0) = False" "(rb_Beg b + rb_Readable b \<le> rb_N b) = False"
        "(p \<noteq> [] \<and> ?s1 @ ?s2 = []) = False"
        using False wrap empty slices(4) by auto
      show ?thesis
      proof (cases "length ?s1 < length p")
        case True
        have "length ?s1 + min (length p - length ?s1) ?m = min (length p) (rb_Readable b)"
          "min (length p) (length ?s1) = length ?s1"
          using l True by linarith+
        then show ?thesis
          by (simp only: rb_ReadAndMaybeAdvance_def conds if_False Let_def slices bindR.simps True if_True
              go_copy_two [OF True] prod.case)
      next
        case short: False
        have "min (length p) (length ?s1) = length p" "min (length p) (rb_Readable b) = length p"
          using l short by linarith+
        moreover have "go_copy p ?s1 = go_copy p (?s1 @ ?s2)" using short by (simp add: go_copy_def)
        ultimately show ?thesis
          by (simp only: rb_ReadAndMaybeAdvance_def conds if_False Let_def slices bindR.simps prod.case) simp
      qed
    qed
  qed
qed

interpretation rb: byte_queue rb_inv rb_list rb_N rb_Write rb_Read
proof
  fix q p
  show "rb_inv q \<Longrightarrow> length (rb_list q) \<le> rb_N q" by (simp add: rb_inv_def)
  show "\<exists>q'. rb_Write q p = Inr (q', min (length p) (rb_N q - length (rb_list q)),
      if rb_N q - length (rb_list q) < length p then Some ErrShortWrite else None) \<and>
      rb_inv q' \<and> rb_N q' = rb_N q \<and> rb_list q' = rb_list q @ take (rb_N q - length (rb_list q)) p"
    if "rb_inv q"
    using rb_write_loop_spec [OF that, of None p 0] by (simp add: rb_Write_def)
  show "\<exists>q'. rb_Read q p = Inr (q', go_copy p (rb_list q), min (length p) (length (rb_list q)),
      if p \<noteq> [] \<and> rb_list q = [] then Some EOF else None) \<and>
      rb_inv q' \<and> rb_N q' = rb_N q \<and> rb_list q' = drop (length p) (rb_list q)"
    if "rb_inv q"
    using rb_Advance_spec [OF that] by (simp add: rb_Read_def rb_ReadAndMaybeAdvance_spec [OF that] min_def)
qed

lemma rb_Bytes_spec:
  assumes "rb_inv b"
  obtains b' where "rb_Bytes b = Inr (b', rb_list b)" "rb_inv b'" "rb_N b' = rb_N b" "rb_list b' = rb_list b"
proof (cases "rb_Beg b + rb_Readable b \<le> rb_N b")
  case True
  then have "rb_Bytes b = Inr (b, rb_list b)"
    using length_rb_active [OF assms] by (simp add: rb_Bytes_def rb_list_slices [OF assms])
  then show ?thesis using that assms by blast
next
  case wrap: False
  note inv = assms [unfolded rb_inv_def] and len = length_rb_active [OF assms]
  let ?s1 = "drop (rb_Beg b) (rb_active b)" and ?m = "(rb_Beg b + rb_Readable b) mod rb_N b"
  let ?o = "b\<lparr>rb_Use := 1 - rb_Use b\<rparr>"
  let ?s2 = "take ?m (rb_active b)"
  let ?new = "go_copy_at (go_copy (rb_active ?o) ?s1) (length ?s1) ?s2"
  let ?b = "(rb_set_active ?o ?new)\<lparr>rb_Beg := 0\<rparr>"
  have list: "rb_list b = ?s1 @ ?s2" using wrap by (simp add: rb_list_slices [OF assms])
  have m: "?m = rb_Beg b + rb_Readable b - rb_N b"
    using wrap inv by (intro rb_wrap [OF assms]) auto
  have l: "length ?s1 + length ?s2 = rb_Readable b" "?m \<le> rb_N b" "?m \<le> rb_Beg b"
    using m inv wrap len by auto
  have o: "rb_inv ?o" "length (rb_active ?o) = rb_N b"
    using inv by (auto simp: rb_inv_def rb_active_def)
  have s1: "length ?s1 \<le> rb_N b" using len by simp
  have "?new = rb_list b @ drop (rb_Readable b) (rb_active ?o)"
    unfolding list using o(2) l inv wrap len go_copy_two [of ?s1 "rb_active ?o" ?s2]
    by (simp add: go_copy_def min_absorb2)
  then have new: "length ?new = rb_N b" "take (rb_Readable b) ?new = rb_list b"
    using o(2) inv by simp_all
  have i: "rb_inv ?b" using rb_inv_set_active [OF o(1)] new(1) o(1) by (auto simp: rb_inv_def)
  have "rb_list ?b = rb_list b"
    using new inv by (subst rb_list_slices [OF i]) simp
  moreover have "rb_Bytes b = Inr (?b, rb_list b)"
    using wrap len inv s1 o(2) l new
    by (simp add: rb_Bytes_def Let_def min_absorb2)
  ultimately show ?thesis using that i by simp
qed

lemma rb_New_spec: "0 < n \<Longrightarrow> rb_inv (NewFixedSizeRingBuf n) \<and> rb_N (NewFixedSizeRingBuf n) = n \<and>
    rb_list (NewFixedSizeRingBuf n) = []"
  by (simp add: NewFixedSizeRingBuf_def rb_inv_def rb_list_def)

lemma rb_Reset_spec:
  assumes "rb_inv b"
  shows "rb_inv (rb_Reset b) \<and> rb_N (rb_Reset b) = rb_N b \<and> rb_list (rb_Reset b) = []"
  using assms by (simp add: rb_Reset_def rb_inv_def rb_list_def)

lemma take_go_copy_zeros:
  "take (min k (length xs)) (go_copy (replicate k z) xs) = take k xs"
  by (simp add: go_copy_def min_def)

lemma rb_Readable_list: "rb_list b = xs \<Longrightarrow> rb_Avail b = length xs"
  by (auto simp: rb_Avail_def)

lemma rb_step_refines:
  assumes "rb_inv b"
  shows "\<exists>b'. rb_step b opn = Inr (b', snd (queue_step (rb_N b) (rb_list b) opn)) \<and>
    rb_inv b' \<and> rb_N b' = rb_N b \<and> rb_list b' = fst (queue_step (rb_N b) (rb_list b) opn)"
proof (cases opn)
  case (OpWrite p)
  then show ?thesis using rb.enq_law [OF assms, of p] by (auto simp: Let_def)
next
  case (OpRead k)
  then show ?thesis
    using rb.deq_law [OF assms, of "replicate k 0"] take_go_copy_zeros [of k "rb_list b" 0] by auto
next
  case (OpPeek k)
  then show ?thesis
    using assms take_go_copy_zeros [of k "rb_list b" 0]
    by (auto simp: rb_ReadWithoutAdvance_def rb_ReadAndMaybeAdvance_spec [OF assms])
next
  case (OpAdvance k)
  then show ?thesis
    using rb_Advance_spec [OF assms, of k] by (simp add: rb_Readable_list)
next
  case OpBytes
  obtain b' where b': "rb_Bytes b = Inr (b', rb_list b)" "rb_inv b'" "rb_N b' = rb_N b" "rb_list b' = rb_list b"
    using rb_Bytes_spec [OF assms] by blast
  have "rb_Avail b' = length (rb_list b)" using b'(4) by (rule rb_Readable_list)
  with OpBytes b' show ?thesis by simp
next
  case OpReset
  then show ?thesis using rb_Reset_spec [OF assms] by simp
qed

lemma rb_run_refines:
  assumes "rb_inv b"
  shows "\<exists>b'. rb_run b opns = Inr (b', snd (queue_run (rb_N b) (rb_list b) opns)) \<and>
    rb_inv b' \<and> rb_N b' = rb_N b \<and> rb_list b' = fst (queue_run (rb_N b) (rb_list b) opns)"
  using assms
proof (induction opns arbitrary: b)
  case (Cons opn opns)
  obtain b1 where b1: "rb_step b opn = Inr (b1, snd (queue_step (rb_N b) (rb_list b) opn))"
    "rb_inv b1" "rb_N b1 = rb_N b" "rb_list b1 = fst (queue_step (rb_N b) (rb_list b) opn)"
    using rb_step_refines [OF Cons.prems, of opn] by blast
  show ?case
    using Cons.IH [OF b1(2)] b1 by (auto simp: Let_def split: prod.splits)
qed simp

text \<open>
  C4: refinement of the ring buffer to a bounded list. Whatever sequence of writes, reads,
  peeks, advances, linearisations and resets a client makes on a new buffer of size
  \<open>n > 0\<close>, no call panics, every call returns the bytes, count and error that the
  list version returns, and the invariant holds at the end.
\<close>

theorem ring_buffer_refines_queue:
  assumes "0 < n"
  shows "\<exists>b. rb_run (NewFixedSizeRingBuf n) opns = Inr (b, snd (queue_run n [] opns)) \<and>
    rb_inv b \<and> rb_list b = fst (queue_run n [] opns)"
  using rb_run_refines [of "NewFixedSizeRingBuf n" opns] rb_New_spec [OF assms] by auto

theorem ring_buffer_refines_queue_witness:
  "\<exists>b. rb_run (NewFixedSizeRingBuf 4) [OpWrite [1, 2, 3], OpRead 2, OpWrite [4, 5, 6, 7], OpBytes] =
     Inr (b, [([], 3, None), ([1, 2], 2, None), ([], 3, Some ErrShortWrite), ([3, 4, 5, 6], 4, None)]) \<and>
    rb_inv b \<and> rb_list b = [3, 4, 5, 6]"
proof -
  have q: "queue_run 4 [] [OpWrite [1, 2, 3], OpRead 2, OpWrite [4, 5, 6, 7], OpBytes] =
     ([3, 4, 5, 6], [([], 3, None), ([1, 2], 2, None), ([], 3, Some ErrShortWrite), ([3, 4, 5, 6], 4, None)])"
    by (simp add: Let_def)
  show ?thesis
    using ring_buffer_refines_queue [of 4 "[OpWrite [1, 2, 3], OpRead 2, OpWrite [4, 5, 6, 7], OpBytes]"]
    unfolding q by (simp del: rb_run.simps)
qed

end
