(* ===== verification/IPv4_Header.thy ===== *)
theory IPv4_Header
  imports Link_Headers
begin

text \<open>
  The IPv4 header codec of \<^verbatim>\<open>listener/canary/ipv4\<close>. The byte order of two
  fields depends on the operating system the program runs on, so the platform
  (\<^verbatim>\<open>runtime.GOOS\<close>, the FreeBSD version and the native byte order found
  by \<^verbatim>\<open>init\<close>) is an argument. The lemmas describe every branch of
  \<^verbatim>\<open>Unmarshal\<close>, including the length it does not check, and the round trip.
\<close>

record platform =
  GOOS :: string
  freebsdVersion :: nat
  nativeLittle :: bool

definition linux :: platform where
  "linux = \<lparr>GOOS = ''linux'', freebsdVersion = 0, nativeLittle = True\<rparr>"

definition ipv4_HeaderLen :: nat where
  "ipv4_HeaderLen = 20"

record ipv4_Header =
  ip_Version :: int
  ip_Len :: int
  ip_TOS :: int
  ip_TotalLen :: int
  ip_ID :: int
  ip_Flags :: int
  ip_FragOff :: int
  ip_TTL :: int
  ip_Protocol :: int
  ip_Checksum :: int
  ip_Src :: ip
  ip_Dst :: ip
  ip_Options :: bytes
  ip_Payload :: bytes

definition empty_ipv4_Header :: ipv4_Header where
  "empty_ipv4_Header =
     \<lparr>ip_Version = 0, ip_Len = 0, ip_TOS = 0, ip_TotalLen = 0, ip_ID = 0, ip_Flags = 0,
      ip_FragOff = 0, ip_TTL = 0, ip_Protocol = 0, ip_Checksum = 0, ip_Src = [], ip_Dst = [],
      ip_Options = [], ip_Payload = []\<rparr>"

text \<open>\<^verbatim>\<open>nativeEndian\<close>, chosen once by \<^verbatim>\<open>init\<close>.\<close>

definition native16 :: "platform \<Rightarrow> byte \<Rightarrow> byte \<Rightarrow> u16" where
  "native16 pf a b = (if nativeLittle pf then le16 a b else be16 a b)"

definition put_native16 :: "platform \<Rightarrow> u16 \<Rightarrow> bytes" where
  "put_native16 pf v = (if nativeLittle pf then put_le16 v else put_be16 v)"

text \<open>The two \<^verbatim>\<open>switch runtime.GOOS\<close> statements.\<close>

definition uses_native :: "platform \<Rightarrow> bool" where
  "uses_native pf \<longleftrightarrow>
     GOOS pf \<in> {''darwin'', ''dragonfly'', ''netbsd''} \<or>
     GOOS pf = ''freebsd'' \<and> freebsdVersion pf < 1100000"

definition adds_hdrlen :: "platform \<Rightarrow> bool" where
  "adds_hdrlen pf \<longleftrightarrow>
     GOOS pf \<in> {''darwin'', ''dragonfly'', ''netbsd''} \<or>
     GOOS pf = ''freebsd'' \<and> freebsdVersion pf < 1000000"

definition ipv4_put_len :: "platform \<Rightarrow> int \<Rightarrow> bytes" where
  "ipv4_put_len pf v =
     (if uses_native pf then put_native16 pf (word_of_int v) else put_be16 (word_of_int v))"

definition ipv4_get_len :: "platform \<Rightarrow> byte \<Rightarrow> byte \<Rightarrow> nat" where
  "ipv4_get_len pf a b =
     (if uses_native pf then unat (native16 pf a b) else unat (be16 a b))"

definition ipv4_Marshal :: "platform \<Rightarrow> ipv4_Header option \<Rightarrow> bytes result" where
  "ipv4_Marshal pf ho = (case ho of
     None \<Rightarrow> Inl (Error ''invalid argument'')
   | Some h \<Rightarrow>
      if ip_Len h < int ipv4_HeaderLen then Inl (Error ''header too short'')
      else
       let hdrlen = ipv4_HeaderLen + length (ip_Options h);
           flagsAndFragOff = (ip_FragOff h AND 0x1fff) OR push_bit 13 (ip_Flags h)
       in (case To4 (ip_Dst h) of
             None \<Rightarrow> Inl (Error ''missing address'')
           | Some dst \<Rightarrow>
               Inr ([word_of_int (0x40 OR (int hdrlen div 4 AND 0x0f)), word_of_int (ip_TOS h)] @
                    ipv4_put_len pf (ip_TotalLen h) @
                    put_be16 (word_of_int (ip_ID h)) @
                    ipv4_put_len pf flagsAndFragOff @
                    [word_of_int (ip_TTL h), word_of_int (ip_Protocol h)] @
                    put_be16 (word_of_int (ip_Checksum h)) @
                    (case To4 (ip_Src h) of None \<Rightarrow> replicate 4 0 | Some src \<Rightarrow> src) @
                    dst @ ip_Options h)))"

definition ipv4_Unmarshal :: "platform \<Rightarrow> ipv4_Header \<Rightarrow> bytes \<Rightarrow> ipv4_Header result" where
  "ipv4_Unmarshal pf h b =
     (if length b < ipv4_HeaderLen then Inl (Error ''header too short'')
      else let hdrlen = unat (b ! 0 AND 0x0f) * 4 in
      if length b < hdrlen then Inl (Error ''buffer too short'')
      else
       let totalLen = ipv4_get_len pf (b ! 2) (b ! 3) + (if adds_hdrlen pf then hdrlen else 0);
           fragOff = ipv4_get_len pf (b ! 6) (b ! 7);
           h' = h\<lparr>ip_Version := uint (drop_bit 4 (b ! 0)), ip_Len := int hdrlen,
                  ip_TOS := uint (b ! 1), ip_ID := uint (be16 (b ! 4) (b ! 5)),
                  ip_TTL := uint (b ! 8), ip_Protocol := uint (b ! 9),
                  ip_Checksum := uint (be16 (b ! 10) (b ! 11)),
                  ip_Src := net_IPv4 (b ! 12) (b ! 13) (b ! 14) (b ! 15),
                  ip_Dst := net_IPv4 (b ! 16) (b ! 17) (b ! 18) (b ! 19),
                  ip_TotalLen := int totalLen,
                  ip_Flags := int (drop_bit 13 (fragOff AND 0xe000)),
                  ip_FragOff := int (fragOff AND 0x1fff),
                  ip_Options := (if ipv4_HeaderLen < hdrlen
                     then go_copy (replicate (hdrlen - ipv4_HeaderLen) 0) (drop ipv4_HeaderLen b)
                     else ip_Options h)\<rparr>
       in if length b < totalLen
          then Inl (Error (''buffer too short, expected '' @ itoa (20 + totalLen) @
                 '' got '' @ itoa (length b)))
          else bindR (go_slice b 20 totalLen) (\<lambda>p. Inr (h'\<lparr>ip_Payload := p\<rparr>)))"

definition ipv4_Parse :: "platform \<Rightarrow> bytes \<Rightarrow> ipv4_Header result" where
  "ipv4_Parse pf b = ipv4_Unmarshal pf empty_ipv4_Header b"

text \<open>
  The headers \<^verbatim>\<open>Marshal\<close> can represent: every field in the range of its wire
  width, options in whole 32-bit words, and addresses in the 16-byte form that
  \<^verbatim>\<open>net.IPv4\<close> builds.
\<close>

definition ipv4_wf :: "ipv4_Header \<Rightarrow> bool" where
  "ipv4_wf h \<longleftrightarrow>
     ip_Version h = 4 \<and> ip_Len h = 20 + int (length (ip_Options h)) \<and>
     length (ip_Options h) mod 4 = 0 \<and> length (ip_Options h) \<le> 40 \<and>
     0 \<le> ip_TOS h \<and> ip_TOS h < 256 \<and> 0 \<le> ip_ID h \<and> ip_ID h < 65536 \<and>
     0 \<le> ip_Flags h \<and> ip_Flags h < 8 \<and> 0 \<le> ip_FragOff h \<and> ip_FragOff h < 8192 \<and>
     0 \<le> ip_TTL h \<and> ip_TTL h < 256 \<and> 0 \<le> ip_Protocol h \<and> ip_Protocol h < 256 \<and>
     0 \<le> ip_Checksum h \<and> ip_Checksum h < 65536 \<and>
     ip_TotalLen h = ip_Len h + int (length (ip_Payload h)) \<and> ip_TotalLen h < 65536 \<and>
     length (ip_Src h) = 16 \<and> take 12 (ip_Src h) = v4InV6Prefix \<and>
     length (ip_Dst h) = 16 \<and> take 12 (ip_Dst h) = v4InV6Prefix"

text \<open>The 20 fixed bytes that \<^verbatim>\<open>Marshal\<close> writes on Linux.\<close>

definition ipv4_head :: "ipv4_Header \<Rightarrow> bytes" where
  "ipv4_head h =
     [word_of_int (0x40 OR (int (20 + length (ip_Options h)) div 4 AND 0x0f)), word_of_int (ip_TOS h)] @
      put_be16 (word_of_int (ip_TotalLen h)) @ put_be16 (word_of_int (ip_ID h)) @
      put_be16 (word_of_int ((ip_FragOff h AND 0x1fff) OR push_bit 13 (ip_Flags h))) @
      [word_of_int (ip_TTL h), word_of_int (ip_Protocol h)] @
      put_be16 (word_of_int (ip_Checksum h)) @ drop 12 (ip_Src h) @ drop 12 (ip_Dst h)"

definition sample_ipv4 :: ipv4_Header where
  "sample_ipv4 = \<lparr>ip_Version = 4, ip_Len = 24, ip_TOS = 0, ip_TotalLen = 26, ip_ID = 4660,
     ip_Flags = 2, ip_FragOff = 5, ip_TTL = 128, ip_Protocol = 6, ip_Checksum = 0,
     ip_Src = net_IPv4 10 0 0 1, ip_Dst = net_IPv4 10 0 0 2,
     ip_Options = [1, 1, 1, 0], ip_Payload = [0xAA, 0xBB]\<rparr>"

section \<open>Properties\<close>

lemma nat_and_1fff: "(x :: nat) AND 0x1fff = take_bit 13 x"
proof -
  have m: "(0x1fff :: nat) = mask 13" by (simp add: mask_eq_exp_minus_1)
  show ?thesis by (simp only: m take_bit_eq_mask)
qed

lemma int_and_1fff: "(x :: int) AND 0x1fff = take_bit 13 x"
proof -
  have m: "(0x1fff :: int) = mask 13" by (simp add: mask_eq_exp_minus_1)
  show ?thesis by (simp only: m take_bit_eq_mask)
qed

lemma nat_and_e000: "drop_bit 13 ((x :: nat) AND 0xe000) = take_bit 3 (drop_bit 13 x)"
proof -
  have m: "drop_bit 13 (0xe000 :: nat) = mask 3" by (simp add: drop_bit_eq_div mask_eq_exp_minus_1)
  show ?thesis by (simp only: drop_bit_and m take_bit_eq_mask)
qed

lemma unat_of_int16: "0 \<le> v \<Longrightarrow> v < 65536 \<Longrightarrow> unat (word_of_int v :: u16) = nat v"
  by (simp add: unsigned_of_int take_bit_int_eq_self)

lemma fragoff_word:
  assumes "0 \<le> fo" "fo < 8192" "0 \<le> fl" "fl < 8"
  shows "unat (word_of_int ((fo AND 0x1fff) OR push_bit 13 fl) :: u16) = nat fo + 8192 * nat fl"
proof -
  have "(fo AND 0x1fff) OR push_bit 13 fl = take_bit 13 fo + push_bit 13 fl"
    unfolding int_and_1fff
    by (rule disjunctive_add [symmetric]) (auto simp: bit_simps)
  also have "\<dots> = fo + 8192 * fl"
    using assms by (simp add: take_bit_int_eq_self push_bit_eq_mult)
  finally have "unat (word_of_int ((fo AND 0x1fff) OR push_bit 13 fl) :: u16) = nat (fo + 8192 * fl)"
    using assms by (simp only: unat_of_int16)
  then show ?thesis
    using assms by (simp add: nat_add_distrib nat_mult_distrib)
qed

lemma fragoff_split:
  assumes "fo < (8192 :: nat)" "fl < 8"
  shows "(fo + 8192 * fl) AND 0x1fff = fo" "drop_bit 13 ((fo + 8192 * fl) AND 0xe000) = fl"
  using assms unfolding nat_and_1fff nat_and_e000
  by (simp_all add: take_bit_eq_mod drop_bit_eq_div)

lemma fragoff_roundtrip:
  assumes "0 \<le> fo" "fo < 8192" "0 \<le> fl" "fl < 8"
  shows "int (unat (word_of_int ((fo AND 0x1fff) OR push_bit 13 fl) :: u16) AND 0x1fff) = fo"
    "int (drop_bit 13 (unat (word_of_int ((fo AND 0x1fff) OR push_bit 13 fl) :: u16) AND 0xe000)) = fl"
proof -
  have b: "nat fo < 8192" "nat fl < 8" using assms by auto
  show "int (unat (word_of_int ((fo AND 0x1fff) OR push_bit 13 fl) :: u16) AND 0x1fff) = fo"
    "int (drop_bit 13 (unat (word_of_int ((fo AND 0x1fff) OR push_bit 13 fl) :: u16) AND 0xe000)) = fl"
    unfolding fragoff_word [OF assms] fragoff_split [OF b] using assms by simp_all
qed

lemma uint_of_int16: "0 \<le> v \<Longrightarrow> v < 65536 \<Longrightarrow> uint (word_of_int v :: u16) = v"
  by (simp add: unsigned_of_int take_bit_int_eq_self)

lemma uint_of_int8: "0 \<le> v \<Longrightarrow> v < 256 \<Longrightarrow> uint (word_of_int v :: byte) = v"
  by (simp add: unsigned_of_int take_bit_int_eq_self)

lemma ipv4_first_byte:
  assumes "k \<le> 10"
  shows "unat ((word_of_int (0x40 OR (int (20 + 4 * k) div 4 AND 0x0f)) :: byte) AND 0x0f) = 5 + k \<and>
    uint (drop_bit 4 (word_of_int (0x40 OR (int (20 + 4 * k) div 4 AND 0x0f)) :: byte)) = 4"
proof -
  from assms have "k = 0 \<or> k = 1 \<or> k = 2 \<or> k = 3 \<or> k = 4 \<or> k = 5 \<or> k = 6 \<or> k = 7 \<or> k = 8 \<or> k = 9 \<or> k = 10"
    by arith
  then show ?thesis
    by (elim disjE) simp_all
qed

lemma ipv4_order_linux: "\<not> uses_native linux" "\<not> adds_hdrlen linux"
  by (simp_all add: uses_native_def adds_hdrlen_def linux_def)

lemma ipv4_len_linux:
  "ipv4_put_len linux v = put_be16 (word_of_int v)" "ipv4_get_len linux a b = unat (be16 a b)"
  by (simp_all add: ipv4_put_len_def ipv4_get_len_def ipv4_order_linux)

lemma length_4_conv: "length xs = 4 \<longleftrightarrow> (\<exists>a b c d. xs = [a, b, c, d])"
  by (auto simp: length_Suc_conv numeral_eq_Suc)

lemma v4_in_v6:
  assumes "length p = 16 \<and> take 12 p = v4InV6Prefix"
  shows "\<exists>a b c d. p = net_IPv4 a b c d"
proof -
  have "length (drop 12 p) = 4" using assms by simp
  then obtain a b c d where "drop 12 p = [a, b, c, d]"
    unfolding length_4_conv by blast
  with assms have "p = net_IPv4 a b c d"
    by (metis append_take_drop_id net_IPv4_def)
  then show ?thesis by blast
qed


lemma ipv4_Parse_linux:
  assumes "length hb = 20"
  shows "ipv4_Parse linux (hb @ rest) =
    (let hdrlen = unat (hb ! 0 AND 0x0f) * 4; totalLen = unat (be16 (hb ! 2) (hb ! 3));
         fo = unat (be16 (hb ! 6) (hb ! 7)) in
     if 20 + length rest < hdrlen then Inl (Error ''buffer too short'')
     else if 20 + length rest < totalLen
     then Inl (Error (''buffer too short, expected '' @ itoa (20 + totalLen) @
                 '' got '' @ itoa (20 + length rest)))
     else if totalLen < 20 then Inl (Panic SliceOutOfRange)
     else Inr \<lparr>ip_Version = uint (drop_bit 4 (hb ! 0)), ip_Len = int hdrlen, ip_TOS = uint (hb ! 1),
       ip_TotalLen = int totalLen, ip_ID = uint (be16 (hb ! 4) (hb ! 5)),
       ip_Flags = int (drop_bit 13 (fo AND 0xe000)), ip_FragOff = int (fo AND 0x1fff),
       ip_TTL = uint (hb ! 8), ip_Protocol = uint (hb ! 9),
       ip_Checksum = uint (be16 (hb ! 10) (hb ! 11)),
       ip_Src = net_IPv4 (hb ! 12) (hb ! 13) (hb ! 14) (hb ! 15),
       ip_Dst = net_IPv4 (hb ! 16) (hb ! 17) (hb ! 18) (hb ! 19),
       ip_Options = take (hdrlen - 20) rest,
       ip_Payload = take (totalLen - 20) rest\<rparr>)"
  using assms
  by (auto simp: ipv4_Parse_def ipv4_Unmarshal_def ipv4_HeaderLen_def ipv4_len_linux
      ipv4_order_linux Let_def empty_ipv4_Header_def go_slice_def nth_append go_copy_def)
 

lemma ipv4_Marshal_linux:
  assumes "ipv4_wf h"
  shows "ipv4_Marshal linux (Some h) = Inr (ipv4_head h @ ip_Options h)"
  using assms
  by (simp add: ipv4_Marshal_def ipv4_wf_def ipv4_HeaderLen_def ipv4_len_linux ipv4_head_def
      To4_def Let_def)

lemma ipv4_Parse_head:
  assumes wf: "ipv4_wf h"
  shows "ipv4_Parse linux (ipv4_head h @ ip_Options h @ ip_Payload h) =
     Inr (h\<lparr>ip_Payload := ip_Options h @ ip_Payload h\<rparr>)"
proof -
  note w = wf [unfolded ipv4_wf_def]
  obtain s0 s1 s2 s3 where s: "ip_Src h = net_IPv4 s0 s1 s2 s3"
    using w v4_in_v6 [of "ip_Src h"] by blast
  obtain d0 d1 d2 d3 where d: "ip_Dst h = net_IPv4 d0 d1 d2 d3"
    using w v4_in_v6 [of "ip_Dst h"] by blast
  obtain k where k: "length (ip_Options h) = 4 * k" "k \<le> 10"
    using w by auto
  define v where "v = (word_of_int ((ip_FragOff h AND 0x1fff) OR push_bit 13 (ip_Flags h)) :: u16)"
  define t where "t = (word_of_int (ip_TotalLen h) :: u16)"
  define b0 where "b0 = (word_of_int (0x40 OR (int (20 + 4 * k) div 4 AND 0x0f)) :: byte)"
  have fo: "int (unat v AND 0x1fff) = ip_FragOff h" "int (drop_bit 13 (unat v AND 0xe000)) = ip_Flags h"
    unfolding v_def using w by (intro fragoff_roundtrip; simp)+
  have b0: "unat (b0 AND 0x0f) = 5 + k" "uint (drop_bit 4 b0) = 4"
    using ipv4_first_byte [OF k(2)] by (simp_all only: b0_def)
  define hb where "hb = ipv4_head h"
  have hb: "hb = [b0, word_of_int (ip_TOS h), ucast (drop_bit 8 t), ucast t, ucast (drop_bit 8 (word_of_int (ip_ID h) :: u16)),
      ucast (word_of_int (ip_ID h) :: u16), ucast (drop_bit 8 v), ucast v,
      word_of_int (ip_TTL h), word_of_int (ip_Protocol h),
      ucast (drop_bit 8 (word_of_int (ip_Checksum h) :: u16)), ucast (word_of_int (ip_Checksum h) :: u16),
      s0, s1, s2, s3, d0, d1, d2, d3]"
    unfolding hb_def ipv4_head_def put_be16_def s d k(1) v_def b0_def t_def
    by (simp only: append.simps net_IPv4_def drop_append length_v4InV6Prefix) simp
  have len: "length hb = 20" by (simp add: hb)
  have tot: "unat t = 20 + 4 * k + length (ip_Payload h)"
    unfolding t_def using w k(1) by (subst unat_of_int16) auto
  have "ipv4_Parse linux (hb @ ip_Options h @ ip_Payload h) =
     Inr (h\<lparr>ip_Payload := ip_Options h @ ip_Payload h\<rparr>)"
    unfolding ipv4_Parse_linux [OF len]
    unfolding hb
    using w k s d fo
    by (simp add: Let_def b0 tot uint_of_int16 uint_of_int8)
  then show ?thesis by (simp add: hb_def)
qed

text \<open>
  C29: on Linux, \<^verbatim>\<open>Marshal\<close> accepts every representable header, and parsing what it
  wrote, followed by the payload, gives back every field. The payload that comes back
  starts right after the fixed 20 bytes, so it carries the options in front of the data.
\<close>

theorem ipv4_roundtrip:
  assumes "ipv4_wf h"
  shows "\<exists>b. ipv4_Marshal linux (Some h) = Inr b \<and>
     ipv4_Parse linux (b @ ip_Payload h) = Inr (h\<lparr>ip_Payload := ip_Options h @ ip_Payload h\<rparr>)"
  using ipv4_Marshal_linux [OF assms] ipv4_Parse_head [OF assms] by simp

theorem ipv4_roundtrip_witness:
  "\<exists>b. ipv4_Marshal linux (Some sample_ipv4) = Inr b \<and>
   ipv4_Parse linux (b @ [0xAA, 0xBB]) = Inr (sample_ipv4\<lparr>ip_Payload := [1, 1, 1, 0, 0xAA, 0xBB]\<rparr>)"
proof -
  have wf: "ipv4_wf sample_ipv4"
    by (simp add: ipv4_wf_def sample_ipv4_def net_IPv4_def)
  show ?thesis
    using ipv4_roundtrip [OF wf] by (simp add: sample_ipv4_def)
qed

text \<open>
  \<^verbatim>\<open>ipv4.Parse\<close> panics on exactly those packets whose header length fits the
  buffer while the total-length field is smaller than the fixed header: the slice
  \<^verbatim>\<open>b[20:h.TotalLen]\<close> then runs backwards. Every other malformed packet is
  an error value.
\<close>

theorem ipv4_Parse_panics_iff:
  "is_panic (ipv4_Parse linux b) \<longleftrightarrow>
     20 \<le> length b \<and> unat (b ! 0 AND 0x0f) * 4 \<le> length b \<and> unat (be16 (b ! 2) (b ! 3)) < 20"
proof (cases "20 \<le> length b")
  case True
  then have len: "length (take 20 b) = 20" by simp
  have "ipv4_Parse linux b = ipv4_Parse linux (take 20 b @ drop 20 b)" by simp
  then show ?thesis
    unfolding ipv4_Parse_linux [OF len] using True by (auto simp: Let_def)
next
  case False
  then show ?thesis by (simp add: ipv4_Parse_def ipv4_Unmarshal_def ipv4_HeaderLen_def)
qed

end
