(* ===== verification/TCP_Header.thy ===== *)
theory TCP_Header
  imports IPv4_Header
begin

text \<open>
  The TCP header codec of \<^verbatim>\<open>listener/canary/tcp\<close>: header fields, the option
  loop, the two marshalling routines and the Internet checksum. A call of
  \<^verbatim>\<open>Unmarshal\<close> mutates the header even when it returns an error, and the caller
  goes on with it when the checksum is wrong, so its model returns the header together
  with the error; \<open>Inl\<close> is kept for run-time panics.
\<close>

section \<open>Data\<close>

type_synonym Flag = byte

definition FIN :: Flag where "FIN = 1"
definition SYN :: Flag where "SYN = 2"
definition RST :: Flag where "RST = 4"
definition PSH :: Flag where "PSH = 8"
definition ACK :: Flag where "ACK = 16"
definition URG :: Flag where "URG = 32"

lemmas flag_defs = FIN_def SYN_def RST_def PSH_def ACK_def URG_def

record tcp_Option =
  OptionType :: byte
  OptionLength :: byte
  OptionData :: bytes

record tcp_Header =
  tcp_Source :: u16
  tcp_Destination :: u16
  tcp_SeqNum :: u32
  tcp_AckNum :: u32
  tcp_DataOffset :: byte
  tcp_Reserved :: byte
  tcp_ECN :: byte
  tcp_Ctrl :: Flag
  tcp_Window :: u16
  tcp_Checksum :: u16
  tcp_Urgent :: u16
  tcp_Options :: "tcp_Option list"
  tcp_Padding :: bytes
  tcp_Payload :: bytes

definition empty_tcp_Header :: tcp_Header where
  "empty_tcp_Header =
     \<lparr>tcp_Source = 0, tcp_Destination = 0, tcp_SeqNum = 0, tcp_AckNum = 0, tcp_DataOffset = 0, tcp_Reserved = 0, tcp_ECN = 0,
      tcp_Ctrl = 0, tcp_Window = 0, tcp_Checksum = 0, tcp_Urgent = 0, tcp_Options = [], tcp_Padding = [], tcp_Payload = []\<rparr>"

definition HasFlag :: "tcp_Header \<Rightarrow> Flag \<Rightarrow> bool" where
  "HasFlag hdr flagBit \<longleftrightarrow> tcp_Ctrl hdr AND flagBit = flagBit"

section \<open>Unmarshal\<close>

text \<open>
  The option loop. The result is the options read so far, the padding, and the
  error that stopped the loop. Indexing \<^verbatim>\<open>data[1]\<close> on a kind byte with
  nothing behind it panics.
\<close>

function parse_options ::
  "tcp_Option list \<Rightarrow> bytes \<Rightarrow> bytes \<Rightarrow> (tcp_Option list \<times> bytes \<times> string option) result" where
  "parse_options opts pad data =
     (case data of
        [] \<Rightarrow> Inr (opts, pad, None)
      | kind # rest \<Rightarrow>
          if kind = 0
          then Inr (opts @ [\<lparr>OptionType = 0, OptionLength = 1, OptionData = []\<rparr>], rest, None)
          else if kind = 1
          then parse_options (opts @ [\<lparr>OptionType = 1, OptionLength = 1, OptionData = []\<rparr>]) pad rest
          else (case rest of
              [] \<Rightarrow> Inl (Panic IndexOutOfRange)
            | l # _ \<Rightarrow>
                if unat l < 2
                then Inr (opts @ [\<lparr>OptionType = kind, OptionLength = l, OptionData = []\<rparr>], pad,
                          Some (''Invalid TCP option length '' @ itoa (unat l) @ '' < 2''))
                else if length data < unat l
                then Inr (opts @ [\<lparr>OptionType = kind, OptionLength = l, OptionData = []\<rparr>], pad,
                          Some (''Ivalid TCP option length '' @ itoa (unat l) @
                                '' exceeds remaining '' @ itoa (length data) @ '' bytes''))
                else parse_options
                       (opts @ [\<lparr>OptionType = kind, OptionLength = l,
                                 OptionData = take (unat l - 2) (drop 2 data)\<rparr>])
                       pad (drop (unat l) data)))"
  by pat_completeness auto
termination
  by (relation "measure (\<lambda>(opts, pad, data). length data)") auto

declare parse_options.simps [simp del]

definition tcp_fixed_fields :: "tcp_Header \<Rightarrow> bytes \<Rightarrow> tcp_Header result" where
  "tcp_fixed_fields hdr data =
     bindR (u16_at data 0) (\<lambda>src.
     bindR (u16_at data 2) (\<lambda>dst.
     bindR (u32_at data 4) (\<lambda>seq.
     bindR (u32_at data 8) (\<lambda>ack.
     bindR (go_at data 12) (\<lambda>b12.
     bindR (go_at data 13) (\<lambda>b13.
     bindR (u16_at data 14) (\<lambda>win.
     bindR (u16_at data 16) (\<lambda>ck.
     bindR (u16_at data 18) (\<lambda>urg.
       Inr (hdr\<lparr>tcp_Source := src, tcp_Destination := dst, tcp_SeqNum := seq, tcp_AckNum := ack,
                tcp_DataOffset := drop_bit 4 b12, tcp_ECN := drop_bit 6 b13 AND 7,
                tcp_Ctrl := b13 AND 0x3f, tcp_Window := win, tcp_Checksum := ck, tcp_Urgent := urg,
                tcp_Options := []\<rparr>))))))))))"

definition tcp_Unmarshal :: "tcp_Header \<Rightarrow> bytes \<Rightarrow> (tcp_Header \<times> string option) result" where
  "tcp_Unmarshal hdr0 data =
     bindR (tcp_fixed_fields hdr0 data) (\<lambda>hdr.
       let dataStart = unat (tcp_DataOffset hdr) * 4 in
       if unat (tcp_DataOffset hdr) < 5
       then Inr (hdr, Some (''Invalid TCP data offset '' @ itoa (unat (tcp_DataOffset hdr)) @ '' < 5''))
       else if length data < dataStart
       then Inr (hdr\<lparr>tcp_Payload := []\<rparr>, Some ''TCP data offset greater than packet length'')
       else bindR (parse_options [] (tcp_Padding hdr) (take (dataStart - 20) (drop 20 data)))
              (\<lambda>(opts, pad, err).
                 Inr (hdr\<lparr>tcp_Payload := drop dataStart data, tcp_Options := opts, tcp_Padding := pad\<rparr>, err)))"

section \<open>Checksums\<close>

text \<open>
  The loop of \<^verbatim>\<open>csum\<close> over the 16-bit words of a segment: \<^verbatim>\<open>i\<close> is
  the index of the first byte of the word, and the word at 16, the checksum field
  itself, is skipped. \<^verbatim>\<open>uint32\<close> addition wraps.
\<close>

fun csum_words :: "u32 \<Rightarrow> nat \<Rightarrow> bytes \<Rightarrow> u32" where
  "csum_words acc i (a # b # rest) =
     csum_words (if i = 16 then acc else acc + ucast (be16 a b)) (i + 2) rest"
| "csum_words acc i _ = acc"

definition csum_odd :: "bytes \<Rightarrow> u32 \<Rightarrow> u32" where
  "csum_odd data acc =
     (if length data mod 2 = 1 then acc + push_bit 8 (ucast (last data)) else acc)"

text \<open>\<^verbatim>\<open>for csum>>16 > 0\<close>: fold the carries back in. Each round makes the sum smaller.\<close>

lemma unat_and_ffff: "unat (c AND 0xffff :: u32) = unat c mod 65536"
proof -
  have m: "(0xffff :: u32) = mask 16" by (simp add: mask_eq_exp_minus_1)
  show ?thesis by (simp only: m take_bit_eq_mask [symmetric] take_bit_eq_mod unat_mod) simp
qed

lemma unat_drop16: "unat (drop_bit 16 c :: u32) = unat c div 65536"
  by (simp add: drop_bit_eq_div unat_div)

lemma unat_u32_less: "unat (c :: u32) < 4294967296"
proof -
  have "unat c < 2 ^ LENGTH(32)" by (rule unsigned_less)
  then show ?thesis by simp
qed

lemma unat_fold_step:
  "unat ((c AND 0xffff) + drop_bit 16 c :: u32) = unat c mod 65536 + unat c div 65536"
proof -
  have "unat c mod 65536 + unat c div 65536 < 4294967296"
    using unat_u32_less [of c] by (simp add: add_mono_thms_linordered_field(5) less_mult_imp_div_less)
  then show ?thesis by (simp add: unat_word_ariths unat_and_ffff unat_drop16)
qed

lemma csum_fold_less:
  assumes "drop_bit 16 c \<noteq> (0 :: u32)"
  shows "unat ((c AND 0xffff) + drop_bit 16 c) < unat c"
proof -
  have "0 < unat c div 65536"
    using assms unat_drop16 [of c] by (metis neq0_conv unat_eq_zero)
  moreover have "unat c = 65536 * (unat c div 65536) + unat c mod 65536" by simp
  ultimately show ?thesis unfolding unat_fold_step by linarith
qed

function csum_fold :: "u32 \<Rightarrow> u32" where
  "csum_fold c = (if drop_bit 16 c = 0 then c else csum_fold ((c AND 0xffff) + drop_bit 16 c))"
  by pat_completeness auto
termination
  by (relation "measure unat") (auto simp: csum_fold_less)

declare csum_fold.simps [simp del]

definition ip_pair :: "byte \<Rightarrow> byte \<Rightarrow> u32" where
  "ip_pair a b = push_bit 8 (ucast a) + ucast b"

text \<open>A \<^verbatim>\<open>[4]byte\<close>.\<close>

type_synonym quad = "byte \<times> byte \<times> byte \<times> byte"

fun csum_pseudo :: "quad \<Rightarrow> u32" where
  "csum_pseudo (a, b, c, d) = ip_pair a b + ip_pair c d"

definition tcp_csum :: "bytes \<Rightarrow> quad \<Rightarrow> quad \<Rightarrow> u16" where
  "tcp_csum data srcip dstip =
     (let acc = csum_pseudo srcip + csum_pseudo dstip + 6 + of_nat (length data) in
      ucast (NOT (csum_fold (csum_odd data (csum_words acc 0 data)))))"

text \<open>
  \<^verbatim>\<open>net.IP.String\<close> of an IPv4 address and the program's \<^verbatim>\<open>to4byte\<close>,
  which parses it back. For any other address \<^verbatim>\<open>String\<close> yields no number before
  the first dot, and \<^verbatim>\<open>to4byte\<close> ends the process by \<^verbatim>\<open>log.Fatalf\<close>.
\<close>

definition dotted :: "quad \<Rightarrow> string" where
  "dotted q = (case q of (a, b, c, d) \<Rightarrow>
     itoa (unat a) @ ''.'' @ itoa (unat b) @ ''.'' @ itoa (unat c) @ ''.'' @ itoa (unat d))"

definition atoi_byte :: "string \<Rightarrow> byte" where
  "atoi_byte s = word_of_int (parsed_val (Atoi s))"

definition to4byte :: "string \<Rightarrow> quad result" where
  "to4byte addr =
     (let parts = split_on (CHR ''.'') addr in
      bindR (go_at parts 0) (\<lambda>p0.
      if \<not> parsed_ok (Atoi p0) then Inl (Panic (ExplicitPanic ''log.Fatalf''))
      else
      bindR (go_at parts 1) (\<lambda>p1.
      bindR (go_at parts 2) (\<lambda>p2.
      bindR (go_at parts 3) (\<lambda>p3.
        Inr (atoi_byte p0, atoi_byte p1, atoi_byte p2, atoi_byte p3))))))"

definition ip_to4byte :: "ip \<Rightarrow> quad result" where
  "ip_to4byte p = (case To4 p of
     Some [a, b, c, d] \<Rightarrow> to4byte (dotted (a, b, c, d))
   | _ \<Rightarrow> Inl (Panic (ExplicitPanic ''log.Fatalf'')))"

text \<open>
  The header comes back also when the checksum is wrong; any other error gives no
  header (a nil pointer). The checksum test comes second and wins over a parse error.
\<close>

datatype tcp_parse = Parsed tcp_Header | BadChecksum tcp_Header | ParseError string

definition UnmarshalWithChecksum :: "bytes \<Rightarrow> ip \<Rightarrow> ip \<Rightarrow> tcp_parse result" where
  "UnmarshalWithChecksum data src dest =
     bindR (tcp_Unmarshal empty_tcp_Header data) (\<lambda>(hdr, err).
     bindR (ip_to4byte src) (\<lambda>s.
     bindR (ip_to4byte dest) (\<lambda>d.
       if tcp_csum data s d \<noteq> tcp_Checksum hdr then Inr (BadChecksum hdr)
       else (case err of None \<Rightarrow> Inr (Parsed hdr) | Some e \<Rightarrow> Inr (ParseError e)))))"

section \<open>Marshal\<close>

definition option_size :: "tcp_Option \<Rightarrow> nat" where
  "option_size opt = (if OptionType opt = 0 \<or> OptionType opt = 1 then 1
                      else 2 + length (OptionData opt))"

definition options_size :: "tcp_Option list \<Rightarrow> nat" where
  "options_size opts = sum_list (map option_size opts)"

text \<open>
  The loop that writes the options into the output buffer from \<^verbatim>\<open>start\<close> on.
  The length byte is \<^verbatim>\<open>uint8(len+2)\<close>, and \<^verbatim>\<open>start\<close> moves by that
  byte.
\<close>

fun put_options :: "tcp_Option list \<Rightarrow> nat \<Rightarrow> bytes \<Rightarrow> (nat \<times> bytes) result" where
  "put_options [] start buf = Inr (start, buf)"
| "put_options (opt # opts) start buf =
     (if length buf \<le> start then Inl (Panic IndexOutOfRange)
      else
       let buf1 = buf[start := OptionType opt] in
       if OptionType opt = 0 \<or> OptionType opt = 1 then put_options opts (start + 1) buf1
       else
        let len = length (OptionData opt); l = (of_nat (len + 2) :: byte) in
        if length buf1 \<le> start + 1 then Inl (Panic IndexOutOfRange)
        else if length buf1 < start + len + 2 then Inl (Panic SliceOutOfRange)
        else put_options opts (start + unat l)
               (go_copy_at (buf1[start + 1 := l]) (start + 2) (OptionData opt)))"

definition tcp_fixed_bytes :: "tcp_Header \<Rightarrow> bytes" where
  "tcp_fixed_bytes hdr =
     put_be16 (tcp_Source hdr) @ put_be16 (tcp_Destination hdr) @
     put_be32 (tcp_SeqNum hdr) @ put_be32 (tcp_AckNum hdr) @
     [push_bit 4 (tcp_DataOffset hdr), push_bit 6 (tcp_ECN hdr) OR tcp_Ctrl hdr] @
     put_be16 (tcp_Window hdr) @ [0, 0] @ put_be16 (tcp_Urgent hdr)"

text \<open>\<^verbatim>\<open>Marshal\<close> sets the padding and data offset of its receiver; the model returns it.\<close>

definition tcp_Marshal :: "tcp_Header \<Rightarrow> (bytes \<times> tcp_Header) result" where
  "tcp_Marshal hdr0 =
     (let optionLength = options_size (tcp_Options hdr0);
          rem = optionLength mod 4;
          hdr1 = (if rem \<noteq> 0 then hdr0\<lparr>tcp_Padding := replicate (4 - rem) 0\<rparr> else hdr0);
          padLength = length (tcp_Padding hdr1);
          hdr = hdr1\<lparr>tcp_DataOffset := of_nat ((padLength + optionLength + 20) div 4)\<rparr>;
          buf = tcp_fixed_bytes hdr @ replicate (optionLength + padLength) 0 @ tcp_Payload hdr
      in bindR (put_options (tcp_Options hdr) 20 buf) (\<lambda>(start, buf').
           if length buf' < start then Inl (Panic SliceOutOfRange)
           else Inr (go_copy_at buf' start (tcp_Padding hdr), hdr)))"

definition MarshalWithChecksum :: "tcp_Header \<Rightarrow> ip \<Rightarrow> ip \<Rightarrow> bytes result" where
  "MarshalWithChecksum hdr src dest =
     bindR (tcp_Marshal hdr) (\<lambda>(data, _).
     bindR (ip_to4byte src) (\<lambda>s.
     bindR (ip_to4byte dest) (\<lambda>d.
       let checksum = tcp_csum data s d in
       Inr (data[16 := ucast (drop_bit 8 checksum), 17 := ucast (checksum AND 0xFF)]))))"

section \<open>Specification of the checksum\<close>

text \<open>
  The sum that RFC 793 asks for, over the natural numbers: pseudo header, then every
  16-bit word of the segment but the checksum field, an odd last byte padded with zero.
\<close>

fun word_sum :: "nat \<Rightarrow> bytes \<Rightarrow> nat" where
  "word_sum i (a # b # rest) = (if i = 16 then 0 else unat (be16 a b)) + word_sum (i + 2) rest"
| "word_sum i [a] = 256 * unat a"
| "word_sum i [] = 0"

definition quad_sum :: "quad \<Rightarrow> nat" where
  "quad_sum q = (case q of (a, b, c, d) \<Rightarrow> unat (be16 a b) + unat (be16 c d))"

definition segment_sum :: "bytes \<Rightarrow> quad \<Rightarrow> quad \<Rightarrow> nat" where
  "segment_sum data s d = quad_sum s + quad_sum d + 6 + length data + word_sum 0 data"

section \<open>Well-formed options\<close>

definition wf_option :: "tcp_Option \<Rightarrow> bool" where
  "wf_option opt \<longleftrightarrow>
     (if OptionType opt = 0 \<or> OptionType opt = 1 then OptionLength opt = 1 \<and> OptionData opt = []
      else unat (OptionLength opt) = 2 + length (OptionData opt))"

definition option_bytes :: "tcp_Option \<Rightarrow> bytes" where
  "option_bytes opt =
     (if OptionType opt = 0 \<or> OptionType opt = 1 then [OptionType opt]
      else [OptionType opt, OptionLength opt] @ OptionData opt)"

definition options_bytes :: "tcp_Option list \<Rightarrow> bytes" where
  "options_bytes opts = concat (map option_bytes opts)"

text \<open>
  \<open>options_read os pad data pad'\<close>: \<open>data\<close> is the encoding of the well-formed options
  \<open>os\<close>, either without an end-of-list option and used up, or with one as the last option
  and followed by the padding \<open>pad'\<close>.
\<close>

definition options_read :: "tcp_Option list \<Rightarrow> bytes \<Rightarrow> bytes \<Rightarrow> bytes \<Rightarrow> bool" where
  "options_read os pad data pad' \<longleftrightarrow>
     (\<forall>opt \<in> set os. wf_option opt) \<and>
     ((\<forall>opt \<in> set os. OptionType opt \<noteq> 0) \<and> data = options_bytes os \<and> pad' = pad \<or>
      os \<noteq> [] \<and> OptionType (last os) = 0 \<and> (\<forall>opt \<in> set (butlast os). OptionType opt \<noteq> 0) \<and>
      data = options_bytes os @ pad')"

section \<open>Representable headers\<close>

text \<open>
  The headers the wire format can carry: well-formed options without an end-of-list
  marker, at most 40 bytes of them, two bits of ECN and six flags.
  \<open>tcp_laid_out\<close> is the header as \<^verbatim>\<open>Marshal\<close> leaves its receiver.
\<close>

definition tcp_wf :: "tcp_Header \<Rightarrow> bool" where
  "tcp_wf h \<longleftrightarrow>
     (\<forall>opt \<in> set (tcp_Options h). wf_option opt \<and> OptionType opt \<noteq> 0) \<and>
     options_size (tcp_Options h) \<le> 40 \<and> tcp_Padding h = [] \<and> tcp_Reserved h = 0 \<and>
     tcp_ECN h < 4 \<and> tcp_Ctrl h < 64"

definition tcp_padding :: "tcp_Header \<Rightarrow> bytes" where
  "tcp_padding h =
     (let rem = options_size (tcp_Options h) mod 4 in
      if rem = 0 then [] else replicate (4 - rem) 0)"

definition tcp_laid_out :: "tcp_Header \<Rightarrow> tcp_Header" where
  "tcp_laid_out h = h\<lparr>tcp_Padding := tcp_padding h,
     tcp_DataOffset := of_nat ((length (tcp_padding h) + options_size (tcp_Options h) + 20) div 4)\<rparr>"

text \<open>
  The header that comes back from the wire: padding shows up as an end-of-list
  option and the bytes behind it.
\<close>

definition tcp_read_options :: "tcp_Header \<Rightarrow> tcp_Option list" where
  "tcp_read_options h = tcp_Options h @
     (if tcp_padding h = [] then [] else [\<lparr>OptionType = 0, OptionLength = 1, OptionData = []\<rparr>])"

definition tcp_on_wire :: "tcp_Header \<Rightarrow> u16 \<Rightarrow> tcp_Header" where
  "tcp_on_wire h ck = (tcp_laid_out h)\<lparr>tcp_Checksum := ck, tcp_Options := tcp_read_options h,
     tcp_Padding := tl (tcp_padding h)\<rparr>"

definition sample_syn :: tcp_Header where
  "sample_syn = empty_tcp_Header\<lparr>tcp_Source := 40000, tcp_Destination := 22, tcp_SeqNum := 7,
     tcp_Ctrl := SYN, tcp_Window := 1024,
     tcp_Options := [\<lparr>OptionType = 2, OptionLength = 4, OptionData = [5, 0xb4]\<rparr>,
                     \<lparr>OptionType = 1, OptionLength = 1, OptionData = []\<rparr>],
     tcp_Payload := [0x61, 0x62]\<rparr>"

section \<open>Lemmas on the checksum\<close>

lemma csum_fold_spec:
  "unat (csum_fold c) < 65536 \<and> unat (csum_fold c) mod 65535 = unat c mod 65535 \<and>
   (unat (csum_fold c) = 0 \<longleftrightarrow> unat c = 0)"
proof (induction c rule: csum_fold.induct)
  case (1 c)
  show ?case
  proof (cases "drop_bit 16 c = 0")
    case True
    then have "unat c div 65536 = 0"
      using unat_drop16 [of c] by simp
    then have "unat c < 65536" by simp
    with True show ?thesis by (simp add: csum_fold.simps [of c])
  next
    case False
    let ?c = "(c AND 0xffff) + drop_bit 16 c"
    have eq: "unat c = 65536 * (unat c div 65536) + unat c mod 65536" by simp
    have "unat c mod 65535 = (65535 * (unat c div 65536) + (unat c div 65536 + unat c mod 65536)) mod 65535"
      by (subst eq) simp
    also have "\<dots> = unat ?c mod 65535"
      unfolding unat_fold_step by (simp only: mod_mult_self4 add.commute [of "unat c div 65536"])
    finally have m: "unat c mod 65535 = unat ?c mod 65535" .
    have z: "unat ?c = 0 \<longleftrightarrow> unat c = 0"
      unfolding unat_fold_step using eq by arith
    show ?thesis
      using 1 [OF False] m z False by (simp add: csum_fold.simps [of c])
  qed
qed

lemma ip_pair_of_nat: "ip_pair a b = of_nat (unat (be16 a b))"
proof -
  have "(of_nat (unat x) :: u32) = ucast x" for x :: byte
    by (simp add: unsigned_of_nat)
  then show ?thesis
    unfolding unat_be16 by (simp add: ip_pair_def push_bit_eq_mult mult.commute)
qed

lemma csum_words_of_nat:
  "csum_words acc i data + (if length data mod 2 = 1 then push_bit 8 (ucast (last data)) else 0) =
   acc + of_nat (word_sum i data)"
proof (induction acc i data rule: csum_words.induct)
  case (1 acc i a b rest)
  have "(ucast (be16 a b) :: u32) = of_nat (unat (be16 a b))"
    by (simp add: unsigned_of_nat)
  moreover have "last (a # b # rest) = last rest" if "length rest mod 2 = 1"
    using that by (cases rest) auto
  ultimately show ?case
    using 1 by (cases "length rest mod 2 = 1") (auto simp: algebra_simps)
qed (auto simp: push_bit_eq_mult mult.commute)

lemma unat_u16_less: "unat (w :: u16) < 65536"
proof -
  have "unat w < 2 ^ LENGTH(16)" by (rule unsigned_less)
  then show ?thesis by simp
qed

lemma word_sum_bound: "2 * word_sum i data \<le> 65535 * (length data + 1)"
proof (induction i data rule: word_sum.induct)
  case (1 i a b rest)
  then show ?case using unat_u16_less [of "be16 a b"] by auto
next
  case (2 i a)
  then show ?case using unat_byte_less [of a] by simp
qed simp

lemma segment_sum_bound:
  assumes "length data < 65536"
  shows "segment_sum data s d < 4294967296"
proof -
  have q: "quad_sum p < 131072" for p
    by (cases p) (auto simp: quad_sum_def intro: add_less_le_mono [of _ 65536 _ 65536, simplified]
        unat_u16_less less_imp_le)
  show ?thesis
    using word_sum_bound [of 0 data] q [of s] q [of d] assms unfolding segment_sum_def by simp
qed

lemma unat_not_low16:
  assumes "unat c < 65536"
  shows "unat (ucast (NOT c :: u32) :: u16) = 65535 - unat c"
proof -
  have e: "(ucast (NOT c) :: u16) = NOT (ucast c)"
    by (rule bit_word_eqI) (auto simp: bit_simps)
  have u: "unat (ucast c :: u16) = unat c"
    using assms by (simp add: unsigned_ucast_eq take_bit_nat_eq_self)
  have "unat (NOT w) = 65535 - unat w" for w :: u16
  proof -
    have "unat (- 1 - w) = unat (- 1 :: u16) - unat w"
      by (rule unat_sub) simp
    moreover have "NOT w = - 1 - w" by (simp add: not_eq_complement)
    ultimately show ?thesis by (simp add: unsigned_minus_1_eq_mask mask_eq_exp_minus_1)
  qed
  then show ?thesis by (simp only: e u)
qed

lemma tcp_csum_sum: 
  assumes "length data < 65536"
  obtains c :: u32 where "unat c = segment_sum data s d"
    and "unat (tcp_csum data s d) = 65535 - unat (csum_fold c)"
proof
  let ?c = "of_nat (segment_sum data s d) :: u32"
  show "unat ?c = segment_sum data s d"
    using segment_sum_bound [OF assms] by (simp add: unsigned_of_nat take_bit_nat_eq_self)
  have "csum_odd data (csum_words acc 0 data) = acc + of_nat (word_sum 0 data)" for acc
    using csum_words_of_nat [of acc 0 data] by (auto simp: csum_odd_def split: if_splits)
  moreover have "csum_pseudo q = of_nat (quad_sum q)" for q
    by (cases q) (simp add: quad_sum_def ip_pair_of_nat)
  ultimately have "tcp_csum data s d = ucast (NOT (csum_fold ?c))"
    by (simp add: tcp_csum_def segment_sum_def algebra_simps)
  then show "unat (tcp_csum data s d) = 65535 - unat (csum_fold ?c)"
    using csum_fold_spec by (simp only: unat_not_low16)
qed

text \<open>
  \<^verbatim>\<open>csum\<close> is the Internet checksum. For a segment shorter than 64 KiB
  its 32-bit accumulator does not wrap, and the result is the one's complement of the
  one's-complement sum of pseudo header and segment (checksum field left out): adding
  it back gives 0 modulo 65535, and the result is never 0xffff.
\<close>

theorem tcp_csum_complement:
  assumes "length data < 65536"
  shows "(segment_sum data s d + unat (tcp_csum data s d)) mod 65535 = 0 \<and>
         unat (tcp_csum data s d) < 65535"
proof -
  obtain c :: u32 where c: "unat c = segment_sum data s d"
    and v: "unat (tcp_csum data s d) = 65535 - unat (csum_fold c)"
    using assms by (rule tcp_csum_sum)
  let ?f = "unat (csum_fold c)"
  have f: "?f < 65536" "?f mod 65535 = segment_sum data s d mod 65535" "0 < ?f"
    using csum_fold_spec [of c] c by (auto simp: segment_sum_def)
  have "(segment_sum data s d + (65535 - ?f)) mod 65535 = (?f + (65535 - ?f)) mod 65535"
    by (rule mod_add_cong [OF f(2) [symmetric] refl])
  also have "\<dots> = 0" using f(1) by simp
  finally show ?thesis using v f by simp
qed

theorem tcp_csum_complement_witness:
  "length [0x12 :: byte, 0x34, 0x56] < 65536 \<and>
   (segment_sum [0x12, 0x34, 0x56] (10, 0, 0, 1) (10, 0, 0, 2) +
      unat (tcp_csum [0x12, 0x34, 0x56] (10, 0, 0, 1) (10, 0, 0, 2))) mod 65535 = 0"
  using tcp_csum_complement [of "[0x12, 0x34, 0x56]" "(10, 0, 0, 1)" "(10, 0, 0, 2)"] by simp

lemma csum_words_skip_field:
  "i + length pre = 16 \<Longrightarrow> even (length pre) \<Longrightarrow>
   csum_words acc i (pre @ a # b # rest) = csum_words (csum_words acc i pre) 18 rest"
  by (induction acc i pre rule: csum_words.induct) auto

lemma tcp_csum_ignores_field:
  assumes "20 \<le> length data"
  shows "tcp_csum (data[16 := x, 17 := y]) s d = tcp_csum data s d"
proof -
  define pre where "pre = take 16 data"
  define post where "post = drop 18 data"
  have split: "data = pre @ data ! 16 # data ! 17 # post"
    using assms split_two [of 16 data] by (simp add: pre_def post_def)
  have pre: "length pre = 16" and post: "post \<noteq> []"
    using assms by (simp_all add: pre_def post_def)
  have upd: "data[16 := x, 17 := y] = pre @ x # y # post"
    by (subst split) (simp add: list_update_append pre)
  have cw: "csum_words acc 0 (pre @ a # b # post) = csum_words (csum_words acc 0 pre) 18 post"
    for acc a b
    using pre by (intro csum_words_skip_field) simp_all
  have "tcp_csum (pre @ a # b # post) s d = tcp_csum (pre @ a' # b' # post) s d" for a b a' b'
    unfolding tcp_csum_def csum_odd_def cw using post by (simp add: Let_def)
  then show ?thesis unfolding upd using split by metis
qed

lemma dot_notin_itoa [simp]: "CHR ''.'' \<notin> set (itoa n)"
  by (rule sep_notin_itoa) (simp add: digit_val_def)

lemma split_dotted:
  "split_on (CHR ''.'') (dotted (a, b, c, d)) =
     [itoa (unat a), itoa (unat b), itoa (unat c), itoa (unat d)]"
  by (simp add: dotted_def split_on_sep split_on_no_sep)

lemma Atoi_byte: "Atoi (itoa (unat (b :: byte))) = NumOk (int (unat b))"
  using unat_byte_less [of b] by (intro Atoi_itoa) simp

lemma atoi_byte_itoa: "atoi_byte (itoa (unat b)) = b"
  by (simp add: atoi_byte_def Atoi_byte)

lemma to4byte_dotted: "to4byte (dotted q) = Inr q"
  by (cases q) (simp add: to4byte_def split_dotted Atoi_byte atoi_byte_itoa del: of_nat_unat)

lemma ip_to4byte_IPv4 [simp]: "ip_to4byte (net_IPv4 a b c d) = Inr (a, b, c, d)"
  by (simp add: ip_to4byte_def to4byte_dotted)

text \<open>
  \<^verbatim>\<open>to4byte\<close> inverts \<^verbatim>\<open>net.IP.String\<close> on IPv4 addresses in
  either form, and the process ends in \<^verbatim>\<open>log.Fatalf\<close> for every other address.
\<close>

theorem ip_to4byte_spec:
  "ip_to4byte p = (case To4 p of
     Some q \<Rightarrow> Inr (q ! 0, q ! 1, q ! 2, q ! 3)
   | None \<Rightarrow> Inl (Panic (ExplicitPanic ''log.Fatalf'')))"
proof (cases "To4 p")
  case (Some q)
  then have "length q = 4" by (auto simp: To4_def split: if_splits)
  then obtain a b c d where "q = [a, b, c, d]" unfolding length_4_conv by blast
  then show ?thesis using Some by (simp add: ip_to4byte_def to4byte_dotted)
qed (simp add: ip_to4byte_def)

section \<open>Options\<close>

lemma option_bytes_length: "length (option_bytes opt) = option_size opt"
  by (simp add: option_bytes_def option_size_def)

lemma options_size_simps [simp]:
  "options_size [] = 0" "options_size (opt # opts) = option_size opt + options_size opts"
  by (simp_all add: options_size_def)

lemma options_bytes_length: "length (options_bytes opts) = options_size opts"
  by (induction opts) (simp_all add: options_bytes_def option_bytes_length)

lemma parse_options_step:
  assumes "wf_option opt"
  shows "parse_options opts pad (option_bytes opt @ rest) =
    (if OptionType opt = 0 then Inr (opts @ [opt], rest, None)
     else parse_options (opts @ [opt]) pad rest)"
proof -
  have l: "\<not> unat (OptionLength opt) < 2" if "OptionType opt \<noteq> 0" "OptionType opt \<noteq> 1"
    using assms that by (simp add: wf_option_def)
  show ?thesis
    using assms l
    by (cases opt, subst parse_options.simps) (auto simp: option_bytes_def wf_option_def)
qed

lemma parse_options_bytes:
  assumes "\<And>opt. opt \<in> set os \<Longrightarrow> wf_option opt \<and> OptionType opt \<noteq> 0"
  shows "parse_options opts pad (options_bytes os @ rest) = parse_options (opts @ os) pad rest"
  using assms
proof (induction os arbitrary: opts)
  case (Cons opt os)
  then show ?case
    using parse_options_step [of opt opts pad "options_bytes os @ rest"]
    by (simp add: options_bytes_def)
qed (simp add: options_bytes_def)

text \<open>How a buffer of options can begin.\<close>

lemma option_head_cases:
  obtains (Empty) "data = []"
  | (EndList) rest where "data = 0 # rest"
  | (Opt) opt rest where "wf_option opt" "OptionType opt \<noteq> 0" "data = option_bytes opt @ rest"
  | (Truncated) kind where "data = [kind]" "kind \<noteq> 0" "kind \<noteq> 1"
  | (BadLength) kind l rest where "data = kind # l # rest" "kind \<noteq> 0" "kind \<noteq> 1"
      "unat l < 2 \<or> length data < unat l"
proof (cases data rule: list.exhaust [case_names Nil Cons])
  case (Cons kind rest)
  consider "kind = 0" | "kind = 1" | "kind \<noteq> 0" "kind \<noteq> 1" by blast
  then show ?thesis
  proof cases
    case 2
    then show ?thesis
      using Cons Opt [of "\<lparr>OptionType = 1, OptionLength = 1, OptionData = []\<rparr>" rest]
      by (simp add: wf_option_def option_bytes_def)
  next
    case k: 3
    show ?thesis
    proof (cases rest)
      case r: (Cons l rs)
      show ?thesis
      proof (cases "unat l < 2 \<or> length data < unat l")
        case False
        then have "take (unat l - 2) rs @ drop (unat l - 2) rs = rs" "unat l - 2 \<le> length rs"
          "unat l = Suc (Suc (unat l - 2))"
          using Cons r by auto
        then show ?thesis
          using False Cons r k Opt [of "\<lparr>OptionType = kind, OptionLength = l,
            OptionData = take (unat l - 2) rs\<rparr>" "drop (unat l - 2) rs"]
          by (simp add: wf_option_def option_bytes_def)
      qed (use Cons r k BadLength in blast)
    qed (use Cons k Truncated in blast)
  qed (use Cons EndList in blast)
qed (use Empty in blast)

lemma parse_options_simps:
  "parse_options opts pad [] = Inr (opts, pad, None)"
  "parse_options opts pad (0 # rest) =
     Inr (opts @ [\<lparr>OptionType = 0, OptionLength = 1, OptionData = []\<rparr>], rest, None)"
  "kind \<noteq> 0 \<Longrightarrow> kind \<noteq> 1 \<Longrightarrow> parse_options opts pad [kind] = Inl (Panic IndexOutOfRange)"
  by (subst parse_options.simps; simp)+

lemma parse_options_bad_length:
  "kind \<noteq> 0 \<Longrightarrow> kind \<noteq> 1 \<Longrightarrow> unat l < 2 \<or> length (kind # l # rest) < unat l \<Longrightarrow>
   \<exists>opts' e. parse_options opts pad (kind # l # rest) = Inr (opts', pad, Some e)"
  by (subst parse_options.simps) auto

lemma options_read_Cons:
  "options_read os pad rest pad' \<Longrightarrow> wf_option opt \<Longrightarrow> OptionType opt \<noteq> 0 \<Longrightarrow>
   options_read (opt # os) pad (option_bytes opt @ rest) pad'"
  by (auto simp: options_read_def options_bytes_def)

lemma parse_options_read:
  assumes "parse_options opts pad data = Inr (opts', pad', None)"
  shows "\<exists>os. opts' = opts @ os \<and> options_read os pad data pad'"
  using assms
proof (induction data arbitrary: opts rule: length_induct)
  case (1 data)
  show ?case
  proof (cases data rule: option_head_cases)
    case (Opt opt rest)
    then have "length rest < length data" by (simp add: option_bytes_def)
    moreover have "parse_options (opts @ [opt]) pad rest = Inr (opts', pad', None)"
      using "1.prems" Opt by (simp add: parse_options_step)
    ultimately obtain os where "opts' = (opts @ [opt]) @ os" "options_read os pad rest pad'"
      using "1.IH" by blast
    then show ?thesis
      using Opt options_read_Cons by (intro exI [of _ "opt # os"]) simp
  next
    case (BadLength kind l rest)
    then show ?thesis
      using "1.prems" parse_options_bad_length [of kind l rest opts pad] by auto
  qed (use "1.prems" in \<open>auto simp: parse_options_simps options_read_def options_bytes_def
      option_bytes_def wf_option_def\<close>)
qed

lemma parse_options_panic_iff:
  "is_panic (parse_options opts pad data) \<longleftrightarrow>
     (\<exists>os kind. (\<forall>opt \<in> set os. wf_option opt \<and> OptionType opt \<noteq> 0) \<and>
        kind \<noteq> 0 \<and> kind \<noteq> 1 \<and> data = options_bytes os @ [kind])"
    (is "_ = ?R data")
proof (rule iffI)
  show "?R data" if "is_panic (parse_options opts pad data)"
    using that
  proof (induction data arbitrary: opts rule: length_induct)
    case (1 data)
    show ?case
    proof (cases data rule: option_head_cases)
      case (Opt opt rest)
      then have "length rest < length data" by (simp add: option_bytes_def)
      moreover have "is_panic (parse_options (opts @ [opt]) pad rest)"
        using "1.prems" Opt by (simp add: parse_options_step)
      ultimately obtain os kind where os: "\<forall>opt \<in> set os. wf_option opt \<and> OptionType opt \<noteq> 0"
        and kind: "kind \<noteq> 0" "kind \<noteq> 1" and rest: "rest = options_bytes os @ [kind]"
        using "1.IH" by blast
      have "data = options_bytes (opt # os) @ [kind]"
        using Opt(3) rest by (simp add: options_bytes_def)
      moreover have "\<forall>opt' \<in> set (opt # os). wf_option opt' \<and> OptionType opt' \<noteq> 0"
        using Opt os by simp
      ultimately show ?thesis using kind by blast
    next
      case (Truncated kind)
      then have "data = options_bytes [] @ [kind]" by (simp add: options_bytes_def)
      then show ?thesis using Truncated by (metis empty_iff list.set(1))
    next
      case (BadLength kind l rest)
      then show ?thesis
        using "1.prems" parse_options_bad_length [of kind l rest opts pad] by auto
    qed (use "1.prems" in \<open>auto simp: parse_options_simps\<close>)
  qed
  show "is_panic (parse_options opts pad data)" if "?R data"
    using that parse_options_bytes [of _ opts pad] by (auto simp: parse_options_simps)
qed

section \<open>Marshal and Unmarshal\<close>

lemma length_tcp_fixed_bytes [simp]: "length (tcp_fixed_bytes h) = 20"
  by (simp add: tcp_fixed_bytes_def)

lemma list_update_mid: "length pre = i \<Longrightarrow> (pre @ x # post)[i := y] = pre @ y # post"
  by (simp add: list_update_append)

lemma go_copy_at_mid:
  "length pre = off \<Longrightarrow> length old = length src \<Longrightarrow>
   go_copy_at (pre @ old @ post) off src = pre @ src @ post"
  by (simp add: go_copy_at_def go_copy_def)

lemma put_options_bytes:
  assumes "\<And>opt. opt \<in> set os \<Longrightarrow> wf_option opt"
  shows "put_options os (length pre) (pre @ replicate (options_size os) 0 @ post) =
     Inr (length pre + options_size os, pre @ options_bytes os @ post)"
  using assms
proof (induction os arbitrary: pre)
  case (Cons opt os)
  have wf: "wf_option opt" using Cons.prems by simp
  let ?zs = "replicate (options_size os) 0 @ post"
  have buf: "pre @ replicate (options_size (opt # os)) 0 @ post =
      pre @ replicate (option_size opt) 0 @ ?zs"
    by (simp add: replicate_add)
  have "put_options (opt # os) (length pre) (pre @ replicate (option_size opt) 0 @ ?zs) =
      put_options os (length (pre @ option_bytes opt)) ((pre @ option_bytes opt) @ ?zs)"
  proof (cases "OptionType opt = 0 \<or> OptionType opt = 1")
    case True
    then show ?thesis by (auto simp: option_size_def option_bytes_def list_update_mid)
  next
    case False
    then have l: "unat (OptionLength opt) = 2 + length (OptionData opt)"
      using wf by (simp add: wf_option_def)
    then have of_l: "(of_nat (length (OptionData opt) + 2) :: byte) = OptionLength opt"
      by (metis add.commute of_nat_unat ucast_id)
    let ?old = "replicate (length (OptionData opt)) (0 :: byte)"
    have "go_copy_at ((pre @ 0 # 0 # ?old @ ?zs)[length pre := OptionType opt, length pre + 1 := OptionLength opt])
        (length pre + 2) (OptionData opt) = pre @ option_bytes opt @ ?zs"
      using False go_copy_at_mid [of "pre @ [OptionType opt, OptionLength opt]" "length pre + 2" ?old "OptionData opt" ?zs]
      by (simp add: list_update_append option_bytes_def)
    then show ?thesis
      using False l of_l
      by (simp add: option_size_def Let_def option_bytes_def)
  qed
  then show ?case
    unfolding buf using Cons.IH [of "pre @ option_bytes opt"] Cons.prems
    by (simp add: options_bytes_def option_bytes_length)
qed (simp add: options_bytes_def)

lemma tcp_Marshal_bytes:
  assumes "tcp_wf h"
  shows "tcp_Marshal h = Inr (tcp_fixed_bytes (tcp_laid_out h) @ options_bytes (tcp_Options h) @
     tcp_Padding (tcp_laid_out h) @ tcp_Payload h, tcp_laid_out h)"
proof -
  define hdr where "hdr = tcp_laid_out h"
  define pad where "pad = tcp_Padding hdr"
  have os: "\<And>opt. opt \<in> set (tcp_Options h) \<Longrightarrow> wf_option opt"
    using assms by (simp add: tcp_wf_def)
  let ?n = "options_size (tcp_Options h)"
  have hdr1: "(if ?n mod 4 \<noteq> 0 then h\<lparr>tcp_Padding := replicate (4 - ?n mod 4) 0\<rparr> else h) =
      h\<lparr>tcp_Padding := tcp_padding h\<rparr>"
    using assms by (simp add: tcp_wf_def tcp_padding_def)
  have buf: "tcp_fixed_bytes hdr @ replicate (?n + length pad) 0 @ tcp_Payload h =
      tcp_fixed_bytes hdr @ replicate ?n 0 @ (replicate (length pad) 0 @ tcp_Payload h)"
    by (simp add: replicate_add)
  have put: "put_options (tcp_Options h) 20 (tcp_fixed_bytes hdr @ replicate ?n 0 @
       (replicate (length pad) 0 @ tcp_Payload h)) =
     Inr (20 + ?n, tcp_fixed_bytes hdr @ options_bytes (tcp_Options h) @ replicate (length pad) 0 @ tcp_Payload h)"
    using put_options_bytes [OF os, where pre = "tcp_fixed_bytes hdr"] by simp
  have "tcp_Marshal h = bindR (put_options (tcp_Options h) 20
      (tcp_fixed_bytes hdr @ replicate (?n + length pad) 0 @ tcp_Payload h)) (\<lambda>(start, buf').
           if length buf' < start then Inl (Panic SliceOutOfRange)
           else Inr (go_copy_at buf' start pad, hdr))"
    unfolding tcp_Marshal_def Let_def hdr1
    by (simp add: hdr_def pad_def tcp_laid_out_def cong: if_cong)
  also have "\<dots> = Inr (tcp_fixed_bytes hdr @ options_bytes (tcp_Options h) @ pad @ tcp_Payload h, hdr)"
    unfolding buf put
    using go_copy_at_mid [of "tcp_fixed_bytes hdr @ options_bytes (tcp_Options h)" "20 + ?n"
        "replicate (length pad) 0" pad "tcp_Payload h"]
    by (simp add: options_bytes_length)
  finally show ?thesis by (simp add: hdr_def pad_def)
qed

lemma tcp_fixed_fields_append:
  assumes "length fb = 20"
  shows "tcp_fixed_fields h (fb @ rest) =
    Inr (h\<lparr>tcp_Source := be16 (fb ! 0) (fb ! 1), tcp_Destination := be16 (fb ! 2) (fb ! 3),
      tcp_SeqNum := be32 (fb ! 4) (fb ! 5) (fb ! 6) (fb ! 7),
      tcp_AckNum := be32 (fb ! 8) (fb ! 9) (fb ! 10) (fb ! 11),
      tcp_DataOffset := drop_bit 4 (fb ! 12), tcp_ECN := drop_bit 6 (fb ! 13) AND 7,
      tcp_Ctrl := fb ! 13 AND 0x3f, tcp_Window := be16 (fb ! 14) (fb ! 15),
      tcp_Checksum := be16 (fb ! 16) (fb ! 17), tcp_Urgent := be16 (fb ! 18) (fb ! 19),
      tcp_Options := []\<rparr>)"
  using assms by (simp add: tcp_fixed_fields_def nth_append)

lemma offset_roundtrip:
  assumes "k < 16"
  shows "unat (drop_bit 4 (push_bit 4 (of_nat k)) :: byte) = k" "drop_bit 4 (push_bit 4 (of_nat k)) = (of_nat k :: byte)"
proof -
  define w where "w = (of_nat k :: byte)"
  have u: "unat w = k"
    using assms by (simp add: w_def unsigned_of_nat take_bit_nat_eq_self)
  have bits: "bit w n \<Longrightarrow> n < 4" for n
    using word_bit_bound [of w 4 n] assms by (simp add: u)
  have "drop_bit 4 (push_bit 4 w) = w"
    by (rule bit_word_eqI) (auto simp: bit_simps dest: bits)
  then show "unat (drop_bit 4 (push_bit 4 (of_nat k)) :: byte) = k"
    "drop_bit 4 (push_bit 4 (of_nat k)) = (of_nat k :: byte)"
    unfolding w_def [symmetric] by (simp_all add: u)
qed

lemma flags_roundtrip:
  assumes "e < (4 :: byte)" "c < (64 :: byte)"
  shows "drop_bit 6 (push_bit 6 e OR c) AND 7 = e" "(push_bit 6 e OR c) AND 0x3f = c"
proof -
  have bits: "bit e n \<Longrightarrow> n < 2" "bit c n \<Longrightarrow> n < 6" for n
    using assms by (auto intro: word_bit_bound simp: word_less_nat_alt)
  have m: "(7 :: byte) = mask 3" "(0x3f :: byte) = mask 6"
    by (simp_all add: mask_eq_exp_minus_1)
  show "drop_bit 6 (push_bit 6 e OR c) AND 7 = e"
    unfolding m by (rule bit_word_eqI) (auto simp: bit_simps dest: bits)
  show "(push_bit 6 e OR c) AND 0x3f = c"
    unfolding m by (rule bit_word_eqI) (auto simp: bit_simps dest: bits)
qed

lemma tcp_padding_cases:
  assumes "n = options_size (tcp_Options h)"
  shows "(n + length (tcp_padding h)) mod 4 = 0" "n + length (tcp_padding h) \<le> n + 3"
    "tcp_padding h = replicate (length (tcp_padding h)) 0"
proof -
  have "(n + (4 - n mod 4)) mod 4 = 0" if "n mod 4 \<noteq> 0" 
    using that by presburger
  then show "(n + length (tcp_padding h)) mod 4 = 0"
    using assms by (auto simp: tcp_padding_def Let_def)
  show "n + length (tcp_padding h) \<le> n + 3" using assms by (auto simp: tcp_padding_def Let_def)
  show "tcp_padding h = replicate (length (tcp_padding h)) 0" by (simp add: tcp_padding_def Let_def)
qed

lemma parse_options_laid_out:
  assumes "tcp_wf h"
  shows "parse_options [] [] (options_bytes (tcp_Options h) @ tcp_padding h) =
    Inr (tcp_read_options h, tl (tcp_padding h), None)"
proof -
  have "parse_options os [] (tcp_padding h) =
      Inr (os @ (if tcp_padding h = [] then [] else [\<lparr>OptionType = 0, OptionLength = 1, OptionData = []\<rparr>]),
           tl (tcp_padding h), None)" for os
  proof (cases "tcp_padding h")
    case (Cons z zs)
    then have "z = 0" using tcp_padding_cases(3) [OF refl, of h]
      by (metis length_Cons list.inject replicate_Suc)
    with Cons show ?thesis by (simp add: parse_options_simps)
  qed (simp add: parse_options_simps)
  then show ?thesis
    using assms by (subst parse_options_bytes) (auto simp: tcp_wf_def tcp_read_options_def)
qed

lemma tcp_offset:
  assumes "tcp_wf h" and n: "n = options_size (tcp_Options h) + length (tcp_padding h)"
  obtains k where "n = 4 * k" "k \<le> 10" "tcp_DataOffset (tcp_laid_out h) = of_nat (5 + k)"
proof -
  have "n mod 4 = 0" "n \<le> 43"
    using tcp_padding_cases [OF refl, of h] assms by (simp_all add: tcp_wf_def)
  then obtain k where k: "n = 4 * k" "k \<le> 10" by auto
  have "(length (tcp_padding h) + options_size (tcp_Options h) + 20) div 4 = 5 + k"
    using k n by simp
  then have "tcp_DataOffset (tcp_laid_out h) = of_nat (5 + k)"
    by (simp add: tcp_laid_out_def)
  with k show ?thesis by (rule that)
qed

text \<open>Parsing the bytes of a laid-out header whose checksum field is \<open>ck\<close>.\<close>

lemma tcp_Unmarshal_laid_out:
  assumes wf: "tcp_wf h" and fb: "fb = (tcp_fixed_bytes (tcp_laid_out h))[16 := x, 17 := y]"
  shows "tcp_Unmarshal empty_tcp_Header
      (fb @ options_bytes (tcp_Options h) @ tcp_padding h @ tcp_Payload h) =
    Inr (tcp_on_wire h (be16 x y), None)"
proof -
  let ?n = "options_size (tcp_Options h) + length (tcp_padding h)"
  obtain k where k: "?n = 4 * k" "k \<le> 10" and off: "tcp_DataOffset (tcp_laid_out h) = of_nat (5 + k)"
    using tcp_offset [OF wf refl] by blast
  define l where "l = tcp_laid_out h"
  have len: "length fb = 20" by (simp add: fb)
  have f: "fb = put_be16 (tcp_Source l) @ put_be16 (tcp_Destination l) @
     put_be32 (tcp_SeqNum l) @ put_be32 (tcp_AckNum l) @
     [push_bit 4 (of_nat (5 + k)), push_bit 6 (tcp_ECN l) OR tcp_Ctrl l] @
     put_be16 (tcp_Window l) @ [x, y] @ put_be16 (tcp_Urgent l)"
    unfolding fb tcp_fixed_bytes_def l_def [symmetric] off [folded l_def]
    by (simp add: put_be16_def put_be32_def)
  have o: "unat (drop_bit 4 (push_bit 4 (of_nat (5 + k))) :: byte) = 5 + k"
    "drop_bit 4 (push_bit 4 (of_nat (5 + k))) = (of_nat (5 + k) :: byte)"
    using offset_roundtrip [of "5 + k"] k(2) by simp_all
  have fl: "drop_bit 6 (push_bit 6 (tcp_ECN l) OR tcp_Ctrl l) AND 7 = tcp_ECN l"
    "(push_bit 6 (tcp_ECN l) OR tcp_Ctrl l) AND 0x3f = tcp_Ctrl l"
    using flags_roundtrip [of "tcp_ECN l" "tcp_Ctrl l"] wf by (simp_all add: tcp_wf_def l_def tcp_laid_out_def)
  have res: "tcp_Reserved l = 0" using wf by (simp add: tcp_wf_def l_def tcp_laid_out_def)
  define ob where "ob = options_bytes (tcp_Options h) @ tcp_padding h"
  have lob: "length ob = 4 * k" using k(1) by (simp add: ob_def options_bytes_length)
  have fields: "tcp_fixed_fields empty_tcp_Header (fb @ ob @ tcp_Payload h) =
     Inr (l\<lparr>tcp_Checksum := be16 x y, tcp_Options := [], tcp_Padding := [], tcp_Payload := []\<rparr>)"
    unfolding tcp_fixed_fields_append [OF len] 
    unfolding f put_be16_def put_be32_def
    using off o fl res
    by (cases l) (simp add: empty_tcp_Header_def l_def [symmetric])
  have on_wire: "l\<lparr>tcp_Checksum := be16 x y, tcp_Payload := tcp_Payload h,
      tcp_Options := tcp_read_options h, tcp_Padding := tl (tcp_padding h)\<rparr> = tcp_on_wire h (be16 x y)"
    by (cases h) (simp add: l_def tcp_on_wire_def tcp_laid_out_def)
  show ?thesis
    unfolding tcp_Unmarshal_def
    using lob len o k off fields parse_options_laid_out [OF wf] on_wire
    by (simp add: ob_def l_def Let_def)
qed

text \<open>
  C28: TCP round trip. For a representable header and IPv4 addresses
  \<^verbatim>\<open>MarshalWithChecksum\<close> returns a segment; \<^verbatim>\<open>UnmarshalWithChecksum\<close>
  accepts its checksum and gives back every field, the data offset and padding that
  \<^verbatim>\<open>Marshal\<close> chose, and the options followed by an end-of-list option exactly
  when padding was needed.
\<close>

theorem tcp_roundtrip:
  assumes wf: "tcp_wf h" and s: "ip_to4byte src = Inr s" and d: "ip_to4byte dst = Inr d"
  shows "\<exists>data. MarshalWithChecksum h src dst = Inr data \<and>
    UnmarshalWithChecksum data src dst = Inr (Parsed (tcp_on_wire h (tcp_csum data s d)))"
proof -
  define rest where "rest = options_bytes (tcp_Options h) @ tcp_padding h @ tcp_Payload h"
  define raw where "raw = tcp_fixed_bytes (tcp_laid_out h) @ rest"
  define ck where "ck = tcp_csum raw s d"
  define data where "data = raw[16 := ucast (drop_bit 8 ck), 17 := ucast (ck AND 0xFF)]"
  have m: "MarshalWithChecksum h src dst = Inr data"
    unfolding MarshalWithChecksum_def tcp_Marshal_bytes [OF wf] s d
    by (simp add: data_def ck_def raw_def rest_def tcp_laid_out_def Let_def)
  have ckd: "tcp_csum data s d = ck"
    unfolding data_def ck_def by (rule tcp_csum_ignores_field) (simp add: raw_def)
  have data: "data = (tcp_fixed_bytes (tcp_laid_out h))[16 := ucast (drop_bit 8 ck), 17 := ucast ck] @ rest"
    by (simp add: data_def raw_def list_update_append)
  have "tcp_Unmarshal empty_tcp_Header data = Inr (tcp_on_wire h ck, None)"
    unfolding data rest_def by (subst tcp_Unmarshal_laid_out [OF wf refl]) simp
  moreover have "tcp_Checksum (tcp_on_wire h ck) = ck" by (simp add: tcp_on_wire_def)
  ultimately have "UnmarshalWithChecksum data src dst = Inr (Parsed (tcp_on_wire h (tcp_csum data s d)))"
    unfolding UnmarshalWithChecksum_def by (simp add: s d ckd)
  with m show ?thesis by blast
qed

theorem tcp_roundtrip_witness:
  "\<exists>data. MarshalWithChecksum sample_syn (net_IPv4 10 0 0 1) (net_IPv4 10 0 0 2) = Inr data \<and>
    UnmarshalWithChecksum data (net_IPv4 10 0 0 1) (net_IPv4 10 0 0 2) =
      Inr (Parsed (tcp_on_wire sample_syn (tcp_csum data (10, 0, 0, 1) (10, 0, 0, 2))))"
  by (rule tcp_roundtrip)
    (simp_all add: sample_syn_def tcp_wf_def wf_option_def option_size_def flag_defs empty_tcp_Header_def)

text \<open>
  A header accepted without error is read completely: its options are well formed,
  at most the last one is an end-of-list option, their encoding followed by the padding
  is the whole option area, and the payload is the rest of the segment.
\<close>

theorem tcp_Unmarshal_reads_all:
  assumes "tcp_Unmarshal hdr data = Inr (h, None)"
  shows "20 \<le> length data \<and>
    options_read (tcp_Options h) (tcp_Padding hdr)
      (take (4 * unat (tcp_DataOffset h) - 20) (drop 20 data)) (tcp_Padding h) \<and>
    tcp_Payload h = drop (4 * unat (tcp_DataOffset h)) data"
proof -
  obtain f where f: "tcp_fixed_fields hdr data = Inr f"
    using assms by (cases "tcp_fixed_fields hdr data") (auto simp: tcp_Unmarshal_def)
  have len: "20 \<le> length data"
    using f by (auto simp: tcp_fixed_fields_def go_panic_defs split: if_splits)
  have pad: "tcp_Padding f = tcp_Padding hdr"
    using f len by (simp add: tcp_fixed_fields_def) auto
  let ?n = "unat (tcp_DataOffset f) * 4"
  obtain opts pad' where p: "parse_options [] (tcp_Padding hdr) (take (?n - 20) (drop 20 data)) = Inr (opts, pad', None)"
    and h: "h = f\<lparr>tcp_Payload := drop ?n data, tcp_Options := opts, tcp_Padding := pad'\<rparr>"
    using assms f pad by (auto simp: tcp_Unmarshal_def Let_def bindR_Inr_iff split: if_splits)
  from parse_options_read [OF p]
  have "options_read opts (tcp_Padding hdr) (take (?n - 20) (drop 20 data)) pad'" by simp
  then show ?thesis using h len by (simp add: mult.commute)
qed

theorem tcp_Unmarshal_reads_all_witness:
  "\<exists>h. tcp_Unmarshal empty_tcp_Header
     ([0, 80, 1, 187, 0, 0, 0, 1, 0, 0, 0, 0, 0x60, 2, 0, 0, 0, 0, 0, 0] @ [1, 1, 0, 0] @ [0x41]) = Inr (h, None) \<and>
     options_read (tcp_Options h) [] [1, 1, 0, 0] (tcp_Padding h) \<and> tcp_Payload h = [0x41]"
proof -
  let ?data = "[0, 80, 1, 187, 0, 0, 0, 1, 0, 0, 0, 0, 0x60, 2, 0, 0, 0, 0, 0, 0] @ [1, 1, 0, 0] @ [0x41] :: bytes"
  obtain h where h: "tcp_Unmarshal empty_tcp_Header ?data = Inr (h, None)" "tcp_DataOffset h = 6"
    by (simp add: tcp_Unmarshal_def tcp_fixed_fields_def u16_at_def u32_at_def go_at_def
        parse_options.simps Let_def)
  show ?thesis
    using tcp_Unmarshal_reads_all [OF h(1)] h
    by (intro exI [of _ h]) (simp add: empty_tcp_Header_def)
qed

text \<open>
  The exact inputs on which \<^verbatim>\<open>Unmarshal\<close> panics: fewer than 20 bytes, or an
  option area that ends in a lone option kind whose length byte is missing.
\<close>

theorem tcp_Unmarshal_panics_iff:
  "is_panic (tcp_Unmarshal hdr data) \<longleftrightarrow>
     length data < 20 \<or>
     (let n = 4 * unat (drop_bit 4 (data ! 12)) in
      20 \<le> n \<and> n \<le> length data \<and>
      (\<exists>os kind. (\<forall>opt \<in> set os. wf_option opt \<and> OptionType opt \<noteq> 0) \<and> kind \<noteq> 0 \<and> kind \<noteq> 1 \<and>
         take (n - 20) (drop 20 data) = options_bytes os @ [kind]))"
proof (cases "length data < 20")
  case True
  then have "is_panic (tcp_fixed_fields hdr data)"
    by (auto simp: tcp_fixed_fields_def go_panic_defs)
  then show ?thesis using True by (auto simp: tcp_Unmarshal_def is_panic_iff)
next
  case False
  then obtain f where f: "tcp_fixed_fields hdr data = Inr f" "tcp_DataOffset f = drop_bit 4 (data ! 12)"
    by (simp add: tcp_fixed_fields_def)
  let ?n = "4 * unat (drop_bit 4 (data ! 12))"
  have b: "is_panic (bindR m (\<lambda>(opts, pad, err). Inr (g opts pad err))) = is_panic m"
    for m :: "(tcp_Option list \<times> bytes \<times> string option) result" and g :: "_ \<Rightarrow> _ \<Rightarrow> _ \<Rightarrow> tcp_Header \<times> string option"
    by (cases m rule: is_panic.cases) auto
  show ?thesis
    using False f parse_options_panic_iff [of "[]" "tcp_Padding f" "take (?n - 20) (drop 20 data)"]
    by (simp add: tcp_Unmarshal_def Let_def b mult.commute)
qed

theorem tcp_Unmarshal_panics_iff_witness:
  "is_panic (tcp_Unmarshal empty_tcp_Header [1, 2, 3])"
  using tcp_Unmarshal_panics_iff [of empty_tcp_Header "[1, 2, 3]"] by simp

end
