(* ===== verification/Canary_State.thy ===== *)
theory Canary_State
  imports Ring_Buffer TCP_Header
begin

text \<open>
  The connection records of the canary listener: \<^verbatim>\<open>Socket\<close>
  (\<^verbatim>\<open>listener/canary/socket.go\<close>), \<^verbatim>\<open>State\<close> and the fixed-size
  \<^verbatim>\<open>StateTable\<close> (\<^verbatim>\<open>listener/canary/state.go\<close>). A state is reached
  through pointers, from the table and from handler goroutines, so states live in a heap
  (a list indexed by address) and the table holds addresses. A state and its socket
  point at each other and are never shared otherwise; the socket is a field.
\<close>

section \<open>Sockets\<close>

datatype SocketState =
    SocketClosed | SocketListen | SocketSynReceived | SocketSynSent | SocketEstablished
  | SocketFinWait1 | SocketFinWait2 | SocketClosing | SocketTimeWait | SocketCloseWait | SocketLastAck

fun SocketState_String :: "SocketState \<Rightarrow> string" where
  "SocketState_String SocketClosed = ''SocketClosed''"
| "SocketState_String SocketListen = ''SocketListen''"
| "SocketState_String SocketSynReceived = ''SocketSynReceived''"
| "SocketState_String SocketSynSent = ''SocketSynSent''"
| "SocketState_String SocketEstablished = ''SocketEstablished''"
| "SocketState_String SocketFinWait1 = ''SocketFinWait1''"
| "SocketState_String SocketFinWait2 = ''SocketFinWait2''"
| "SocketState_String SocketClosing = ''SocketClosing''"
| "SocketState_String SocketTimeWait = ''SocketTimeWait''"
| "SocketState_String SocketCloseWait = ''SocketCloseWait''"
| "SocketState_String SocketLastAck = ''SocketLastAck''"

record Socket =
  sock_laddr :: net_addr
  sock_raddr :: net_addr
  sock_rbuffer :: FixedSizeRingBuf
  sock_closed :: bool

definition NewSocket :: "net_addr \<Rightarrow> net_addr \<Rightarrow> Socket" where
  "NewSocket src dst =
     \<lparr>sock_laddr = dst, sock_raddr = src, sock_rbuffer = NewFixedSizeRingBuf 4096, sock_closed = False\<rparr>"

text \<open>\<^verbatim>\<open>flush\<close> offers a wake-up on the channel; the result says whether it does.\<close>

definition sock_flush :: "Socket \<Rightarrow> bool" where
  "sock_flush s = (\<not> sock_closed s)"

text \<open>\<^verbatim>\<open>write\<close> drops the count and the error of the ring buffer and reports success.\<close>

definition sock_write :: "Socket \<Rightarrow> bytes \<Rightarrow> (Socket \<times> nat) result" where
  "sock_write s p = bindR (rb_Write (sock_rbuffer s) p) (\<lambda>(b, _, _). Inr (s\<lparr>sock_rbuffer := b\<rparr>, length p))"

text \<open>
  \<^verbatim>\<open>close\<close> has a value receiver: it sets the flag of its own copy and the caller's
  socket stays as it is.
\<close>

definition by_value :: "('a \<Rightarrow> 'a) \<Rightarrow> 'a \<Rightarrow> 'a" where
  "by_value method caller = (let receiver = method caller in fst (caller, receiver))"

definition sock_close_body :: "Socket \<Rightarrow> Socket" where
  "sock_close_body s = (if sock_closed s then s else s\<lparr>sock_closed := True\<rparr>)"

definition sock_close :: "Socket \<Rightarrow> Socket" where
  "sock_close s = by_value sock_close_body s"

text \<open>
  \<^verbatim>\<open>Read\<close> up to the point where it blocks on the channel, and what it does when it
  wakes up: by a flush, or by the timeout of 60 seconds. Other goroutines may have
  written to the buffer in between.
\<close>

datatype read_outcome = ReadDone nat | ReadEOF | ReadBlocked | ReadTimeout

definition sock_Read :: "Socket \<Rightarrow> bytes \<Rightarrow> (Socket \<times> bytes \<times> read_outcome) result" where
  "sock_Read s p =
     (if sock_closed s \<and> rb_Avail (sock_rbuffer s) = 0 then Inr (s, p, ReadEOF)
      else bindR (rb_Read (sock_rbuffer s) p) (\<lambda>(b, p', n, _).
             Inr (s\<lparr>sock_rbuffer := b\<rparr>, p', if 0 < n then ReadDone n else ReadBlocked)))"

definition sock_Read_resume :: "Socket \<Rightarrow> bytes \<Rightarrow> bool \<Rightarrow> (Socket \<times> bytes \<times> read_outcome) result" where
  "sock_Read_resume s p flushed =
     (if \<not> flushed then Inr (s, p, ReadTimeout)
      else bindR (rb_Read (sock_rbuffer s) p) (\<lambda>(b, p', n, _).
             Inr (s\<lparr>sock_rbuffer := b\<rparr>, p', ReadDone n)))"

section \<open>States\<close>

record State =
  st_SrcIP :: ip
  st_SrcPort :: u16
  st_DestIP :: ip
  st_DestPort :: u16
  st_ID :: u32
  st_LastAcked :: u32
  st_socket :: "Socket option"
  st_State :: SocketState
  st_SendUnacknowledged :: u32
  st_SendNext :: u32
  st_SendWindow :: u32
  st_SendUrgentPointer :: u32
  st_SendWL1 :: u32
  st_SendWL2 :: u32
  st_InitialSendSequenceNumber :: u32
  st_RecvNext :: u32
  st_ReceiveWindow :: u16
  st_ReceiveUrgentPointer :: u32
  st_InitialReceiveSequenceNumber :: u32
  st_t :: int

text \<open>The two random numbers and the clock reading are arguments.\<close>

definition NewState :: "ip \<Rightarrow> u16 \<Rightarrow> ip \<Rightarrow> u16 \<Rightarrow> u32 \<Rightarrow> u32 \<Rightarrow> int \<Rightarrow> State" where
  "NewState src srcPort dest dstPort ident iss now =
     \<lparr>st_SrcIP = src, st_SrcPort = srcPort, st_DestIP = dest, st_DestPort = dstPort,
      st_ID = ident, st_LastAcked = 0, st_socket = None, st_State = SocketClosed,
      st_SendUnacknowledged = 0, st_SendNext = 0, st_SendWindow = 0, st_SendUrgentPointer = 0,
      st_SendWL1 = 0, st_SendWL2 = 0, st_InitialSendSequenceNumber = iss, st_RecvNext = 0,
      st_ReceiveWindow = 65535, st_ReceiveUrgentPointer = 0, st_InitialReceiveSequenceNumber = 0,
      st_t = now\<rparr>"

section \<open>The state table\<close>

type_synonym StateTable = "nat option list"

definition StateTable_size :: nat where
  "StateTable_size = 65535"

definition StateTable_empty :: StateTable where
  "StateTable_empty = replicate StateTable_size None"

fun first_index :: "('a \<Rightarrow> bool) \<Rightarrow> 'a list \<Rightarrow> nat option" where
  "first_index P [] = None"
| "first_index P (x # xs) = (if P x then Some 0 else map_option Suc (first_index P xs))"

definition slot_reusable :: "State list \<Rightarrow> nat option \<Rightarrow> bool" where
  "slot_reusable heap e = (case e of None \<Rightarrow> True | Some a \<Rightarrow> st_State (heap ! a) = SocketTimeWait)"

text \<open>The second loop runs only when no slot is nil.\<close>

fun slot_inactive :: "State list \<Rightarrow> int \<Rightarrow> StateTable \<Rightarrow> nat option result" where
  "slot_inactive heap now [] = Inr None"
| "slot_inactive heap now (None # es) = Inl (Panic NilDereference)"
| "slot_inactive heap now (Some a # es) =
     (if 30000000000 < now - st_t (heap ! a) then Inr (Some 0)
      else bindR (slot_inactive heap now es) (\<lambda>i. Inr (map_option Suc i)))"

definition StateTable_Add :: "State list \<Rightarrow> StateTable \<Rightarrow> nat \<Rightarrow> int \<Rightarrow> StateTable result" where
  "StateTable_Add heap st a now = (case first_index (slot_reusable heap) st of
     Some i \<Rightarrow> Inr (st[i := Some a])
   | None \<Rightarrow> bindR (slot_inactive heap now st) (\<lambda>i. case i of
       Some i \<Rightarrow> Inr (st[i := Some a])
     | None \<Rightarrow> Inl (Panic (ExplicitPanic ''Statetable full''))))"

definition state_matches :: "State \<Rightarrow> ip \<Rightarrow> ip \<Rightarrow> u16 \<Rightarrow> u16 \<Rightarrow> bool" where
  "state_matches s SrcIP DestIP SrcPort DestPort \<longleftrightarrow>
     \<not> (st_SrcPort s \<noteq> SrcPort \<and> st_DestPort s \<noteq> SrcPort) \<and>
     \<not> (st_DestPort s \<noteq> DestPort \<and> st_SrcPort s \<noteq> DestPort) \<and>
     \<not> (\<not> ip_Equal (st_SrcIP s) SrcIP \<and> \<not> ip_Equal (st_DestIP s) SrcIP) \<and>
     \<not> (\<not> ip_Equal (st_DestIP s) DestIP \<and> \<not> ip_Equal (st_SrcIP s) DestIP)"

fun StateTable_Get :: "State list \<Rightarrow> StateTable \<Rightarrow> ip \<Rightarrow> ip \<Rightarrow> u16 \<Rightarrow> u16 \<Rightarrow> nat option" where
  "StateTable_Get heap [] si di sp dp = None"
| "StateTable_Get heap (None # es) si di sp dp = StateTable_Get heap es si di sp dp"
| "StateTable_Get heap (Some a # es) si di sp dp =
     (if state_matches (heap ! a) si di sp dp then Some a else StateTable_Get heap es si di sp dp)"

definition StateTable_Remove :: "StateTable \<Rightarrow> nat \<Rightarrow> StateTable" where
  "StateTable_Remove st a = (case first_index (\<lambda>e. e = Some a) st of None \<Rightarrow> st | Some i \<Rightarrow> st[i := None])"

section \<open>Invariants\<close>

definition table_addrs :: "StateTable \<Rightarrow> nat set" where
  "table_addrs st = {a. Some a \<in> set st}"

definition table_inv :: "State list \<Rightarrow> StateTable \<Rightarrow> bool" where
  "table_inv heap st \<longleftrightarrow> (\<forall>a \<in> table_addrs st. a < length heap) \<and>
     (\<forall>i j a. i < length st \<and> j < length st \<and> st ! i = Some a \<and> st ! j = Some a \<longrightarrow> i = j)"

definition socket_inv :: "Socket \<Rightarrow> bool" where
  "socket_inv s \<longleftrightarrow> rb_inv (sock_rbuffer s) \<and> rb_N (sock_rbuffer s) = 4096"

section \<open>Lemmas\<close>

lemma first_index_Some: "first_index P xs = Some i \<Longrightarrow> i < length xs \<and> P (xs ! i) \<and> (\<forall>j < i. \<not> P (xs ! j))"
  by (induction xs arbitrary: i) (auto split: if_splits simp: less_Suc_eq_0_disj)

lemma first_index_None: "first_index P xs = None \<longleftrightarrow> (\<forall>x \<in> set xs. \<not> P x)"
  by (induction xs) auto

lemma slot_inactive_Some:
  "slot_inactive heap now st = Inr (Some i) \<Longrightarrow>
     i < length st \<and> (\<exists>b. st ! i = Some b \<and> 30000000000 < now - st_t (heap ! b))"
  by (induction heap now st arbitrary: i rule: slot_inactive.induct)
    (auto split: if_splits simp: bindR_Inr_iff)

lemma slot_inactive_no_nil:
  "None \<notin> set st \<Longrightarrow> \<exists>r. slot_inactive heap now st = Inr r \<and>
     (r = None \<longleftrightarrow> (\<forall>b. Some b \<in> set st \<longrightarrow> now - st_t (heap ! b) \<le> 30000000000))"
  by (induction heap now st rule: slot_inactive.induct) (auto simp: bindR_Inr_iff)

text \<open>
  What the table promises its client: a new state gets a slot of its own, at most one
  entry is given up for it, and that entry was in time-wait or idle for 30 seconds.
\<close>

lemma StateTable_Add_Inr:
  assumes "StateTable_Add heap st a now = Inr st'"
  obtains i where "i < length st" "st' = st[i := Some a]"
    "slot_reusable heap (st ! i) \<or> (\<exists>b. st ! i = Some b \<and> 30000000000 < now - st_t (heap ! b))"
proof (cases "first_index (slot_reusable heap) st")
  case None
  then obtain i where "slot_inactive heap now st = Inr (Some i)" "st' = st[i := Some a]"
    using assms by (auto simp: StateTable_Add_def bindR_Inr_iff split: option.splits)
  then show ?thesis using that slot_inactive_Some by blast
next
  case (Some i)
  then have "st' = st[i := Some a]" using assms by (simp add: StateTable_Add_def)
  then show ?thesis using that first_index_Some [OF Some] by blast
qed

lemma StateTable_Add_panics_iff:
  "is_panic (StateTable_Add heap st a now) \<longleftrightarrow>
     (\<forall>e \<in> set st. \<exists>b. e = Some b \<and> st_State (heap ! b) \<noteq> SocketTimeWait \<and> now - st_t (heap ! b) \<le> 30000000000)"
proof (cases "first_index (slot_reusable heap) st")
  case None
  then have all: "\<forall>e \<in> set st. \<not> slot_reusable heap e" by (simp add: first_index_None)
  then have "None \<notin> set st" by (auto simp: slot_reusable_def)
  from slot_inactive_no_nil [OF this, of heap now] all None show ?thesis
    by (auto simp: StateTable_Add_def slot_reusable_def split: option.splits)
next
  case (Some i)
  then have "st ! i \<in> set st" "slot_reusable heap (st ! i)" using first_index_Some [OF Some] by auto
  then show ?thesis
    using Some by (auto simp: StateTable_Add_def slot_reusable_def split: option.splits intro!: bexI [of _ "st ! i"])
qed

lemma StateTable_Get_Some:
  "StateTable_Get heap st si di sp dp = Some a \<Longrightarrow>
     a \<in> table_addrs st \<and> state_matches (heap ! a) si di sp dp"
  by (induction heap st si di sp dp rule: StateTable_Get.induct)
    (auto simp: table_addrs_def split: if_splits)

lemma StateTable_Get_None:
  "StateTable_Get heap st si di sp dp = None \<longleftrightarrow>
     (\<forall>a \<in> table_addrs st. \<not> state_matches (heap ! a) si di sp dp)"
  by (induction heap st si di sp dp rule: StateTable_Get.induct)
    (auto simp: table_addrs_def)

lemma table_addrs_update:
  "i < length st \<Longrightarrow> table_addrs (st[i := e]) = set_option e \<union> {a. \<exists>j < length st. j \<noteq> i \<and> st ! j = Some a}"
  by (auto simp: table_addrs_def in_set_conv_nth nth_list_update)

lemma table_inv_cell:
  assumes "table_inv heap st" "i < length st" "st ! i = Some b"
  shows "{a. \<exists>j < length st. j \<noteq> i \<and> st ! j = Some a} = table_addrs st - {b}"
  using assms by (auto simp: table_inv_def table_addrs_def in_set_conv_nth)

lemma table_inv_free_cell:
  assumes "i < length st" "st ! i = None"
  shows "{a. \<exists>j < length st. j \<noteq> i \<and> st ! j = Some a} = table_addrs st"
  using assms by (auto simp: table_addrs_def in_set_conv_nth)

lemma table_inv_put:
  assumes "table_inv heap st" "i < length st" "a < length heap" "a \<notin> table_addrs st"
  shows "table_inv heap (st[i := Some a])"
  using assms by (auto simp: table_inv_def table_addrs_def nth_list_update in_set_conv_nth)

lemma table_inv_clear:
  assumes "table_inv heap st" "i < length st"
  shows "table_inv heap (st[i := None])"
  using assms by (auto simp: table_inv_def table_addrs_def nth_list_update in_set_conv_nth)

lemma StateTable_Remove_spec:
  assumes "table_inv heap st"
  shows "table_inv heap (StateTable_Remove st a) \<and> table_addrs (StateTable_Remove st a) = table_addrs st - {a} \<and>
    length (StateTable_Remove st a) = length st"
proof (cases "first_index (\<lambda>e. e = Some a) st")
  case None
  then have "a \<notin> table_addrs st" by (auto simp: first_index_None table_addrs_def)
  then show ?thesis using None assms by (simp add: StateTable_Remove_def)
next
  case (Some i)
  then have i: "i < length st" "st ! i = Some a" using first_index_Some by auto
  then show ?thesis
    using Some assms table_inv_clear table_addrs_update [OF i(1)] table_inv_cell [OF assms i]
    by (simp add: StateTable_Remove_def)
qed

lemma state_matches_self: "state_matches s (st_SrcIP s) (st_DestIP s) (st_SrcPort s) (st_DestPort s)"
  by (simp add: state_matches_def)

lemma StateTable_Add_spec:
  assumes inv: "table_inv heap st" and a: "a < length heap" "a \<notin> table_addrs st"
    and add: "StateTable_Add heap st a now = Inr st'"
  shows "table_inv heap st' \<and> length st' = length st \<and>
    (table_addrs st' = insert a (table_addrs st) \<or>
     (\<exists>b \<in> table_addrs st. table_addrs st' = insert a (table_addrs st - {b}) \<and>
        (st_State (heap ! b) = SocketTimeWait \<or> 30000000000 < now - st_t (heap ! b))))"
proof -
  obtain i where i: "i < length st" "st' = st[i := Some a]"
    and old: "slot_reusable heap (st ! i) \<or> (\<exists>b. st ! i = Some b \<and> 30000000000 < now - st_t (heap ! b))"
    using add by (rule StateTable_Add_Inr)
  have inv': "table_inv heap st'" using table_inv_put [OF inv i(1) a] i(2) by simp
  show ?thesis
  proof (cases "st ! i")
    case None
    then show ?thesis
      using inv' i table_addrs_update [OF i(1)] table_inv_free_cell [OF i(1)] by simp
  next
    case (Some b)
    then have "b \<in> table_addrs st" using i(1) by (auto simp: table_addrs_def in_set_conv_nth)
    then show ?thesis
      using inv' i old Some table_addrs_update [OF i(1)] table_inv_cell [OF inv i(1) Some]
      by (auto simp: slot_reusable_def)
  qed
qed

text \<open>
  The state table as a store. Adding a state that is not in the table keeps the
  invariant (valid addresses, no address in two slots) and every other entry except at most
  one, which was in time-wait or idle for more than 30 seconds; afterwards a lookup with
  the state's own addresses and ports finds a state that matches them, and removing the
  state takes exactly it out again.
\<close>

theorem statetable_add_get_remove:
  assumes inv: "table_inv heap st" and a: "a < length heap" "a \<notin> table_addrs st"
    and add: "StateTable_Add heap st a now = Inr st'"
  shows "table_inv heap st' \<and> a \<in> table_addrs st' \<and>
    (\<exists>gone. table_addrs st' = insert a (table_addrs st - gone) \<and>
       (gone = {} \<or> (\<exists>b. gone = {b} \<and>
          (st_State (heap ! b) = SocketTimeWait \<or> 30000000000 < now - st_t (heap ! b))))) \<and>
    (\<exists>b. StateTable_Get heap st' (st_SrcIP (heap ! a)) (st_DestIP (heap ! a))
           (st_SrcPort (heap ! a)) (st_DestPort (heap ! a)) = Some b \<and> b \<in> table_addrs st' \<and>
         state_matches (heap ! b) (st_SrcIP (heap ! a)) (st_DestIP (heap ! a))
           (st_SrcPort (heap ! a)) (st_DestPort (heap ! a))) \<and>
    table_addrs (StateTable_Remove st' a) = table_addrs st' - {a}"
proof -
  note s = StateTable_Add_spec [OF inv a add]
  then have mem: "a \<in> table_addrs st'" by auto
  let ?get = "StateTable_Get heap st' (st_SrcIP (heap ! a)) (st_DestIP (heap ! a)) (st_SrcPort (heap ! a)) (st_DestPort (heap ! a))"
  have "?get \<noteq> None" using mem state_matches_self by (auto simp: StateTable_Get_None)
  then obtain b where b: "?get = Some b" by blast
  have gone: "\<exists>gone. table_addrs st' = insert a (table_addrs st - gone) \<and>
       (gone = {} \<or> (\<exists>b. gone = {b} \<and>
          (st_State (heap ! b) = SocketTimeWait \<or> 30000000000 < now - st_t (heap ! b))))"
    using s by (auto intro: exI [of _ "{}"])
  show ?thesis
    using s mem b StateTable_Get_Some [OF b] gone StateTable_Remove_spec [of heap st' a] by blast
qed

theorem statetable_add_get_remove_witness:
  "let heap = [NewState [10, 0, 0, 1] 40000 [10, 0, 0, 2] 80 0 0 0] in
   table_addrs [Some (0 :: nat), None] = {0} \<and>
   (\<exists>b. StateTable_Get heap [Some 0, None] [10, 0, 0, 1] [10, 0, 0, 2] 40000 80 = Some b)"
proof -
  let ?heap = "[NewState [10, 0, 0, 1] 40000 [10, 0, 0, 2] 80 0 0 0]"
  have t: "table_inv ?heap [None, None]" "(0 :: nat) \<notin> table_addrs [None, None]"
    by (auto simp: table_inv_def table_addrs_def less_Suc_eq)
  have add: "StateTable_Add ?heap [None, None] 0 0 = Inr [Some 0, None]"
    by (simp add: StateTable_Add_def slot_reusable_def)
  show ?thesis
    using statetable_add_get_remove [OF t(1) _ t(2) add] by (auto simp: NewState_def table_addrs_def)
qed

text \<open>
  The table is full, and the listener panics, exactly when every slot is taken by a state
  that is neither in time-wait nor idle for more than 30 seconds.
\<close>

theorem statetable_full_iff:
  "is_panic (StateTable_Add heap st a now) \<longleftrightarrow>
     (\<forall>e \<in> set st. \<exists>b. e = Some b \<and> st_State (heap ! b) \<noteq> SocketTimeWait \<and> now - st_t (heap ! b) \<le> 30000000000)"
  by (rule StateTable_Add_panics_iff)

theorem statetable_full_iff_witness:
  "is_panic (StateTable_Add [NewState [] 1 [] 2 0 0 5] [Some 0] 1 6) \<and>
   \<not> is_panic (StateTable_Add [NewState [] 1 [] 2 0 0 5] [Some 0] 1 30000000006)"
  using statetable_full_iff [of "[NewState [] 1 [] 2 0 0 5]" "[Some 0]" 1 6]
    statetable_full_iff [of "[NewState [] 1 [] 2 0 0 5]" "[Some 0]" 1 30000000006]
  by (simp add: NewState_def)


section \<open>Sockets as byte streams\<close>

lemma NewSocket_inv: "socket_inv (NewSocket a b)"
  using rb_New_spec [of 4096] by (simp add: socket_inv_def NewSocket_def)

lemma sock_write_spec:
  assumes "socket_inv s"
  shows "\<exists>s'. sock_write s p = Inr (s', length p) \<and> socket_inv s' \<and>
    sock_closed s' = sock_closed s \<and> sock_laddr s' = sock_laddr s \<and> sock_raddr s' = sock_raddr s \<and>
    rb_list (sock_rbuffer s') = rb_list (sock_rbuffer s) @ take (4096 - length (rb_list (sock_rbuffer s))) p"
  using assms rb.enq_law [of "sock_rbuffer s" p] by (auto simp: sock_write_def socket_inv_def)

lemma sock_close_id [simp]: "sock_close s = s"
  by (simp add: sock_close_def by_value_def)

end
