(* ===== verification/Canary_Routes.thy ===== *)
theory Canary_Routes
  imports Go_Net
begin

text \<open>
  How the canary listener finds the link-layer address for a reply: the ARP cache
  (\<^verbatim>\<open>listener/canary/arpcache.go\<close>), the route table
  (\<^verbatim>\<open>listener/canary/route.go\<close>), the field splitter they share and the lookup at
  the end of \<^verbatim>\<open>Canary.send\<close>. The files are given as lists of lines;
  \<^verbatim>\<open>net.ParseIP\<close> and \<^verbatim>\<open>net.ParseMAC\<close> are arguments.
\<close>

section \<open>Splitting a line\<close>

definition is_any :: "string \<Rightarrow> char \<Rightarrow> bool" where
  "is_any t c = (c \<in> set t)"

definition countAnyByte :: "string \<Rightarrow> string \<Rightarrow> nat" where
  "countAnyByte s t = length (filter (is_any t) s)"

text \<open>\<^verbatim>\<open>a[n] = v\<close> with its bounds check.\<close>

definition put_at :: "'a list \<Rightarrow> nat \<Rightarrow> 'a \<Rightarrow> 'a list result" where
  "put_at a n v = (if n < length a then Inr (a[n := v]) else Inl (Panic IndexOutOfRange))"

fun split_loop :: "string \<Rightarrow> string \<Rightarrow> nat list \<Rightarrow> string list \<times> nat \<times> nat \<Rightarrow> (string list \<times> nat \<times> nat) result" where
  "split_loop s t [] st = Inr st"
| "split_loop s t (i # is) (a, n, lst) =
     (if is_any t (s ! i)
      then if lst < i
           then bindR (put_at a n (take (i - lst) (drop lst s))) (\<lambda>a'. split_loop s t is (a', n + 1, i + 1))
           else split_loop s t is (a, n, i + 1)
      else split_loop s t is (a, n, lst))"

definition split_finish :: "string \<Rightarrow> string list \<times> nat \<times> nat \<Rightarrow> string list result" where
  "split_finish s st = (case st of (a, n, lst) \<Rightarrow>
     bindR (if lst < length s then bindR (put_at a n (drop lst s)) (\<lambda>a'. Inr (a', n + 1)) else Inr (a, n))
       (\<lambda>(a, n). go_slice a 0 n))"

definition splitAtBytes :: "string \<Rightarrow> string \<Rightarrow> string list result" where
  "splitAtBytes s t =
     bindR (split_loop s t [0..<length s] (replicate (1 + countAnyByte s t) [], 0, 0)) (split_finish s)"

section \<open>ARP cache and routes\<close>

record ARPEntry =
  ae_IP :: ip
  ae_HardwareAddress :: mac
  ae_Interface :: string

definition ARPCache_Get :: "ARPEntry list \<Rightarrow> ip \<Rightarrow> ARPEntry option" where
  "ARPCache_Get ac p = find (\<lambda>a. ip_Equal (ae_IP a) p) ac"

fun parse_arp_lines :: "(string \<Rightarrow> ip) \<Rightarrow> (string \<Rightarrow> mac) \<Rightarrow> string list \<Rightarrow> ARPEntry list result" where
  "parse_arp_lines parseIP parseMAC [] = Inr []"
| "parse_arp_lines parseIP parseMAC (text # rest) =
     bindR (splitAtBytes text (map char_of [32 :: nat, 13, 9, 10])) (\<lambda>parts.
     bindR (parse_arp_lines parseIP parseMAC rest) (\<lambda>es.
       if length parts < 6 then Inr es
       else Inr (\<lparr>ae_IP = parseIP (parts ! 0), ae_HardwareAddress = parseMAC (parts ! 3),
                  ae_Interface = parts ! 5\<rparr> # es)))"

definition parseARPCache :: "(string \<Rightarrow> ip) \<Rightarrow> (string \<Rightarrow> mac) \<Rightarrow> string list \<Rightarrow> ARPEntry list result" where
  "parseARPCache parseIP parseMAC file_lines = parse_arp_lines parseIP parseMAC (drop 1 file_lines)"

record IPNet =
  net_IP :: ip
  net_Mask :: bytes

definition networkNumberAndMask :: "IPNet \<Rightarrow> (ip \<times> bytes) option" where
  "networkNumberAndMask n =
     (case (case To4 (net_IP n) of Some p \<Rightarrow> Some p | None \<Rightarrow> if length (net_IP n) = 16 then Some (net_IP n) else None) of
        None \<Rightarrow> None
      | Some p \<Rightarrow>
          if length (net_Mask n) = 4 then if length p = 4 then Some (p, net_Mask n) else None
          else if length (net_Mask n) = 16
          then Some (p, if length p = 4 then drop 12 (net_Mask n) else net_Mask n)
          else None)"

definition IPNet_Contains :: "IPNet \<Rightarrow> ip \<Rightarrow> bool" where
  "IPNet_Contains n p0 =
     (let p = (case To4 p0 of Some x \<Rightarrow> x | None \<Rightarrow> p0) in
      case networkNumberAndMask n of
        None \<Rightarrow> p = []
      | Some (nn, m) \<Rightarrow> length p = length nn \<and>
          list_all (\<lambda>(x, y, k). x AND k = y AND k) (zip nn (zip p m)))"

record Route =
  rt_Interface :: string
  rt_Gateway :: ip
  rt_Destination :: IPNet

definition parse_route_line :: "string list \<Rightarrow> Route result" where
  "parse_route_line parts =
     (let destination = hex_DecodeString (parts ! 1); mask = hex_DecodeString (parts ! 7);
          gateway = hex_DecodeString (parts ! 2) in
      bindR (go_at gateway 3) (\<lambda>g3. bindR (go_at gateway 2) (\<lambda>g2.
      bindR (go_at gateway 1) (\<lambda>g1. bindR (go_at gateway 0) (\<lambda>g0.
      bindR (go_at destination 0) (\<lambda>d0. bindR (go_at destination 1) (\<lambda>d1.
      bindR (go_at destination 2) (\<lambda>d2. bindR (go_at destination 3) (\<lambda>d3.
      bindR (go_at mask 0) (\<lambda>m0. bindR (go_at mask 1) (\<lambda>m1.
      bindR (go_at mask 2) (\<lambda>m2. bindR (go_at mask 3) (\<lambda>m3.
        Inr \<lparr>rt_Interface = parts ! 0, rt_Gateway = net_IPv4 g3 g2 g1 g0,
             rt_Destination = \<lparr>net_IP = net_IPv4 d0 d1 d2 d3, net_Mask = [m0, m1, m2, m3]\<rparr>\<rparr>)))))))))))))"

fun parse_route_lines :: "string list \<Rightarrow> Route list result" where
  "parse_route_lines [] = Inr []"
| "parse_route_lines (text # rest) =
     bindR (splitAtBytes text (map char_of [32 :: nat, 58, 13, 9, 10])) (\<lambda>parts.
       if length parts < 11 then parse_route_lines rest
       else bindR (parse_route_line parts) (\<lambda>r. bindR (parse_route_lines rest) (\<lambda>rs. Inr (r # rs))))"

definition parseRouteTable :: "string list \<Rightarrow> Route list result" where
  "parseRouteTable file_lines = parse_route_lines (drop 1 file_lines)"

text \<open>The lookup of \<^verbatim>\<open>send\<close>: the ARP entry of the address, else that of the gateway of the first route.\<close>

definition resolve :: "ARPEntry list \<Rightarrow> Route list \<Rightarrow> ip \<Rightarrow> ARPEntry option" where
  "resolve ac rt dst = (case ARPCache_Get ac dst of
     Some ae \<Rightarrow> Some ae
   | None \<Rightarrow> (case find (\<lambda>r. IPNet_Contains (rt_Destination r) dst) rt of
       None \<Rightarrow> None
     | Some r \<Rightarrow> ARPCache_Get ac (rt_Gateway r)))"

section \<open>Properties\<close>

text \<open>The fields of a string, without the empty ones.\<close>

fun fields_acc :: "string \<Rightarrow> string \<Rightarrow> string \<Rightarrow> string list" where
  "fields_acc t cur [] = (if cur = [] then [] else [cur])"
| "fields_acc t cur (c # cs) =
     (if c \<in> set t then (if cur = [] then [] else [cur]) @ fields_acc t [] cs
      else fields_acc t (cur @ [c]) cs)"

lemma split_loop_fields:
  assumes "i \<le> length s" "lst \<le> i" "n + countAnyByte (drop i s) t < length a"
  shows "bindR (split_loop s t [i..<length s] (a, n, lst)) (split_finish s) =
    Inr (take n a @ fields_acc t (take (i - lst) (drop lst s)) (drop i s))"
  using assms
proof (induction arbitrary: a n lst rule: inc_induct)
  case base
  then show ?case
    by (auto simp: split_finish_def put_at_def take_Suc_conv_app_nth)
next
  case (step i)
  have d: "drop i s = s ! i # drop (Suc i) s" using step.hyps by (simp add: Cons_nth_drop_Suc)
  have cur: "take (Suc i - lst) (drop lst s) = take (i - lst) (drop lst s) @ [s ! i]"
    using step.hyps step.prems by (simp add: Suc_diff_le take_Suc_conv_app_nth)
  show ?case
  proof (cases "is_any t (s ! i)")
    case False
    then have c: "countAnyByte (drop i s) t = countAnyByte (drop (Suc i) s) t"
      by (simp add: d countAnyByte_def)
    then show ?thesis
      using False step.hyps step.prems step.IH [of lst n a] cur
      by (simp add: upt_conv_Cons d is_any_def)
  next
    case True
    then have c: "countAnyByte (drop i s) t = Suc (countAnyByte (drop (Suc i) s) t)"
      by (simp add: d countAnyByte_def)
    show ?thesis
    proof (cases "lst < i")
      case lt: True
      have n: "n < length a" using step.prems by simp
      let ?a = "a[n := take (i - lst) (drop lst s)]"
      have "bindR (split_loop s t [Suc i..<length s] (?a, Suc n, Suc i)) (split_finish s) =
          Inr (take (Suc n) ?a @ fields_acc t [] (drop (Suc i) s))"
        using step.IH [of "Suc i" "Suc n" ?a] step.hyps step.prems c by simp
      moreover have "take (Suc n) ?a = take n a @ [take (i - lst) (drop lst s)]"
        using n by (simp add: take_Suc_conv_app_nth)
      moreover have "take (i - lst) (drop lst s) \<noteq> []" using lt step.hyps by simp
      ultimately show ?thesis
        using True lt step.hyps n by (simp add: upt_conv_Cons d is_any_def put_at_def)
    next
      case False
      then show ?thesis
        using True step.IH [of "Suc i" n a] step.hyps step.prems c
        by (simp add: upt_conv_Cons d is_any_def)
    qed
  qed
qed

text \<open>
  \<^verbatim>\<open>splitAtBytes\<close> never runs out of the array it sized by
  \<^verbatim>\<open>countAnyByte\<close>, and returns the non-empty fields of the line in order.
\<close>

theorem splitAtBytes_fields: "splitAtBytes s t = Inr (fields_acc t [] s)"
  using split_loop_fields [of 0 s 0 0 t "replicate (1 + countAnyByte s t) []"]
  by (simp add: splitAtBytes_def)

lemma list_4_nth: "length xs = 4 \<Longrightarrow> xs = [xs ! 0, xs ! 1, xs ! 2, xs ! 3]"
  by (auto simp: length_Suc_conv numeral_eq_Suc)

text \<open>
  The byte order of a parsed route. The gateway is read in the reversed byte order of
  \<^verbatim>\<open>/proc/net/route\<close>, but the destination and its mask are not: the first byte of
  the field, which is the last byte of the network, is compared with the first byte of the
  address.
\<close>

theorem route_byte_order:
  assumes "length (hex_DecodeString (parts ! 1)) = 4" "length (hex_DecodeString (parts ! 2)) = 4"
    "length (hex_DecodeString (parts ! 7)) = 4"
  shows "\<exists>r. parse_route_line parts = Inr r \<and>
    To4 (rt_Gateway r) = Some (rev (hex_DecodeString (parts ! 2))) \<and>
    (IPNet_Contains (rt_Destination r) (net_IPv4 a b c d) \<longleftrightarrow>
      (\<forall>i < 4. [a, b, c, d] ! i AND hex_DecodeString (parts ! 7) ! i =
         hex_DecodeString (parts ! 1) ! i AND hex_DecodeString (parts ! 7) ! i))"
proof -
  define ds where "ds = hex_DecodeString (parts ! 1)"
  define gs where "gs = hex_DecodeString (parts ! 2)"
  define ms where "ms = hex_DecodeString (parts ! 7)"
  have l: "length ds = 4" "length gs = 4" "length ms = 4" using assms by (simp_all add: ds_def gs_def ms_def)
  let ?r = "\<lparr>rt_Interface = parts ! 0, rt_Gateway = net_IPv4 (gs ! 3) (gs ! 2) (gs ! 1) (gs ! 0),
     rt_Destination = \<lparr>net_IP = net_IPv4 (ds ! 0) (ds ! 1) (ds ! 2) (ds ! 3), net_Mask = [ms ! 0, ms ! 1, ms ! 2, ms ! 3]\<rparr>\<rparr>"
  have "parse_route_line parts = Inr ?r"
    unfolding parse_route_line_def ds_def [symmetric] gs_def [symmetric] ms_def [symmetric] Let_def
    using l by simp
  moreover have "To4 (rt_Gateway ?r) = Some (rev gs)"
    using list_4_nth [OF l(2)] by (simp, metis append_Cons append_Nil rev.simps)
  moreover have "IPNet_Contains (rt_Destination ?r) (net_IPv4 a b c d) \<longleftrightarrow>
      (\<forall>i < 4. [a, b, c, d] ! i AND ms ! i = ds ! i AND ms ! i)"
    by (auto simp: IPNet_Contains_def networkNumberAndMask_def All_less_Suc2 numeral_eq_Suc)
  ultimately show ?thesis by (auto simp: ds_def gs_def ms_def)
qed

text \<open>The line of \<^verbatim>\<open>192.168.0.0/24\<close> gives a route that does not contain \<^verbatim>\<open>192.168.0.5\<close>.\<close>

theorem route_byte_order_witness:
  "\<exists>r. parse_route_line [''eth0'', ''0000A8C0'', ''0100A8C0'', ''0001'', ''0'', ''0'', ''0'', ''00FFFFFF''] = Inr r \<and>
     To4 (rt_Gateway r) = Some [192, 168, 0, 1] \<and>
     \<not> IPNet_Contains (rt_Destination r) (net_IPv4 192 168 0 5)"
proof -
  let ?parts = "[''eth0'', ''0000A8C0'', ''0100A8C0'', ''0001'', ''0'', ''0'', ''0'', ''00FFFFFF'']"
  have d: "hex_DecodeString (?parts ! 1) = [0, 0, 168, 192]" "hex_DecodeString (?parts ! 2) = [1, 0, 168, 192]"
    "hex_DecodeString (?parts ! 7) = [0, 255, 255, 255]"
    by (simp_all add: hex_val_def)
  have ex: "\<exists>i < 4. [192, 168, 0, 5] ! i AND [0, 255, 255, 255] ! i \<noteq> [0, 0, 168, 192] ! i AND ([0, 255, 255, 255] ! i :: byte)"
    by (rule exI [of _ 1]) simp
  show ?thesis
    using route_byte_order [of ?parts 192 168 0 5] ex unfolding d by auto
qed

end
