(* ===== verification/Unique_Set.thy ===== *)
theory Unique_Set
  imports Go_Prelude
begin

text \<open>
  The \<^verbatim>\<open>UniqueSet\<close> of \<^verbatim>\<open>listener/canary/unique-set.go\<close>: a slice of
  interface values with a caller-supplied equality. \<^verbatim>\<open>Remove\<close> shifts the
  elements inside the array that \<^verbatim>\<open>Each\<close> is ranging over, so the model keeps the
  backing array and the length of the slice apart: \<open>us_arr\<close> are the cells, \<open>None\<close> is
  the nil interface.
\<close>

record 'a UniqueSet =
  us_arr :: "'a option list"
  us_len :: nat

definition us_items :: "'a UniqueSet \<Rightarrow> 'a option list" where
  "us_items us = take (us_len us) (us_arr us)"

definition NewUniqueSet :: "'a UniqueSet" where
  "NewUniqueSet = \<lparr>us_arr = [], us_len = 0\<rparr>"

definition us_Count :: "'a UniqueSet \<Rightarrow> nat" where
  "us_Count us = us_len us"

text \<open>The equality gets an item of the slice, which may be nil; a type assertion in it may panic.\<close>

type_synonym 'a equalFn = "'a \<Rightarrow> 'a option \<Rightarrow> bool result"

fun us_find_equal :: "'a equalFn \<Rightarrow> 'a \<Rightarrow> 'a option list \<Rightarrow> 'a option option result" where
  "us_find_equal fn item [] = Inr None"
| "us_find_equal fn item (item2 # rest) =
     bindR (fn item item2) (\<lambda>same. if same then Inr (Some item2) else us_find_equal fn item rest)"

definition us_append :: "'a UniqueSet \<Rightarrow> 'a \<Rightarrow> 'a UniqueSet" where
  "us_append us item =
     \<lparr>us_arr = us_items us @ [Some item] @ drop (us_len us + 1) (us_arr us), us_len = us_len us + 1\<rparr>"

definition us_Add :: "'a equalFn \<Rightarrow> 'a UniqueSet \<Rightarrow> 'a \<Rightarrow> ('a UniqueSet \<times> 'a option) result" where
  "us_Add fn us item =
     bindR (us_find_equal fn item (us_items us)) (\<lambda>found.
       case found of
         Some item2 \<Rightarrow> Inr (us, item2)
       | None \<Rightarrow> Inr (us_append us item, Some item))"

fun us_index :: "'a \<Rightarrow> 'a option list \<Rightarrow> nat option" where
  "us_index item [] = None"
| "us_index item (item2 # rest) =
     (if Some item = item2 then Some 0 else map_option Suc (us_index item rest))"

text \<open>
  \<^verbatim>\<open>items[i] = nil\<close>, then \<^verbatim>\<open>append(items[:i], items[i+1:]...)\<close>, which
  moves the tail one cell down inside the same array; the last cell keeps its value.
\<close>

definition us_remove_at :: "'a UniqueSet \<Rightarrow> nat \<Rightarrow> 'a UniqueSet" where
  "us_remove_at us i =
     (let arr = (us_arr us)[i := None]; n = us_len us in
      \<lparr>us_arr = take i arr @ take (n - 1 - i) (drop (i + 1) arr) @ drop (n - 1) arr, us_len = n - 1\<rparr>)"

definition us_Remove :: "'a UniqueSet \<Rightarrow> 'a \<Rightarrow> 'a UniqueSet" where
  "us_Remove us item =
     (case us_index item (us_items us) of None \<Rightarrow> us | Some i \<Rightarrow> us_remove_at us i)"

text \<open>
  \<^verbatim>\<open>Each\<close> fixes the length once and reads the cells of the array as the loop reaches
  them. The callback changes a state \<open>'s\<close> from which \<open>arr\<close> takes the array.
\<close>

fun us_each_loop :: "('s \<Rightarrow> 'a option list) \<Rightarrow> (nat \<Rightarrow> 'a option \<Rightarrow> 's \<Rightarrow> 's result) \<Rightarrow> nat list \<Rightarrow> 's \<Rightarrow> 's result" where
  "us_each_loop arr fn [] s = Inr s"
| "us_each_loop arr fn (i # is) s =
     bindR (go_at (arr s) i) (\<lambda>item. bindR (fn i item s) (us_each_loop arr fn is))"

definition us_Each :: "('s \<Rightarrow> 'a UniqueSet) \<Rightarrow> (nat \<Rightarrow> 'a option \<Rightarrow> 's \<Rightarrow> 's result) \<Rightarrow> 's \<Rightarrow> 's result" where
  "us_Each get fn s = us_each_loop (\<lambda>s. us_arr (get s)) fn [0..<us_len (get s)] s"

definition us_Find :: "('a option \<Rightarrow> bool) \<Rightarrow> 'a UniqueSet \<Rightarrow> 'a option" where
  "us_Find fn us = (case find fn (us_items us) of Some item \<Rightarrow> item | None \<Rightarrow> None)"

section \<open>Invariant and abstraction\<close>

definition us_inv :: "'a UniqueSet \<Rightarrow> bool" where
  "us_inv us \<longleftrightarrow> us_len us \<le> length (us_arr us) \<and> None \<notin> set (us_items us)"

definition us_list :: "'a UniqueSet \<Rightarrow> 'a list" where
  "us_list us = map the (us_items us)"

lemma us_items_list: "us_inv us \<Longrightarrow> us_items us = map Some (us_list us)"
  by (auto simp: us_list_def us_inv_def comp_def intro!: nth_equalityI)
    (metis nth_mem option.collapse)

lemma us_len_list: "us_inv us \<Longrightarrow> us_len us = length (us_list us)"
  by (simp add: us_list_def us_inv_def us_items_def)

lemma us_inv_intro:
  "us_len us \<le> length (us_arr us) \<Longrightarrow> us_items us = map Some xs \<Longrightarrow> us_inv us \<and> us_list us = xs"
  by (auto simp: us_inv_def us_list_def)

lemma us_New: "us_inv NewUniqueSet" "us_list NewUniqueSet = []"
  by (simp_all add: us_inv_def us_list_def us_items_def NewUniqueSet_def)

lemma us_append_spec:
  assumes "us_inv us"
  shows "us_inv (us_append us x) \<and> us_list (us_append us x) = us_list us @ [x]"
proof (rule us_inv_intro)
  show "us_len (us_append us x) \<le> length (us_arr (us_append us x))"
    using assms by (auto simp: us_append_def us_inv_def us_items_def)
  show "us_items (us_append us x) = map Some (us_list us @ [x])"
    using us_items_list [OF assms] us_len_list [OF assms]
    by (simp add: us_append_def us_items_def)
qed

lemma find_SomeD: "find P xs = Some y \<Longrightarrow> P y \<and> y \<in> set xs"
  by (induction xs) (auto split: if_splits)

lemma takeWhile_neq_less: "x \<in> set xs \<Longrightarrow> length (takeWhile (\<lambda>y. y \<noteq> x) xs) < length xs"
  by (induction xs) auto

lemma us_index_map: "us_index x (map Some xs) = (if x \<in> set xs then Some (length (takeWhile (\<lambda>y. y \<noteq> x) xs)) else None)"
  by (induction xs) auto

lemma us_remove_at_spec:
  assumes "us_inv us" "i < us_len us"
  shows "us_inv (us_remove_at us i) \<and>
    us_list (us_remove_at us i) = take i (us_list us) @ drop (i + 1) (us_list us)"
proof (rule us_inv_intro)
  let ?n = "us_len us" and ?a = "us_arr us"
  have len: "?n \<le> length ?a" using assms by (simp add: us_inv_def)
  show "us_len (us_remove_at us i) \<le> length (us_arr (us_remove_at us i))"
    using len assms(2) by (simp add: us_remove_at_def Let_def)
  have "us_items (us_remove_at us i) = take i ?a @ take (?n - 1 - i) (drop (i + 1) ?a)"
    using len assms(2) by (simp add: us_remove_at_def Let_def us_items_def)
  also have "\<dots> = take i (us_items us) @ drop (i + 1) (us_items us)"
    using assms(2) by (simp add: us_items_def drop_take min_def)
  finally show "us_items (us_remove_at us i) = map Some (take i (us_list us) @ drop (i + 1) (us_list us))"
    by (simp add: us_items_list [OF assms(1)] take_map drop_map)
qed

lemma us_Remove_spec:
  assumes "us_inv us"
  shows "us_inv (us_Remove us x) \<and> us_list (us_Remove us x) = remove1 x (us_list us)"
proof (cases "x \<in> set (us_list us)")
  case True
  let ?i = "length (takeWhile (\<lambda>y. y \<noteq> x) (us_list us))"
  have "?i < length (us_list us)"
    using True by (rule takeWhile_neq_less)
  then have "us_inv (us_remove_at us ?i) \<and>
      us_list (us_remove_at us ?i) = take ?i (us_list us) @ drop (?i + 1) (us_list us)"
    using us_remove_at_spec [OF assms] us_len_list [OF assms] by simp
  moreover have "take ?i xs @ drop (?i + 1) xs = remove1 x xs" if "x \<in> set xs" "xs = us_list us" for xs
    using that(1) unfolding that(2) [symmetric] by (induction xs) auto
  ultimately show ?thesis
    using True by (simp add: us_Remove_def us_items_list [OF assms] us_index_map)
next
  case False
  then show ?thesis
    using assms by (simp add: us_Remove_def us_items_list us_index_map remove1_idem)
qed

text \<open>
  What \<^verbatim>\<open>Remove\<close> of the element in cell \<open>i\<close> does to the cells behind it, also when
  the slice has become shorter than \<open>i\<close>: each keeps its value or takes that of its
  successor inside the slice. So a loop that is at cell \<open>i\<close> never meets the nil it wrote.
\<close>

lemma us_Remove_cells:
  assumes "us_inv us" "i < j" "j < length (us_arr us)" "us_arr us ! i = Some x"
  shows "length (us_arr (us_Remove us x)) = length (us_arr us) \<and> us_len (us_Remove us x) \<le> us_len us \<and>
    (us_arr (us_Remove us x) ! j = us_arr us ! j \<or>
     j + 1 < us_len us \<and> us_arr (us_Remove us x) ! j = us_arr us ! (j + 1))"
proof (cases "x \<in> set (us_list us)")
  case False
  then show ?thesis
    using assms by (simp add: us_Remove_def us_items_list us_index_map)
next
  case True
  let ?p = "length (takeWhile (\<lambda>y. y \<noteq> x) (us_list us))"
  have len: "us_len us \<le> length (us_arr us)" using assms(1) by (simp add: us_inv_def)
  have p: "?p < us_len us"
    using takeWhile_neq_less [OF True] us_len_list [OF assms(1)] by simp
  have "?p \<le> i"
  proof (rule ccontr)
    assume "\<not> ?p \<le> i"
    then have "us_list us ! i \<noteq> x"
      by (metis (mono_tags, lifting) not_le nth_mem set_takeWhileD takeWhile_nth)
    moreover have "us_list us ! i = x"
      using \<open>\<not> ?p \<le> i\<close> p len assms(4) by (simp add: us_list_def us_items_def)
    ultimately show False by simp
  qed
  then show ?thesis
    using True p len assms(2,3)
    by (auto simp: us_Remove_def us_items_list [OF assms(1)] us_index_map us_remove_at_def Let_def
        nth_append less_diff_conv)
qed

lemma us_Remove_arr:
  assumes "us_inv us"
  shows "length (us_arr (us_Remove us x)) = length (us_arr us)" "us_len (us_Remove us x) \<le> us_len us"
proof -
  have len: "us_len us \<le> length (us_arr us)" using assms by (simp add: us_inv_def)
  have at: "length (us_arr (us_remove_at us i)) = length (us_arr us)" "us_len (us_remove_at us i) \<le> us_len us"
    if "i < us_len us" for i
    using that len by (simp_all add: us_remove_at_def Let_def)
  have "length (takeWhile (\<lambda>y. y \<noteq> x) (us_list us)) < us_len us" if "x \<in> set (us_list us)"
    using takeWhile_neq_less [OF that] us_len_list [OF assms] by simp
  then show "length (us_arr (us_Remove us x)) = length (us_arr us)" "us_len (us_Remove us x) \<le> us_len us"
    using at by (simp_all add: us_Remove_def us_items_list [OF assms] us_index_map)
qed

text \<open>A callback that leaves the array alone sees every element once, in order.\<close>

lemma us_each_loop_unchanged:
  assumes "\<And>i item s s'. fn i item s = Inr s' \<Longrightarrow> arr s' = arr s"
    and "\<forall>i \<in> set is. i < length (arr s)"
  shows "us_each_loop arr fn is s = fold (\<lambda>(i, item) m. bindR m (fn i item)) (map (\<lambda>i. (i, arr s ! i)) is) (Inr s)"
proof -
  have Inl: "fold (\<lambda>(i, item) m. bindR m (fn i item)) xs (Inl e) = Inl e" for xs e
    by (induction xs) auto
  show ?thesis using assms(2)
  proof (induction "is" arbitrary: s)
    case (Cons i "is")
    show ?case
    proof (cases "fn i (arr s ! i) s")
      case (Inr s')
      then have "arr s' = arr s" by (rule assms(1))
      then show ?thesis using Cons Inr by simp
    qed (use Cons.prems Inl in simp)
  qed simp
qed

section \<open>The contract of an equality\<close>

text \<open>
  What \<^verbatim>\<open>Add\<close> needs of a caller's equality: on non-nil items it returns (does
  not panic) and decides a symmetric and transitive relation.
\<close>

locale unique_func =
  fixes fn :: "'a equalFn" and rel :: "'a \<Rightarrow> 'a \<Rightarrow> bool"
  assumes fn_Some: "fn x (Some y) = Inr (rel x y)"
    and rel_sym: "rel x y \<Longrightarrow> rel y x"
    and rel_trans: "rel x y \<Longrightarrow> rel y z \<Longrightarrow> rel x z"
begin

lemma find_equal: "us_find_equal fn x (map Some xs) = Inr (map_option Some (find (rel x) xs))"
  by (induction xs) (auto simp: fn_Some)

lemma add_found:
  assumes "us_inv us" "find (rel x) (us_list us) = Some y"
  shows "us_Add fn us x = Inr (us, Some y)"
  using assms by (simp add: us_Add_def us_items_list find_equal)

lemma add_new:
  assumes "us_inv us" "find (rel x) (us_list us) = None"
  shows "us_Add fn us x = Inr (us_append us x, Some x)"
  using assms by (simp add: us_Add_def us_items_list find_equal)

lemma add_unique:
  assumes "us_inv us" "us_Add fn us x = Inr (us', y)" "sorted_wrt (\<lambda>a b. \<not> rel a b) (us_list us)"
  shows "us_inv us' \<and> sorted_wrt (\<lambda>a b. \<not> rel a b) (us_list us')"
proof (cases "find (rel x) (us_list us)")
  case None
  then have "\<forall>a \<in> set (us_list us). \<not> rel a x"
    using rel_sym by (auto simp: find_None_iff)
  with None show ?thesis
    using assms us_append_spec [OF assms(1), of x] add_new [OF assms(1)]
    by (auto simp: sorted_wrt_append)
next
  case (Some z)
  then show ?thesis using assms add_found by auto
qed

lemma remove_unique:
  assumes "us_inv us" "sorted_wrt (\<lambda>a b. \<not> rel a b) (us_list us)"
  shows "us_inv (us_Remove us x) \<and> sorted_wrt (\<lambda>a b. \<not> rel a b) (us_list (us_Remove us x))"
proof -
  have "sorted_wrt (\<lambda>a b. \<not> rel a b) xs \<Longrightarrow> sorted_wrt (\<lambda>a b. \<not> rel a b) (remove1 x xs)" for xs
    by (induction xs) (auto dest: subsetD [OF set_remove1_subset])
  then show ?thesis using us_Remove_spec [OF assms(1), of x] assms(2) by auto
qed

text \<open>Adding a related item again returns the first one and changes nothing.\<close>

lemma add_again:
  assumes "us_inv us" "us_Add fn us x = Inr (us', Some y)" "rel x x" "rel x' x"
    and "\<forall>a \<in> set (us_list us'). rel a a"
  shows "\<exists>z. us_Add fn us' x' = Inr (us', Some z) \<and> rel x' z"
proof (cases "find (rel x) (us_list us)")
  case None
  then have us': "us_inv us'" "x \<in> set (us_list us')"
    using assms us_append_spec [OF assms(1), of x] by (auto simp: add_new)
  then obtain z where "find (rel x') (us_list us') = Some z"
    using assms(4) by (metis find_None_iff option.exhaust)
  then show ?thesis using add_found [OF us'(1)] by (auto dest: find_SomeD)
next
  case (Some z)
  then have eq: "us' = us" "rel x z" "z \<in> set (us_list us)"
    using assms(1,2) add_found by (auto dest: find_SomeD)
  then have "rel x' z" using assms(4) rel_trans by blast
  then obtain z' where "find (rel x') (us_list us) = Some z'"
    using eq(3) by (metis find_None_iff option.exhaust)
  then show ?thesis using add_found [OF assms(1)] eq(1) by (auto dest: find_SomeD)
qed

end

end
