(* ===== verification/Knock_Detector.thy ===== *)
theory Knock_Detector
  imports Unique_Set Go_Net "HOL-Library.Sublist"
begin

text \<open>
  The port-scan detector of \<^verbatim>\<open>listener/canary/knock.go\<close>. Knocks arrive on a
  channel and are gathered in groups by source, destination and protocol; a tick every
  five seconds reports groups that have gone quiet. The set of groups holds pointers, so
  the model has a heap of groups and the set holds addresses. Channel receives and timer
  ticks are the steps of a transition system; the clock readings are arguments.
\<close>

datatype Protocol = ProtocolTCP | ProtocolUDP | ProtocolICMP

datatype Knock =
    KnockUDPPort (k_SourceHardwareAddr: mac) (k_DestinationHardwareAddr: mac)
      (k_SourceIP: ip) (k_DestinationIP: ip) (k_DestinationPort: u16)
  | KnockTCPPort (k_SourceHardwareAddr: mac) (k_DestinationHardwareAddr: mac)
      (k_SourceIP: ip) (k_DestinationIP: ip) (k_DestinationPort: u16)
  | KnockICMP (k_SourceHardwareAddr: mac) (k_DestinationHardwareAddr: mac)
      (k_SourceIP: ip) (k_DestinationIP: ip)

text \<open>The closures passed to \<^verbatim>\<open>NewUniqueSet\<close> by the three \<^verbatim>\<open>NewGroup\<close> methods.\<close>

datatype knock_closure = UDPPortEqual | TCPPortEqual | ICMPEqual

fun knock_same :: "knock_closure \<Rightarrow> Knock \<Rightarrow> Knock \<Rightarrow> bool" where
  "knock_same UDPPortEqual (KnockUDPPort _ _ _ _ p1) (KnockUDPPort _ _ _ _ p2) = (p1 = p2)"
| "knock_same TCPPortEqual (KnockTCPPort _ _ _ _ p1) (KnockTCPPort _ _ _ _ p2) = (p1 = p2)"
| "knock_same ICMPEqual (KnockICMP _ _ _ _) (KnockICMP _ _ _ _) = True"
| "knock_same _ _ _ = False"

definition knock_fn :: "knock_closure \<Rightarrow> Knock equalFn" where
  "knock_fn c v1 v2 = (case v2 of None \<Rightarrow> Inr False | Some k2 \<Rightarrow> Inr (knock_same c v1 k2))"

record KnockGroup =
  kg_Start :: int
  kg_Last :: int
  kg_SourceHardwareAddr :: mac
  kg_DestinationHardwareAddr :: mac
  kg_SourceIP :: ip
  kg_DestinationIP :: ip
  kg_Protocol :: Protocol
  kg_Count :: int
  kg_Knocks :: "Knock UniqueSet"
  kg_uniqueFunc :: knock_closure

text \<open>
  The UDP constructor does not set \<^verbatim>\<open>Protocol\<close>, which therefore is the zero value,
  \<^verbatim>\<open>ProtocolTCP\<close>.
\<close>

definition new_group :: "Knock \<Rightarrow> Protocol \<Rightarrow> knock_closure \<Rightarrow> int \<Rightarrow> KnockGroup" where
  "new_group k proto c now =
     \<lparr>kg_Start = now, kg_Last = 0,
      kg_SourceHardwareAddr = k_SourceHardwareAddr k,
      kg_DestinationHardwareAddr = k_DestinationHardwareAddr k,
      kg_SourceIP = k_SourceIP k, kg_DestinationIP = k_DestinationIP k,
      kg_Protocol = proto, kg_Count = 0, kg_Knocks = NewUniqueSet, kg_uniqueFunc = c\<rparr>"

definition NewGroup :: "Knock \<Rightarrow> int \<Rightarrow> KnockGroup" where
  "NewGroup k now = (case k of
     KnockUDPPort _ _ _ _ _ \<Rightarrow> new_group k ProtocolTCP UDPPortEqual now
   | KnockTCPPort _ _ _ _ _ \<Rightarrow> new_group k ProtocolTCP TCPPortEqual now
   | KnockICMP _ _ _ _ \<Rightarrow> new_group k ProtocolICMP ICMPEqual now)"

definition group_same :: "KnockGroup \<Rightarrow> KnockGroup \<Rightarrow> bool" where
  "group_same k1 k2 \<longleftrightarrow>
     kg_Protocol k1 = kg_Protocol k2 \<and>
     kg_SourceHardwareAddr k1 = kg_SourceHardwareAddr k2 \<and>
     kg_DestinationHardwareAddr k1 = kg_DestinationHardwareAddr k2 \<and>
     ip_Equal (kg_SourceIP k1) (kg_SourceIP k2) \<and>
     ip_Equal (kg_DestinationIP k1) (kg_DestinationIP k2)"

text \<open>The equality of the outer set asserts the type of both pointers.\<close>

definition group_fn :: "KnockGroup list \<Rightarrow> nat equalFn" where
  "group_fn heap v1 v2 = (case v2 of
     None \<Rightarrow> Inl (Panic TypeAssertion)
   | Some b \<Rightarrow> Inr (group_same (heap ! v1) (heap ! b)))"

text \<open>The event of a tick; its message text is made of these fields.\<close>

record portscan =
  ps_SourceHardwareAddr :: mac
  ps_DestinationHardwareAddr :: mac
  ps_SourceIP :: ip
  ps_DestinationIP :: ip
  ps_ports :: "string list"
  ps_duration :: int
  ps_count :: int

record knock_state =
  ks_heap :: "KnockGroup list"
  ks_knocks :: "nat UniqueSet"
  ks_sent :: "portscan list"

definition knock_init :: knock_state where
  "knock_init = \<lparr>ks_heap = [], ks_knocks = NewUniqueSet, ks_sent = []\<rparr>"

text \<open>\<^verbatim>\<open>case sk := <-c.knockChan\<close>; \<open>t1\<close> and \<open>t2\<close> are the two clock readings.\<close>

definition knock_recv :: "knock_state \<Rightarrow> Knock \<Rightarrow> int \<Rightarrow> int \<Rightarrow> knock_state result" where
  "knock_recv st sk t1 t2 =
     (let heap = ks_heap st @ [NewGroup sk t1] in
      bindR (us_Add (group_fn heap) (ks_knocks st) (length (ks_heap st))) (\<lambda>(knocks, v).
        case v of
          None \<Rightarrow> Inl (Panic TypeAssertion)
        | Some a \<Rightarrow>
            let knock = (heap ! a)\<lparr>kg_Count := kg_Count (heap ! a) + 1, kg_Last := t2\<rparr> in
            bindR (us_Add (knock_fn (kg_uniqueFunc knock)) (kg_Knocks knock) sk) (\<lambda>(ks, _).
              Inr (st\<lparr>ks_heap := heap[a := knock\<lparr>kg_Knocks := ks\<rparr>], ks_knocks := knocks\<rparr>))))"

definition port_string :: "Knock \<Rightarrow> string" where
  "port_string k = (case k of
     KnockTCPPort _ _ _ _ p \<Rightarrow> ''tcp/'' @ itoa (unat p)
   | KnockUDPPort _ _ _ _ p \<Rightarrow> ''udp/'' @ itoa (unat p)
   | KnockICMP _ _ _ _ \<Rightarrow> ''icmp'')"

definition set_port :: "nat \<Rightarrow> Knock option \<Rightarrow> string list \<Rightarrow> string list result" where
  "set_port i v ports = (case v of
     None \<Rightarrow> Inr ports
   | Some k \<Rightarrow> if i < length ports then Inr (ports[i := port_string k]) else Inl (Panic IndexOutOfRange))"

definition knock_ports :: "Knock UniqueSet \<Rightarrow> string list result" where
  "knock_ports us = us_Each (\<lambda>_. us) set_port (replicate (us_Count us) [])"

definition seconds :: "int \<Rightarrow> int" where
  "seconds n = n * 1000000000"

text \<open>The function that a tick runs on each group; the deferred \<^verbatim>\<open>Remove\<close> comes last.\<close>

definition knock_visit :: "int \<Rightarrow> nat \<Rightarrow> nat option \<Rightarrow> knock_state \<Rightarrow> knock_state result" where
  "knock_visit now i v st = (case v of
     None \<Rightarrow> Inl (Panic TypeAssertion)
   | Some a \<Rightarrow>
      let k = ks_heap st ! a in
      if \<not> 100 < kg_Count k \<and> now < kg_Last k + seconds 5 then Inr st
      else
       bindR (knock_ports (kg_Knocks k)) (\<lambda>ports.
         let st1 = st\<lparr>ks_sent := ks_sent st @
               [\<lparr>ps_SourceHardwareAddr = kg_SourceHardwareAddr k,
                 ps_DestinationHardwareAddr = kg_DestinationHardwareAddr k,
                 ps_SourceIP = kg_SourceIP k, ps_DestinationIP = kg_DestinationIP k,
                 ps_ports = ports, ps_duration = kg_Last k - kg_Start k, ps_count = kg_Count k\<rparr>]\<rparr>
         in Inr (if now < kg_Last k + seconds 60
                 then st1\<lparr>ks_knocks := us_Remove (ks_knocks st1) a\<rparr> else st1)))"

definition knock_tick :: "knock_state \<Rightarrow> int \<Rightarrow> knock_state result" where
  "knock_tick st now = us_Each ks_knocks (knock_visit now) st"

inductive knock_step :: "knock_state \<Rightarrow> knock_state \<Rightarrow> bool" where
  recv: "knock_recv st sk t1 t2 = Inr st' \<Longrightarrow> knock_step st st'"
| tick: "knock_tick st now = Inr st' \<Longrightarrow> knock_step st st'"

inductive knock_reachable :: "knock_state \<Rightarrow> bool" where
  init: "knock_reachable knock_init"
| step: "knock_reachable st \<Longrightarrow> knock_step st st' \<Longrightarrow> knock_reachable st'"

section \<open>Invariant\<close>

definition group_inv :: "KnockGroup \<Rightarrow> bool" where
  "group_inv g \<longleftrightarrow> us_inv (kg_Knocks g) \<and> int (length (us_list (kg_Knocks g))) \<le> kg_Count g \<and>
     (\<forall>k \<in> set (us_list (kg_Knocks g)). group_same (NewGroup k 0) g)"

definition knock_inv :: "knock_state \<Rightarrow> bool" where
  "knock_inv st \<longleftrightarrow> us_inv (ks_knocks st) \<and> distinct (us_list (ks_knocks st)) \<and>
     (\<forall>a \<in> set (us_list (ks_knocks st)). a < length (ks_heap st)) \<and>
     sorted_wrt (\<lambda>a b. \<not> group_same (ks_heap st ! a) (ks_heap st ! b)) (us_list (ks_knocks st)) \<and>
     (\<forall>g \<in> set (ks_heap st). group_inv g)"

definition knock_due :: "int \<Rightarrow> KnockGroup \<Rightarrow> bool" where
  "knock_due now k \<longleftrightarrow> 100 < kg_Count k \<or> kg_Last k + seconds 5 \<le> now"

definition knock_recent :: "int \<Rightarrow> KnockGroup \<Rightarrow> bool" where
  "knock_recent now k \<longleftrightarrow> now < kg_Last k + seconds 60"

definition knock_event :: "KnockGroup \<Rightarrow> portscan" where
  "knock_event k =
     \<lparr>ps_SourceHardwareAddr = kg_SourceHardwareAddr k,
      ps_DestinationHardwareAddr = kg_DestinationHardwareAddr k,
      ps_SourceIP = kg_SourceIP k, ps_DestinationIP = kg_DestinationIP k,
      ps_ports = map port_string (us_list (kg_Knocks k)),
      ps_duration = kg_Last k - kg_Start k, ps_count = kg_Count k\<rparr>"

text \<open>
  The invariant of the loop of a tick that started in \<open>st0\<close> with \<open>n\<close> groups, before it
  reads cell \<open>i\<close>: the set has lost elements only, every cell still to be read holds a
  group of the original set, and the events sent are of groups that were due.
\<close>

definition tick_inv :: "int \<Rightarrow> nat \<Rightarrow> knock_state \<Rightarrow> nat \<Rightarrow> knock_state \<Rightarrow> bool" where
  "tick_inv now n st0 i st \<longleftrightarrow>
     ks_heap st = ks_heap st0 \<and> us_inv (ks_knocks st) \<and>
     n \<le> length (us_arr (ks_knocks st)) \<and> us_len (ks_knocks st) \<le> n \<and>
     subseq (us_list (ks_knocks st)) (us_list (ks_knocks st0)) \<and>
     (\<forall>j. i \<le> j \<and> j < n \<longrightarrow> (\<exists>a \<in> set (us_list (ks_knocks st0)). us_arr (ks_knocks st) ! j = Some a)) \<and>
     (\<exists>as. ks_sent st = ks_sent st0 @ map (\<lambda>a. knock_event (ks_heap st0 ! a)) as \<and>
        (\<forall>a \<in> set as. a \<in> set (us_list (ks_knocks st0)) \<and> knock_due now (ks_heap st0 ! a)))"

section \<open>Lemmas\<close>

lemma ip_Equal_trans: "ip_Equal p q \<Longrightarrow> ip_Equal q r \<Longrightarrow> ip_Equal p r"
  by (auto simp: ip_Equal_def split: if_splits) (metis append_take_drop_id)+

lemma group_same_sym: "group_same g h \<Longrightarrow> group_same h g"
  by (auto simp: group_same_def ip_Equal_sym)

lemma group_same_trans: "group_same g h \<Longrightarrow> group_same h k \<Longrightarrow> group_same g k"
  by (auto simp: group_same_def intro: ip_Equal_trans)

interpretation groups: unique_func "group_fn heap" "\<lambda>a b. group_same (heap ! a) (heap ! b)" for heap
  by unfold_locales (auto simp: group_fn_def intro: group_same_sym group_same_trans)

interpretation ports: unique_func "knock_fn c" "knock_same c" for c
proof
  fix x y z :: Knock
  show "knock_fn c x (Some y) = Inr (knock_same c x y)" by (simp add: knock_fn_def)
  show "knock_same c x y \<Longrightarrow> knock_same c y x"
    by (cases "(c, x, y)" rule: knock_same.cases) auto
  show "knock_same c x y \<Longrightarrow> knock_same c y z \<Longrightarrow> knock_same c x z"
    by (cases "(c, x, y)" rule: knock_same.cases; cases z) auto
qed

lemma subseq_remove1: "subseq (remove1 x xs) xs"
  by (induction xs) auto

lemma group_same_updates [simp]:
  "group_same (g\<lparr>kg_Count := c\<rparr>) h = group_same g h" "group_same h (g\<lparr>kg_Count := c\<rparr>) = group_same h g"
  "group_same (g\<lparr>kg_Last := l\<rparr>) h = group_same g h" "group_same h (g\<lparr>kg_Last := l\<rparr>) = group_same h g"
  "group_same (g\<lparr>kg_Knocks := k\<rparr>) h = group_same g h" "group_same h (g\<lparr>kg_Knocks := k\<rparr>) = group_same h g"
  by (simp_all add: group_same_def)

lemma group_same_refl [simp]: "group_same g g"
  by (simp add: group_same_def)

lemma NewGroup_time: "group_same (NewGroup k t) g = group_same (NewGroup k t') g"
  by (cases k) (simp_all add: NewGroup_def new_group_def group_same_def)

lemma NewGroup_inv: "group_inv (NewGroup k t)"
  by (cases k) (simp_all add: NewGroup_def new_group_def group_inv_def us_New)

text \<open>One knock added to a group of its key.\<close>

lemma group_knock:
  assumes "group_inv g" "group_same (NewGroup sk t) g"
  obtains ks y where "us_Add (knock_fn (kg_uniqueFunc g)) (kg_Knocks g) sk = Inr (ks, y)"
    "group_inv (g\<lparr>kg_Count := kg_Count g + 1, kg_Last := l, kg_Knocks := ks\<rparr>)"
proof (cases "find (knock_same (kg_uniqueFunc g) sk) (us_list (kg_Knocks g))")
  case None
  have inv: "us_inv (kg_Knocks g)" using assms(1) by (simp add: group_inv_def)
  have "group_inv (g\<lparr>kg_Count := kg_Count g + 1, kg_Last := l, kg_Knocks := us_append (kg_Knocks g) sk\<rparr>)"
    using assms us_append_spec [OF inv, of sk] NewGroup_time [of sk t g 0] by (auto simp: group_inv_def)
  then show ?thesis using that ports.add_new [OF inv None] by blast
next
  case (Some y)
  have inv: "us_inv (kg_Knocks g)" using assms(1) by (simp add: group_inv_def)
  have "group_inv (g\<lparr>kg_Count := kg_Count g + 1, kg_Last := l, kg_Knocks := kg_Knocks g\<rparr>)"
    using assms(1) by (auto simp: group_inv_def)
  then show ?thesis using that ports.add_found [OF inv Some] by blast
qed

lemma sorted_wrt_group_cong:
  assumes "sorted_wrt (\<lambda>a b. \<not> group_same (h ! a) (h ! b)) xs"
    and "\<And>a b. a \<in> set xs \<Longrightarrow> b \<in> set xs \<Longrightarrow> group_same (h' ! a) (h' ! b) = group_same (h ! a) (h ! b)"
  shows "sorted_wrt (\<lambda>a b. \<not> group_same (h' ! a) (h' ! b)) xs"
  using assms by (auto intro: sorted_wrt_mono_rel [of xs "\<lambda>a b. \<not> group_same (h ! a) (h ! b)"])

lemma knock_invD:
  assumes "knock_inv st"
  shows "us_inv (ks_knocks st)" "distinct (us_list (ks_knocks st))"
    "\<And>a. a \<in> set (us_list (ks_knocks st)) \<Longrightarrow> a < length (ks_heap st)"
    "sorted_wrt (\<lambda>a b. \<not> group_same (ks_heap st ! a) (ks_heap st ! b)) (us_list (ks_knocks st))"
    "\<And>g. g \<in> set (ks_heap st) \<Longrightarrow> group_inv g"
  using assms by (simp_all add: knock_inv_def)

text \<open>A group for every knock: an existing one of its key, or the fresh one at the end of the heap.\<close>

lemma group_add:
  assumes uinv: "us_inv us" and dist: "distinct (us_list us)" and lt: "\<forall>a \<in> set (us_list us). a < n"
    and sorted: "sorted_wrt (\<lambda>a b. \<not> group_same (heap ! a) (heap ! b)) (us_list us)"
    and heap: "length heap = Suc n"
  obtains us' a where "us_Add (group_fn heap) us n = Inr (us', Some a)"
    "a < length heap" "group_same (heap ! n) (heap ! a)" "us_inv us'" "distinct (us_list us')"
    "\<forall>b \<in> set (us_list us'). b < length heap"
    "sorted_wrt (\<lambda>a b. \<not> group_same (heap ! a) (heap ! b)) (us_list us')"
proof (cases "find (\<lambda>b. group_same (heap ! n) (heap ! b)) (us_list us)")
  case None
  note add = groups.add_new [OF uinv None]
  have l: "us_inv (us_append us n)" "us_list (us_append us n) = us_list us @ [n]"
    using us_append_spec [OF uinv, of n] by simp_all
  have "sorted_wrt (\<lambda>a b. \<not> group_same (heap ! a) (heap ! b)) (us_list (us_append us n))"
    using groups.add_unique [OF uinv add sorted] by simp
  moreover have "distinct (us_list (us_append us n))" using l dist lt by auto
  moreover have "\<forall>b \<in> set (us_list (us_append us n)). b < length heap" using l lt heap by auto
  ultimately show ?thesis using that [OF add] l(1) heap by simp
next
  case (Some b)
  then have "group_same (heap ! n) (heap ! b)" "b < length heap"
    using find_SomeD [OF Some] lt heap by auto
  then show ?thesis
    using that [OF groups.add_found [OF uinv Some]] uinv dist lt heap sorted by force
qed

lemma knock_recv_ok:
  assumes inv: "knock_inv st"
  shows "\<exists>st'. knock_recv st sk t1 t2 = Inr st' \<and> knock_inv st'"
proof -
  let ?n = "length (ks_heap st)" and ?g = "NewGroup sk t1"
  define heap where "heap = ks_heap st @ [?g]"
  note kinv = knock_invD [OF inv]
  have "sorted_wrt (\<lambda>a b. \<not> group_same (heap ! a) (heap ! b)) (us_list (ks_knocks st))"
    using kinv(3) by (intro sorted_wrt_group_cong [OF kinv(4)]) (simp add: heap_def nth_append)
  then obtain us a where add: "us_Add (group_fn heap) (ks_knocks st) ?n = Inr (us, Some a)"
    and a: "a < length heap" "group_same (heap ! ?n) (heap ! a)"
    and us: "us_inv us" "distinct (us_list us)" "\<forall>b \<in> set (us_list us). b < length heap"
      "sorted_wrt (\<lambda>a b. \<not> group_same (heap ! a) (heap ! b)) (us_list us)"
    using kinv(3) by (elim group_add [OF kinv(1,2), of ?n heap, rotated]) (auto simp: heap_def)
  have all: "\<forall>g \<in> set heap. group_inv g"
    using kinv(5) NewGroup_inv by (auto simp: heap_def)
  then have ga: "group_inv (heap ! a)" using a(1) by simp
  let ?k = "(heap ! a)\<lparr>kg_Count := kg_Count (heap ! a) + 1, kg_Last := t2\<rparr>"
  have "group_same ?g (heap ! a)" using a(2) by (simp add: heap_def)
  then obtain ks y where ks: "us_Add (knock_fn (kg_uniqueFunc (heap ! a))) (kg_Knocks (heap ! a)) sk = Inr (ks, y)"
    "group_inv (?k\<lparr>kg_Knocks := ks\<rparr>)"
    by (rule group_knock [OF ga, of sk t1 t2])
  let ?h = "heap[a := ?k\<lparr>kg_Knocks := ks\<rparr>]"
  have "knock_recv st sk t1 t2 = Inr (st\<lparr>ks_heap := ?h, ks_knocks := us\<rparr>)"
    using add ks(1) by (simp add: knock_recv_def heap_def [symmetric] Let_def)
  moreover have "sorted_wrt (\<lambda>x y. \<not> group_same (?h ! x) (?h ! y)) (us_list us)"
    using a(1) by (intro sorted_wrt_group_cong [OF us(4)]) (simp add: nth_list_update)
  moreover have "\<forall>g \<in> set ?h. group_inv g"
    using ks(2) all set_update_subset_insert [of heap a "?k\<lparr>kg_Knocks := ks\<rparr>"] by blast
  ultimately show ?thesis using us by (simp add: knock_inv_def)
qed

lemma knock_ports_list:
  assumes "us_inv us"
  shows "knock_ports us = Inr (map port_string (us_list us))"
proof -
  let ?xs = "us_list us" and ?n = "us_len us"
  have n: "?n = length ?xs" using us_len_list [OF assms] .
  have "us_each_loop (\<lambda>_. us_arr us) set_port [j..<?n] (map port_string (take j ?xs) @ replicate (?n - j) []) =
      Inr (map port_string ?xs)" if "j \<le> ?n" for j
    using that
  proof (induction rule: inc_induct)
    case (step j)
    have "us_arr us ! j = Some (?xs ! j)"
      using us_items_list [OF assms] step.hyps n
      by (metis less_imp_le nth_map nth_take us_items_def)
    moreover have "j < length (us_arr us)" using step.hyps assms by (simp add: us_inv_def)
    moreover have "(map port_string (take j ?xs) @ replicate (?n - j) [])[j := port_string (?xs ! j)] =
        map port_string (take (Suc j) ?xs) @ replicate (?n - Suc j) []"
      using step.hyps n
      by (simp add: list_update_append take_Suc_conv_app_nth Suc_diff_Suc [symmetric] min_def)
    ultimately show ?case
      using step n by (simp add: upt_conv_Cons set_port_def)
  qed (simp add: n)
  from this [of 0] show ?thesis by (simp add: knock_ports_def us_Each_def us_Count_def)
qed

section \<open>A tick\<close>

lemma knock_visit_eq:
  assumes "group_inv (ks_heap st ! a)"
  shows "knock_visit now i (Some a) st =
    Inr (if \<not> knock_due now (ks_heap st ! a) then st
         else st\<lparr>ks_sent := ks_sent st @ [knock_event (ks_heap st ! a)],
                 ks_knocks := if knock_recent now (ks_heap st ! a) then us_Remove (ks_knocks st) a
                              else ks_knocks st\<rparr>)"
  using knock_ports_list assms
  by (auto simp: knock_visit_def knock_due_def knock_recent_def knock_event_def group_inv_def Let_def)

lemma tick_inv_step:
  assumes J: "tick_inv now n st0 i st" and i: "i < n" and st0: "knock_inv st0"
  shows "\<exists>a st'. us_arr (ks_knocks st) ! i = Some a \<and> i < length (us_arr (ks_knocks st)) \<and>
    knock_visit now i (Some a) st = Inr st' \<and> tick_inv now n st0 (Suc i) st'"
proof -
  note j = J [unfolded tick_inv_def]
  obtain a where a: "us_arr (ks_knocks st) ! i = Some a" "a \<in> set (us_list (ks_knocks st0))"
    using j i by blast
  have len: "i < length (us_arr (ks_knocks st))" using j i by simp
  have heap: "ks_heap st = ks_heap st0" and u: "us_inv (ks_knocks st)" using j by simp_all
  have "group_inv (ks_heap st ! a)"
    using a(2) knock_invD(3,5) [OF st0] heap by simp
  note visit = knock_visit_eq [OF this, of now i]
  have rest: "\<exists>b \<in> set (us_list (ks_knocks st0)). us_arr (ks_knocks st) ! k = Some b"
    if "i \<le> k" "k < n" for k using j that by blast
  have cells: "\<exists>b \<in> set (us_list (ks_knocks st0)). us_arr (us_Remove (ks_knocks st) a) ! k = Some b"
    if "Suc i \<le> k" "k < n" for k
  proof -
    have klen: "k < length (us_arr (ks_knocks st))" and lenn: "us_len (ks_knocks st) \<le> n"
      using that(2) j by simp_all
    note c = us_Remove_cells [OF u Suc_le_lessD [OF that(1)] klen a(1)]
    then consider "us_arr (us_Remove (ks_knocks st) a) ! k = us_arr (ks_knocks st) ! k"
      | "k + 1 < n" "us_arr (us_Remove (ks_knocks st) a) ! k = us_arr (ks_knocks st) ! (k + 1)"
      using lenn by auto
    then show ?thesis using rest [of k] rest [of "k + 1"] that by cases auto
  qed
  have lens: "length (us_arr (us_Remove (ks_knocks st) a)) = length (us_arr (ks_knocks st))"
    "us_len (us_Remove (ks_knocks st) a) \<le> us_len (ks_knocks st)"
    using us_Remove_arr [of "ks_knocks st" a] u by simp_all
  have sub: "subseq (remove1 a (us_list (ks_knocks st))) (us_list (ks_knocks st0))"
    using j by (intro subseq_order.trans [OF subseq_remove1]) simp
  have "\<exists>as. ks_sent st = ks_sent st0 @ map (\<lambda>a. knock_event (ks_heap st0 ! a)) as \<and>
      (\<forall>a \<in> set as. a \<in> set (us_list (ks_knocks st0)) \<and> knock_due now (ks_heap st0 ! a))"
    using j by (elim conjE)
  then obtain as where as: "ks_sent st = ks_sent st0 @ map (\<lambda>a. knock_event (ks_heap st0 ! a)) as"
    "\<forall>a \<in> set as. a \<in> set (us_list (ks_knocks st0)) \<and> knock_due now (ks_heap st0 ! a)"
    by blast
  have sent: "\<exists>as. (ks_sent st @ [knock_event (ks_heap st0 ! a)]) =
      ks_sent st0 @ map (\<lambda>a. knock_event (ks_heap st0 ! a)) as \<and>
      (\<forall>a \<in> set as. a \<in> set (us_list (ks_knocks st0)) \<and> knock_due now (ks_heap st0 ! a))"
    if "knock_due now (ks_heap st0 ! a)"
    using as a(2) that by (intro exI [of _ "as @ [a]"]) auto
  have skip: "tick_inv now n st0 (Suc i) st" unfolding tick_inv_def using j rest by simp
  have keep: "tick_inv now n st0 (Suc i) (st\<lparr>ks_sent := ks_sent st @ [knock_event (ks_heap st0 ! a)]\<rparr>)"
    if "knock_due now (ks_heap st0 ! a)"
    unfolding tick_inv_def using j rest sent [OF that] by simp
  have remove: "tick_inv now n st0 (Suc i) (st\<lparr>ks_sent := ks_sent st @ [knock_event (ks_heap st0 ! a)],
      ks_knocks := us_Remove (ks_knocks st) a\<rparr>)"
    if "knock_due now (ks_heap st0 ! a)"
    unfolding tick_inv_def using j cells sent [OF that] lens us_Remove_spec [OF u, of a] sub by simp
  show ?thesis
    using a(1) len visit skip keep remove by (cases "knock_recent now (ks_heap st0 ! a)") (auto simp: heap)
qed

lemma tick_loop:
  assumes "tick_inv now n st0 i st" "i \<le> n" "knock_inv st0"
  shows "\<exists>st'. us_each_loop (\<lambda>s. us_arr (ks_knocks s)) (knock_visit now) [i..<n] st = Inr st' \<and>
    tick_inv now n st0 n st'"
  using assms(2,1)
proof (induction arbitrary: st rule: inc_induct)
  case (step i)
  obtain a st1 where s: "us_arr (ks_knocks st) ! i = Some a" "i < length (us_arr (ks_knocks st))"
    "knock_visit now i (Some a) st = Inr st1" "tick_inv now n st0 (Suc i) st1"
    using tick_inv_step [OF step.prems step.hyps(2) assms(3)] by blast
  then show ?case using step.IH [OF s(4)] step.hyps(2) by (simp add: upt_conv_Cons)
qed simp

lemma knock_tick_ok:
  assumes inv: "knock_inv st"
  shows "\<exists>st'. knock_tick st now = Inr st' \<and> tick_inv now (us_len (ks_knocks st)) st (us_len (ks_knocks st)) st'"
proof -
  let ?n = "us_len (ks_knocks st)"
  note k = knock_invD [OF inv]
  have "us_arr (ks_knocks st) ! j = Some (us_list (ks_knocks st) ! j)" if "j < ?n" for j
    using us_items_list [OF k(1)] us_len_list [OF k(1)] that
    by (metis nth_map nth_take us_items_def)
  then have "tick_inv now ?n st 0 st"
    using k(1) us_len_list [OF k(1)] by (auto simp: tick_inv_def us_inv_def)
  then show ?thesis
    using tick_loop [of now ?n st 0 st] inv by (simp add: knock_tick_def us_Each_def)
qed

lemma subseq_mem: "subseq xs ys \<Longrightarrow> x \<in> set xs \<Longrightarrow> x \<in> set ys"
  by (induction rule: list_emb.induct) auto

lemma sorted_wrt_subseq: "subseq xs ys \<Longrightarrow> sorted_wrt P ys \<Longrightarrow> sorted_wrt P xs"
proof (induction rule: list_emb.induct)
  case (list_emb_Cons2 x y xs ys)
  then show ?case using subseq_mem [of xs ys] by auto
qed auto

lemma distinct_subseq: "subseq xs ys \<Longrightarrow> distinct ys \<Longrightarrow> distinct xs"
  by (induction rule: list_emb.induct) (auto dest: subseq_mem)

lemma tick_keeps_inv:
  assumes "knock_inv st" "tick_inv now n st i st'"
  shows "knock_inv st'"
proof -
  have heap: "ks_heap st' = ks_heap st" and u: "us_inv (ks_knocks st')"
    and sub: "subseq (us_list (ks_knocks st')) (us_list (ks_knocks st))"
    using assms(2) by (simp_all add: tick_inv_def)
  note k = knock_invD [OF assms(1)]
  have "sorted_wrt (\<lambda>a b. \<not> group_same (ks_heap st ! a) (ks_heap st ! b)) (us_list (ks_knocks st'))"
    using sub k(4) by (rule sorted_wrt_subseq)
  moreover have "distinct (us_list (ks_knocks st'))"
    using sub k(2) by (rule distinct_subseq)
  moreover have "a < length (ks_heap st)" if "a \<in> set (us_list (ks_knocks st'))" for a
    using that k(3) subseq_mem [OF sub] by blast
  ultimately show ?thesis using heap u k(5) by (simp add: knock_inv_def)
qed

lemma knock_init_inv: "knock_inv knock_init"
  by (simp add: knock_inv_def knock_init_def us_New)

lemma knock_reachable_inv: "knock_reachable st \<Longrightarrow> knock_inv st"
proof (induction rule: knock_reachable.induct)
  case (step st st')
  from step.hyps(2) step.IH show ?case
  proof cases
    case (recv sk t1 t2)
    then show ?thesis using knock_recv_ok [OF step.IH, of sk t1 t2] by auto
  next
    case (tick now)
    then show ?thesis using knock_tick_ok [OF step.IH, of now] tick_keeps_inv [OF step.IH] by auto
  qed
qed (rule knock_init_inv)

text \<open>
  C24: the detector is safe in every reachable state. Groups in the set have pairwise
  different keys, every group holds only knocks of its own key and counts at least as many
  knocks as it lists, and neither a knock nor a tick can panic: although a tick removes
  groups from the array it is ranging over, it never reads a nil cell.
\<close>

theorem knock_reachable_safe:
  assumes "knock_reachable st"
  shows "knock_inv st \<and> is_ok (knock_recv st sk t1 t2) \<and> is_ok (knock_tick st now)"
  using knock_reachable_inv [OF assms] knock_recv_ok [of st sk t1 t2] knock_tick_ok [of st now]
  by (auto simp: is_ok_iff)

theorem knock_reachable_safe_witness:
  "knock_inv knock_init \<and> is_ok (knock_recv knock_init (KnockICMP [] [] [] []) 0 1) \<and>
   is_ok (knock_tick knock_init 7)"
  by (rule knock_reachable_safe) (rule knock_reachable.init)

text \<open>
  C23: what a tick reports. In a reachable state every event of a tick is the event of a group
  of the set that was due: more than 100 knocks, or quiet for five seconds. Its ports are
  those of the knocks the group listed. The set only loses elements.
\<close>

theorem knock_tick_sound:
  assumes "knock_reachable st" "knock_tick st now = Inr st'"
  shows "\<exists>as. ks_sent st' = ks_sent st @ map (\<lambda>a. knock_event (ks_heap st ! a)) as \<and>
      (\<forall>a \<in> set as. a \<in> set (us_list (ks_knocks st)) \<and> knock_due now (ks_heap st ! a)) \<and>
      subseq (us_list (ks_knocks st')) (us_list (ks_knocks st))"
proof -
  have "tick_inv now (us_len (ks_knocks st)) st (us_len (ks_knocks st)) st'"
    using knock_tick_ok [OF knock_reachable_inv [OF assms(1)], of now] assms(2) by auto
  then show ?thesis unfolding tick_inv_def by blast
qed

text \<open>A state with one group that has just received its first knock.\<close>

lemma one_knock: "\<exists>st. knock_recv knock_init k t1 t2 = Inr st \<and> knock_reachable st \<and>
    ks_heap st = [(NewGroup k t1)\<lparr>kg_Count := 1, kg_Last := t2, kg_Knocks := us_append NewUniqueSet k\<rparr>] \<and>
    us_list (ks_knocks st) = [0] \<and> ks_sent st = []"
proof -
  let ?h = "[NewGroup k t1]"
  have a: "us_Add (group_fn ?h) NewUniqueSet 0 = Inr (us_append NewUniqueSet 0, Some 0)"
    by (rule groups.add_new) (simp_all add: us_New)
  have n: "kg_Knocks (NewGroup k t1) = NewUniqueSet" "kg_Count (NewGroup k t1) = 0"
    by (cases k; simp add: NewGroup_def new_group_def)+
  have b: "us_Add (knock_fn c) NewUniqueSet k = Inr (us_append NewUniqueSet k, Some k)" for c
    by (rule ports.add_new) (simp_all add: us_New)
  have r: "knock_recv knock_init k t1 t2 = Inr \<lparr>ks_heap = [(NewGroup k t1)\<lparr>kg_Count := 1, kg_Last := t2,
      kg_Knocks := us_append NewUniqueSet k\<rparr>], ks_knocks = us_append NewUniqueSet 0, ks_sent = []\<rparr>"
    using a b n by (simp add: knock_recv_def knock_init_def Let_def)
  then have "knock_reachable \<lparr>ks_heap = [(NewGroup k t1)\<lparr>kg_Count := 1, kg_Last := t2,
      kg_Knocks := us_append NewUniqueSet k\<rparr>], ks_knocks = us_append NewUniqueSet 0, ks_sent = []\<rparr>"
    by (intro knock_reachable.step [OF knock_reachable.init] knock_step.recv)
  with r show ?thesis using us_append_spec [OF us_New(1), of "0 :: nat"] by (simp add: us_New)
qed

text \<open>
  A tick that finds no due group of the last minute reports every due group
  once, in order, and removes nothing. So a group that was quiet for a minute or longer
  stays in the set for good and is reported again by every later tick.
\<close>

theorem knock_tick_keeps_old:
  assumes r: "knock_reachable st"
    and old: "\<forall>a \<in> set (us_list (ks_knocks st)).
      knock_due now (ks_heap st ! a) \<longrightarrow> kg_Last (ks_heap st ! a) + seconds 60 \<le> now"
  shows "knock_tick st now = Inr (st\<lparr>ks_sent := ks_sent st @
     map (\<lambda>a. knock_event (ks_heap st ! a)) (filter (\<lambda>a. knock_due now (ks_heap st ! a)) (us_list (ks_knocks st)))\<rparr>)"
proof -
  let ?xs = "us_list (ks_knocks st)" and ?n = "us_len (ks_knocks st)"
  let ?sent = "\<lambda>as. ks_sent st @ map (\<lambda>a. knock_event (ks_heap st ! a)) (filter (\<lambda>a. knock_due now (ks_heap st ! a)) as)"
  note k = knock_invD [OF knock_reachable_inv [OF r]]
  have n: "?n = length ?xs" using us_len_list [OF k(1)] .
  have "us_each_loop (\<lambda>s. us_arr (ks_knocks s)) (knock_visit now) [i..<?n] (st\<lparr>ks_sent := ?sent (take i ?xs)\<rparr>) =
      Inr (st\<lparr>ks_sent := ?sent ?xs\<rparr>)" if "i \<le> ?n" for i
    using that
  proof (induction rule: inc_induct)
    case (step i)
    have cell: "us_arr (ks_knocks st) ! i = Some (?xs ! i)" "i < length (us_arr (ks_knocks st))"
      using us_items_list [OF k(1)] step.hyps n k(1)
      by (metis nth_map nth_take us_items_def, simp add: us_inv_def)
    have mem: "?xs ! i \<in> set ?xs" using step.hyps n by simp
    have "group_inv (ks_heap st ! (?xs ! i))" using k(3,5) mem by simp
    then have "knock_visit now i (Some (?xs ! i)) (st\<lparr>ks_sent := ?sent (take i ?xs)\<rparr>) =
        Inr (st\<lparr>ks_sent := ?sent (take (Suc i) ?xs)\<rparr>)"
      using old mem step.hyps n
      by (subst knock_visit_eq) (auto simp: take_Suc_conv_app_nth knock_recent_def)
    then show ?case using step cell by (simp add: upt_conv_Cons)
  qed (simp add: n)
  from this [of 0] show ?thesis by (simp add: knock_tick_def us_Each_def)
qed

theorem knock_tick_keeps_old_witness:
  "\<exists>st. knock_reachable st \<and> us_list (ks_knocks st) = [0] \<and>
     (\<exists>st'. knock_tick st (seconds 90) = Inr st' \<and> length (ks_sent st') = 1 \<and> us_list (ks_knocks st') = [0])"
proof -
  obtain st where st: "knock_reachable st"
    "ks_heap st = [(NewGroup (KnockICMP [] [] [] []) 0)\<lparr>kg_Count := 1, kg_Last := 0,
       kg_Knocks := us_append NewUniqueSet (KnockICMP [] [] [] [])\<rparr>]"
    "us_list (ks_knocks st) = [0]" "ks_sent st = []"
    using one_knock [of "KnockICMP [] [] [] []" 0 0] by blast
  have d: "knock_due (seconds 90) (ks_heap st ! 0)" using st(2) by (simp add: knock_due_def seconds_def)
  have "knock_tick st (seconds 90) = Inr (st\<lparr>ks_sent := ks_sent st @ map (\<lambda>a. knock_event (ks_heap st ! a))
      (filter (\<lambda>a. knock_due (seconds 90) (ks_heap st ! a)) (us_list (ks_knocks st)))\<rparr>)"
    using st by (intro knock_tick_keeps_old) (simp_all add: seconds_def)
  then show ?thesis using st d by (intro exI [of _ st]) simp
qed

theorem knock_tick_sound_witness:
  "\<exists>st st'. knock_reachable st \<and> knock_tick st (seconds 9) = Inr st' \<and>
     (\<exists>as. ks_sent st' = ks_sent st @ map (\<lambda>a. knock_event (ks_heap st ! a)) as \<and> set as \<subseteq> {0})"
proof -
  obtain st where st: "knock_reachable st" "us_list (ks_knocks st) = [0]"
    using one_knock [of "KnockICMP [] [] [] []" 0 0] by blast
  obtain st' where st': "knock_tick st (seconds 9) = Inr st'"
    using knock_tick_ok [OF knock_reachable_inv [OF st(1)]] by blast
  show ?thesis using knock_tick_sound [OF st(1) st'] st st' by auto
qed

text \<open>
  Removal during the iteration skips groups. With three groups that are all due and
  of the last minute, one tick reports the first group once, the second never and
  the third twice, and leaves the second one in the set.
\<close>

theorem knock_tick_skips:
  assumes "ks_knocks st = \<lparr>us_arr = [Some 0, Some 1, Some 2], us_len = 3\<rparr>" "ks_heap st = [g0, g1, g2]"
    and g: "\<forall>g \<in> {g0, g1, g2}. group_inv g \<and> knock_due now g \<and> now < kg_Last g + seconds 60"
  shows "\<exists>st'. knock_tick st now = Inr st' \<and> us_list (ks_knocks st') = [1] \<and>
    ks_sent st' = ks_sent st @ [knock_event g0, knock_event g2, knock_event g2]"
proof -
  have v: "knock_visit now i (Some a) s = Inr (s\<lparr>ks_sent := ks_sent s @ [knock_event (ks_heap s ! a)],
      ks_knocks := us_Remove (ks_knocks s) a\<rparr>)" if "ks_heap s ! a \<in> {g0, g1, g2}" for i a s
    using that g by (subst knock_visit_eq) (auto simp: knock_recent_def)
  show ?thesis
    using assms(1,2)
    by (simp add: knock_tick_def us_Each_def upt_rec numeral_3_eq_3 v us_Remove_def us_items_def us_remove_at_def
        Let_def us_list_def numeral_2_eq_2)
qed

theorem knock_tick_skips_witness:
  "\<exists>st'. knock_tick \<lparr>ks_heap = [NewGroup (KnockICMP [1] [] [] []) 0, NewGroup (KnockICMP [2] [] [] []) 0,
        NewGroup (KnockICMP [3] [] [] []) 0],
      ks_knocks = \<lparr>us_arr = [Some 0, Some 1, Some 2], us_len = 3\<rparr>, ks_sent = []\<rparr> (seconds 6) = Inr st' \<and>
    us_list (ks_knocks st') = [1] \<and> map ps_SourceHardwareAddr (ks_sent st') = [[1], [3], [3]]"
proof -
  let ?g = "\<lambda>n. NewGroup (KnockICMP [n] [] [] []) 0"
  let ?st = "\<lparr>ks_heap = [?g 1, ?g 2, ?g 3], ks_knocks = \<lparr>us_arr = [Some 0, Some 1, Some 2], us_len = 3\<rparr>, ks_sent = []\<rparr>"
  have g: "group_inv (?g n) \<and> knock_due (seconds 6) (?g n) \<and> seconds 6 < kg_Last (?g n) + seconds 60" for n
    by (simp add: NewGroup_inv, simp add: knock_due_def seconds_def NewGroup_def new_group_def)
  have e: "ps_SourceHardwareAddr (knock_event (?g n)) = [n]" for n
    by (simp add: knock_event_def NewGroup_def new_group_def)
  show ?thesis
    using knock_tick_skips [of ?st "?g 1" "?g 2" "?g 3" "seconds 6"] g e by auto
qed

end
