(* ===== verification/Events.thy ===== *)
theory Events
  imports Go_Net
begin

text \<open>
  The event package (\<^verbatim>\<open>event/event.go\<close>, \<^verbatim>\<open>event/map.go\<close>). An event
  is a shared map from keys to values, an option is a function that stores into it. Values are
  tagged with the Go type they have in the \<^verbatim>\<open>interface{}\<close>.
\<close>

section \<open>Events\<close>

datatype val =
    VString string
  | VInt int
  | VUint16 u16
  | VUint8 byte
  | VStrings "string list"
  | VHeader "(string \<times> string list) list"
  | VError string
  | VTime int
  | VDuration int
  | VBytes bytes
  | VAddress "string option"
  | VAddresses "string option list"

type_synonym event = "string \<Rightarrow> val option"
type_synonym ev_option = "event \<Rightarrow> event"

definition ev_Store :: "event \<Rightarrow> string \<Rightarrow> val \<Rightarrow> event" where
  "ev_Store e s v = e(s \<mapsto> v)"

definition ev_Has :: "event \<Rightarrow> string \<Rightarrow> bool" where
  "ev_Has e s = (e s \<noteq> None)"

text \<open>\<^verbatim>\<open>Get\<close> is the empty string for a missing key and for a value of another type.\<close>

definition ev_Get :: "event \<Rightarrow> string \<Rightarrow> string" where
  "ev_Get e s = (case e s of Some (VString v) \<Rightarrow> v | _ \<Rightarrow> [])"

definition ev_Apply :: "event \<Rightarrow> ev_option list \<Rightarrow> event" where
  "ev_Apply e opts = fold (\<lambda>opt e. opt e) opts e"

definition ev_New :: "int \<Rightarrow> ev_option list \<Rightarrow> event" where
  "ev_New now opts = ev_Apply (ev_Store Map.empty ''date'' (VTime now)) opts"

definition ev_NewWith :: "ev_option list \<Rightarrow> ev_option" where
  "ev_NewWith opts = (\<lambda>e. ev_Apply e opts)"

section \<open>Options\<close>

definition ev_Token :: "string \<Rightarrow> ev_option" where
  "ev_Token token = (\<lambda>m. ev_Store m ''token'' (VString token))"

definition ev_Category :: "string \<Rightarrow> ev_option" where
  "ev_Category s = (\<lambda>m. ev_Store m ''category'' (VString s))"

definition ev_Error :: "string \<Rightarrow> ev_option" where
  "ev_Error err = (\<lambda>m. ev_Store m ''error'' (VError err))"

definition ev_Type :: "string \<Rightarrow> ev_option" where
  "ev_Type s = (\<lambda>m. ev_Store m ''type'' (VString s))"

definition ev_Sensor :: "string \<Rightarrow> ev_option" where
  "ev_Sensor s = (\<lambda>m. ev_Store m ''sensor'' (VString s))"

definition ev_SourceHardwareAddr :: "mac \<Rightarrow> ev_option" where
  "ev_SourceHardwareAddr addr = (\<lambda>m. ev_Store m ''source-mac'' (VString (mac_String addr)))"

definition ev_DestinationHardwareAddr :: "mac \<Rightarrow> ev_option" where
  "ev_DestinationHardwareAddr addr = (\<lambda>m. ev_Store m ''destination-mac'' (VString (mac_String addr)))"

definition ev_SourceAddr :: "net_addr \<Rightarrow> ev_option" where
  "ev_SourceAddr addr = (\<lambda>m. case addr of
     TCPAddr ip port \<Rightarrow> ev_Store (ev_Store m ''source-ip'' (VString (ip_String ip))) ''source-port'' (VInt port)
   | UDPAddr ip port \<Rightarrow> ev_Store (ev_Store m ''source-ip'' (VString (ip_String ip))) ''source-port'' (VInt port)
   | OtherAddr _ \<Rightarrow> m)"

definition ev_DestinationAddr :: "net_addr \<Rightarrow> ev_option" where
  "ev_DestinationAddr addr = (\<lambda>m. case addr of
     TCPAddr ip port \<Rightarrow> ev_Store (ev_Store m ''destination-ip'' (VString (ip_String ip))) ''destination-port'' (VInt port)
   | UDPAddr ip port \<Rightarrow> ev_Store (ev_Store m ''destination-ip'' (VString (ip_String ip))) ''destination-port'' (VInt port)
   | OtherAddr _ \<Rightarrow> m)"

definition ev_SourceIP :: "ip \<Rightarrow> ev_option" where
  "ev_SourceIP ip = (\<lambda>m. ev_Store m ''source-ip'' (VString (ip_String ip)))"

definition ev_DestinationIP :: "ip \<Rightarrow> ev_option" where
  "ev_DestinationIP ip = (\<lambda>m. ev_Store m ''destination-ip'' (VString (ip_String ip)))"

definition ev_RemoteAddr :: "string \<Rightarrow> ev_option" where
  "ev_RemoteAddr addr = (\<lambda>m. ev_Store m ''remote-addr'' (VString addr))"

definition ev_HostAddr :: "string \<Rightarrow> ev_option" where
  "ev_HostAddr addr = (\<lambda>m. ev_Store m ''host-addr'' (VString addr))"

definition ev_SourcePort :: "u16 \<Rightarrow> ev_option" where
  "ev_SourcePort port = (\<lambda>m. ev_Store m ''source-port'' (VUint16 port))"

definition ev_DestinationPort :: "u16 \<Rightarrow> ev_option" where
  "ev_DestinationPort port = (\<lambda>m. ev_Store m ''destination-port'' (VUint16 port))"

definition ev_Service :: "string \<Rightarrow> ev_option" where
  "ev_Service v = (\<lambda>m. ev_Store m ''service'' (VString v))"

definition ev_Protocol :: "string \<Rightarrow> ev_option" where
  "ev_Protocol v = (\<lambda>m. ev_Store m ''protocol'' (VString v))"

text \<open>The formatted text of \<^verbatim>\<open>Message\<close> and the stack trace are arguments.\<close>

definition ev_Message :: "string \<Rightarrow> ev_option" where
  "ev_Message formatted = (\<lambda>m. ev_Store m ''message'' (VString formatted))"

definition ev_Stack :: "string \<Rightarrow> ev_option" where
  "ev_Stack trace = (\<lambda>m. ev_Store m ''stacktrace'' (VString trace))"

definition ev_Payload :: "bytes \<Rightarrow> ev_option" where
  "ev_Payload data = (\<lambda>m.
     ev_Store (ev_Store (ev_Store m ''payload'' (VString (string_of_bytes data)))
       ''payload-hex'' (VString (hex_encode data))) ''payload-length'' (VInt (int (length data))))"

definition ev_MergeFrom :: "(string \<times> val) list \<Rightarrow> ev_option" where
  "ev_MergeFrom data = (\<lambda>m. fold (\<lambda>(name, v) m. if ev_Has m name then m else ev_Store m name v) data m)"

definition ev_CopyFrom :: "(string \<times> val) list \<Rightarrow> ev_option" where
  "ev_CopyFrom data = (\<lambda>m. fold (\<lambda>(name, v) m. ev_Store m name v) data m)"

definition ev_Custom :: "string \<Rightarrow> val \<Rightarrow> ev_option" where
  "ev_Custom name v = (\<lambda>m. ev_Store m name v)"

lemmas ev_defs = ev_Store_def ev_Token_def ev_Category_def ev_Error_def ev_Type_def ev_Sensor_def
  ev_SourceHardwareAddr_def ev_DestinationHardwareAddr_def ev_SourceAddr_def ev_DestinationAddr_def
  ev_SourceIP_def ev_DestinationIP_def ev_RemoteAddr_def ev_HostAddr_def ev_SourcePort_def
  ev_DestinationPort_def ev_Service_def ev_Protocol_def ev_Message_def ev_Stack_def ev_Payload_def ev_Custom_def

section \<open>Properties\<close>

lemma ev_Apply_simps [simp]: "ev_Apply e [] = e" "ev_Apply e (opt # opts) = ev_Apply (opt e) opts"
  by (simp_all add: ev_Apply_def)

lemma ev_Apply_append: "ev_Apply e (xs @ ys) = ev_Apply (ev_Apply e xs) ys"
  by (simp add: ev_Apply_def)

lemma ev_CopyFrom_distinct:
  "distinct (map fst data) \<Longrightarrow> ev_CopyFrom data m = m ++ map_of data"
proof (induction data arbitrary: m)
  case (Cons kv data)
  obtain k v where kv: "kv = (k, v)" by (cases kv)
  have k: "map_of data k = None" using Cons.prems kv by (simp add: map_of_eq_None_iff)
  have "ev_CopyFrom (kv # data) m = ev_CopyFrom data (ev_Store m k v)" by (simp add: ev_CopyFrom_def kv)
  also have "\<dots> = ev_Store m k v ++ map_of data" using Cons by simp
  also have "\<dots> = m ++ map_of (kv # data)"
    by (rule ext) (auto simp: kv k ev_Store_def map_add_def split: option.splits)
  finally show ?case .
qed (simp add: ev_CopyFrom_def)

lemma ev_MergeFrom_distinct:
  "distinct (map fst data) \<Longrightarrow> ev_MergeFrom data m = map_of data ++ m"
proof (induction data arbitrary: m)
  case (Cons kv data)
  obtain k v where kv: "kv = (k, v)" by (cases kv)
  let ?m = "if ev_Has m k then m else ev_Store m k v"
  have k: "map_of data k = None" using Cons.prems kv by (simp add: map_of_eq_None_iff)
  have "ev_MergeFrom (kv # data) m = ev_MergeFrom data ?m" by (simp add: ev_MergeFrom_def kv)
  also have "\<dots> = map_of data ++ ?m" using Cons by simp
  also have "\<dots> = map_of (kv # data) ++ m"
    by (rule ext) (auto simp: kv k ev_Has_def ev_Store_def map_add_def split: option.splits)
  finally show ?case .
qed (simp add: ev_MergeFrom_def)

text \<open>
  Merging and copying a map into an event. \<^verbatim>\<open>MergeFrom\<close> keeps every
  value the event has and adds the missing keys, \<^verbatim>\<open>CopyFrom\<close> lets the map win, and neither
  depends on the order in which Go ranges over the map.
\<close>

theorem event_merge_copy:
  assumes "distinct (map fst data)" "set data = set data'" "distinct (map fst data')"
  shows "ev_MergeFrom data m = map_of data ++ m \<and> ev_MergeFrom data' m = ev_MergeFrom data m \<and>
    ev_CopyFrom data m = m ++ map_of data \<and> ev_CopyFrom data' m = ev_CopyFrom data m"
  using ev_MergeFrom_distinct [OF assms(1)] ev_MergeFrom_distinct [OF assms(3)]
    ev_CopyFrom_distinct [OF assms(1)] ev_CopyFrom_distinct [OF assms(3)] map_of_inject_set [OF assms(1,3)] assms(2)
  by simp

theorem event_merge_copy_witness:
  "ev_MergeFrom [(''a'', VInt 1), (''b'', VInt 2)] [''a'' \<mapsto> VInt 7] ''a'' = Some (VInt 7) \<and>
   ev_CopyFrom [(''a'', VInt 1), (''b'', VInt 2)] [''a'' \<mapsto> VInt 7] ''a'' = Some (VInt 1)"
  using event_merge_copy [of "[(''a'', VInt 1), (''b'', VInt 2)]" "[(''b'', VInt 2), (''a'', VInt 1)]" "[''a'' \<mapsto> VInt 7]"]
  by (simp add: insert_commute)

text \<open>
  The payload option stores the payload without loss. The hexadecimal form has two digits per
  byte and decodes to the payload, the string form is the payload itself, and the stored length is
  its length.
\<close>

theorem event_payload_roundtrip:
  "\<exists>hex. ev_Payload data m ''payload-hex'' = Some (VString hex) \<and> length hex = 2 * length data \<and>
     hex_DecodeString hex = data \<and>
     bytes_of_string (ev_Get (ev_Payload data m) ''payload'') = data \<and>
     ev_Payload data m ''payload-length'' = Some (VInt (int (length data))) \<and>
     ev_Get (ev_Payload data m) ''category'' = ev_Get m ''category''"
  by (simp add: ev_defs ev_Get_def hex_DecodeString_encode length_hex_encode)

end
