(* ===== verification/Canary_TCP.thy ===== *)
theory Canary_TCP
  imports Link_Headers Canary_State Canary_Routes Knock_Detector Events
begin

text \<open>
  The TCP side of the canary listener (\<^verbatim>\<open>listener/canary/canary_linux.go\<close>): the
  segment handler with its connection state machine, the sender that builds a reply frame
  and queues it in the transmit ring buffer, and the transmitter that drains the queue.
  Mutexes serialise handler, writer and closer of a state, so each is one step here.
  Clock readings and random numbers are arguments; wake-ups, started handler goroutines,
  knocks and poll requests are appended to a log of effects.
\<close>

section \<open>The listener\<close>

record net_interface =
  if_Name :: string
  if_HardwareAddr :: mac
  if_Index :: int
  if_Addrs :: "ip list"

datatype canary_effect =
    KnockSent Knock
  | HandlerStarted nat u16
  | Woken nat
  | PollOut int
  | EventSent event

record Canary =
  can_rt :: "Route list"
  can_ac :: "ARPEntry list"
  can_interfaces :: "net_interface list"
  can_descriptors :: "(string \<times> int) list"
  can_buffer :: FixedSizeRingBuf
  can_states :: "State list"
  can_table :: StateTable
  can_log :: "canary_effect list"

definition state_at :: "Canary \<Rightarrow> nat \<Rightarrow> State" where
  "state_at c a = can_states c ! a"

definition upd_state :: "Canary \<Rightarrow> nat \<Rightarrow> (State \<Rightarrow> State) \<Rightarrow> Canary" where
  "upd_state c a f = c\<lparr>can_states := (can_states c)[a := f (can_states c ! a)]\<rparr>"

definition emit :: "Canary \<Rightarrow> canary_effect \<Rightarrow> Canary" where
  "emit c e = c\<lparr>can_log := can_log c @ [e]\<rparr>"

definition isMe :: "Canary \<Rightarrow> ip \<Rightarrow> bool" where
  "isMe c p = list_ex (\<lambda>intf. list_ex (\<lambda>addr. ip_Equal addr p) (if_Addrs intf)) (can_interfaces c)"

section \<open>Building a reply\<close>

fun upd_words :: "u32 \<Rightarrow> nat \<Rightarrow> bytes \<Rightarrow> u32" where
  "upd_words acc i (a # b # rest) =
     upd_words (if i = 16 then acc else acc + push_bit 8 (ucast a) + ucast b) (i + 2) rest"
| "upd_words acc i _ = acc"

lemma u32_high_iff: "(0xffff :: u32) < c \<longleftrightarrow> drop_bit 16 c \<noteq> 0"
proof -
  have "(0xffff < c) = (65535 < unat c)" by (simp add: word_less_nat_alt)
  also have "\<dots> = (unat c div 65536 \<noteq> 0)" by auto
  also have "\<dots> = (drop_bit 16 c \<noteq> 0)" by (simp add: unat_drop16 [symmetric] unat_eq_zero)
  finally show ?thesis .
qed

function upd_fold :: "u32 \<Rightarrow> u32" where
  "upd_fold c = (if 0xffff < c then upd_fold (drop_bit 16 c + (c AND 0xffff)) else c)"
  by pat_completeness auto
termination
  by (relation "measure unat") (auto simp: u32_high_iff add.commute [of "drop_bit _ _"] csum_fold_less)

declare upd_fold.simps [simp del]

definition upd_sum :: "bytes \<Rightarrow> bytes \<Rightarrow> bytes \<Rightarrow> u32" where
  "upd_sum src dst data =
     (let csum1 = push_bit 8 (ucast (src ! 12) + ucast (src ! 14)) + (ucast (src ! 13) + ucast (src ! 15));
          csum2 = csum1 + push_bit 8 (ucast (dst ! 12) + ucast (dst ! 14)) + (ucast (dst ! 13) + ucast (dst ! 15));
          len = (of_nat (length data) :: u32);
          csum3 = csum2 + 6 + (len AND 0xffff) + drop_bit 16 len;
          csum4 = upd_words csum3 0 data
      in if length data mod 2 = 1 then csum4 + push_bit 8 (ucast (last data)) else csum4)"

definition updateTCPChecksum :: "ipv4_Header \<Rightarrow> bytes \<Rightarrow> bytes result" where
  "updateTCPChecksum iph data =
     (if length (ip_Src iph) < 16 \<or> length (ip_Dst iph) < 16 \<or> length data < 18
      then Inl (Panic IndexOutOfRange)
      else
       let folded = upd_fold (upd_sum (ip_Src iph) (ip_Dst iph) data);
           csum = (ucast (NOT (ucast (folded + drop_bit 16 folded) :: u16)) :: u32)
       in Inr (data[16 := ucast (drop_bit 8 csum AND 0xFF), 17 := ucast (csum AND 0xFF)]))"

text \<open>The IP header checksum, written out in \<^verbatim>\<open>send\<close>; word 5 of the header is the field itself.\<close>

fun ip_words :: "u32 \<Rightarrow> nat \<Rightarrow> bytes \<Rightarrow> u32" where
  "ip_words acc i (a # b # rest) =
     ip_words (if i = 10 then acc else acc + push_bit 8 (ucast a) + ucast b) (i + 2) rest"
| "ip_words acc i _ = acc"

definition ip_checksum :: "bytes \<Rightarrow> u16" where
  "ip_checksum data = NOT (ucast (upd_fold (ip_words 0 0 (take 20 data))))"

definition send_tcp_header :: "State \<Rightarrow> bytes \<Rightarrow> Flag \<Rightarrow> tcp_Header" where
  "send_tcp_header s payload flags =
     empty_tcp_Header\<lparr>tcp_Source := st_DestPort s, tcp_Destination := st_SrcPort s,
       tcp_SeqNum := st_SendNext s, tcp_AckNum := st_RecvNext s, tcp_Ctrl := flags,
       tcp_Window := st_ReceiveWindow s, tcp_Payload := payload\<rparr>"

definition send_ip_header :: "State \<Rightarrow> nat \<Rightarrow> ipv4_Header" where
  "send_ip_header s n =
     empty_ipv4_Header\<lparr>ip_Version := 4, ip_Len := 20, ip_TTL := 128, ip_Src := st_DestIP s, ip_Dst := st_SrcIP s,
       ip_ID := uint (st_ID s), ip_Protocol := 6, ip_TotalLen := 20 + int n\<rparr>"

text \<open>
  The packet, or the error of a \<^verbatim>\<open>Marshal\<close>; \<open>Inl (Error e)\<close> is
  \<^verbatim>\<open>return err\<close> before anything is changed.
\<close>

definition send_packet :: "State \<Rightarrow> bytes \<Rightarrow> Flag \<Rightarrow> bytes result" where
  "send_packet s payload flags =
     bindR (tcp_Marshal (send_tcp_header s payload flags)) (\<lambda>(data1, _).
     let iph = send_ip_header s (length data1) in
     bindR (ipv4_Marshal linux (Some iph)) (\<lambda>hb.
     bindR (updateTCPChecksum iph data1) (\<lambda>data2.
       let data = hb @ data2; csum = ip_checksum data in
       Inr (data[10 := ucast (drop_bit 8 csum AND 0xFF), 11 := ucast (csum AND 0xFF)]))))"

definition send_frame :: "mac \<Rightarrow> mac \<Rightarrow> bytes \<Rightarrow> bytes result" where
  "send_frame src dst data =
     bindR (eth_Marshal (Some \<lparr>eth_Source = src, eth_Destination = dst,
       eth_Type = 0x0800, eth_Payload = []\<rparr>)) (\<lambda>data2. Inr (data2 @ data))"

definition queue_frame :: "FixedSizeRingBuf \<Rightarrow> bytes \<Rightarrow> FixedSizeRingBuf result" where
  "queue_frame b data =
     bindR (rb_Write b (put_be16 (of_nat (length data)))) (\<lambda>(b1, _, _).
     bindR (rb_Write b1 data) (\<lambda>(b2, _, _). Inr b2))"

text \<open>
  \<^verbatim>\<open>send\<close>. Its callers ignore the error it returns, so an error of a
  \<^verbatim>\<open>Marshal\<close> leaves the listener as it is.
\<close>

definition can_send :: "Canary \<Rightarrow> nat \<Rightarrow> bytes \<Rightarrow> Flag \<Rightarrow> Canary result" where
  "can_send c a payload flags =
     (case send_packet (state_at c a) payload flags of
        Inl (Error e) \<Rightarrow> Inr c
      | Inl p \<Rightarrow> Inl p
      | Inr data \<Rightarrow>
          let c1 = upd_state c a (\<lambda>s. s\<lparr>st_ID := st_ID s + 1\<rparr>);
              dst = net_IPv4 (data ! 16) (data ! 17) (data ! 18) (data ! 19) in
          bindR (go_at (can_interfaces c) 0) (\<lambda>intf.
          case resolve (can_ac c) (can_rt c) dst of
            None \<Rightarrow> Inl (Panic NilDereference)
          | Some ae \<Rightarrow>
              bindR (send_frame (if_HardwareAddr intf) (ae_HardwareAddress ae) data) (\<lambda>frame.
              bindR (queue_frame (can_buffer c1) frame) (\<lambda>b.
                let fd = (case map_of (can_descriptors c) (ae_Interface ae) of Some fd \<Rightarrow> fd | None \<Rightarrow> 0)
                in Inr (emit (c1\<lparr>can_buffer := b\<rparr>) (PollOut fd))))))"

section \<open>The segment handler\<close>

text \<open>The state is in \<^verbatim>\<open>SocketListen\<close> and the segment has SYN.\<close>

definition tcp_listen :: "Canary \<Rightarrow> nat \<Rightarrow> tcp_Header \<Rightarrow> Canary result" where
  "tcp_listen c a hdr =
     (let c1 = upd_state c a (\<lambda>s. s\<lparr>st_SendUnacknowledged := st_InitialSendSequenceNumber s,
                 st_SendNext := st_InitialSendSequenceNumber s + 1, st_RecvNext := tcp_SeqNum hdr + 1\<rparr>) in
      bindR (can_send c1 a [] (SYN OR ACK)) (\<lambda>c2.
        Inr (upd_state c2 a (\<lambda>s. s\<lparr>st_SendNext := st_SendNext s + 1, st_State := SocketSynReceived\<rparr>))))"

text \<open>The result says whether the handler returns here.\<close>

definition tcp_rst :: "Canary \<Rightarrow> nat \<Rightarrow> tcp_Header \<Rightarrow> bool \<times> Canary" where
  "tcp_rst c a hdr =
     (let remove = (upd_state c a (\<lambda>s. s\<lparr>st_State := SocketClosed\<rparr>))\<lparr>can_table := StateTable_Remove (can_table c) a\<rparr> in
      if \<not> HasFlag hdr RST then (False, c)
      else case st_State (state_at c a) of
        SocketSynReceived \<Rightarrow> (True, upd_state c a (\<lambda>s. s\<lparr>st_State := SocketListen\<rparr>))
      | SocketCloseWait \<Rightarrow> (True, remove)
      | SocketTimeWait \<Rightarrow> (True, remove)
      | _ \<Rightarrow> (False, c))"

definition ack_acceptable :: "State \<Rightarrow> tcp_Header \<Rightarrow> bool" where
  "ack_acceptable s hdr \<longleftrightarrow> st_SendUnacknowledged s \<le> tcp_AckNum hdr \<and> tcp_AckNum hdr \<le> st_SendNext s"

definition tcp_ack_states :: "Canary \<Rightarrow> nat \<Rightarrow> tcp_Header \<Rightarrow> bool \<times> Canary" where
  "tcp_ack_states c a hdr =
     (let c1 = (if st_State (state_at c a) = SocketClosing
                then upd_state c a (\<lambda>s. s\<lparr>st_State := SocketTimeWait\<rparr>) else c);
          c2 = (if st_State (state_at c1 a) = SocketCloseWait
                then c1\<lparr>can_table := StateTable_Remove (can_table c1) a\<rparr> else c1)
      in if st_State (state_at c2 a) = SocketSynReceived
         then if ack_acceptable (state_at c2 a) hdr
              then (False, emit (upd_state c2 a (\<lambda>s. s\<lparr>st_State := SocketEstablished\<rparr>))
                             (HandlerStarted a (tcp_Destination hdr)))
              else (True, c2)
         else (False, c2))"

definition tcp_una :: "Canary \<Rightarrow> nat \<Rightarrow> tcp_Header \<Rightarrow> Canary" where
  "tcp_una c a hdr =
     upd_state c a (\<lambda>s.
       let s1 = (if ack_acceptable s hdr then s\<lparr>st_SendUnacknowledged := tcp_AckNum hdr\<rparr> else s) in
       if st_State s1 = SocketFinWait1 then s1\<lparr>st_State := SocketFinWait2\<rparr>
       else if st_State s1 = SocketFinWait2 then s1\<lparr>st_State := SocketTimeWait\<rparr>
       else s1)"

definition tcp_data :: "Canary \<Rightarrow> nat \<Rightarrow> tcp_Header \<Rightarrow> Canary result" where
  "tcp_data c a hdr =
     (if st_State (state_at c a) \<in> {SocketEstablished, SocketFinWait1, SocketFinWait2}
      then case st_socket (state_at c a) of
          None \<Rightarrow> Inl (Panic NilDereference)
        | Some sock \<Rightarrow>
            bindR (sock_write sock (tcp_Payload hdr)) (\<lambda>(sock', _).
              let c1 = upd_state c a (\<lambda>s. s\<lparr>st_socket := Some sock'\<rparr>);
                  c2 = (if HasFlag hdr PSH \<and> sock_flush sock' then emit c1 (Woken a) else c1);
                  c3 = upd_state c2 a (\<lambda>s. s\<lparr>st_RecvNext := st_RecvNext s + of_nat (length (tcp_Payload hdr))\<rparr>)
              in if 0 < length (tcp_Payload hdr) then can_send c3 a [] ACK else Inr c3)
      else Inr c)"

definition tcp_knock :: "Canary \<Rightarrow> eth_Frame \<Rightarrow> ipv4_Header \<Rightarrow> tcp_Header \<Rightarrow> Canary" where
  "tcp_knock c eh iph hdr =
     (if tcp_Ctrl hdr AND SYN = SYN
      then emit c (KnockSent (KnockTCPPort (eth_Source eh) (eth_Destination eh) (ip_Src iph) (ip_Dst iph)
             (tcp_Destination hdr)))
      else c)"

definition tcp_fin :: "Canary \<Rightarrow> nat \<Rightarrow> tcp_Header \<Rightarrow> Canary result" where
  "tcp_fin c a hdr =
     (if tcp_Ctrl hdr AND FIN = FIN
      then
       let c1 = upd_state c a (\<lambda>s. s\<lparr>st_RecvNext := tcp_SeqNum hdr\<rparr>) in
       case st_State (state_at c1 a) of
         SocketFinWait1 \<Rightarrow> Inr (upd_state c1 a (\<lambda>s. s\<lparr>st_State := SocketClosing\<rparr>))
       | SocketFinWait2 \<Rightarrow>
           bindR (can_send (upd_state c1 a (\<lambda>s. s\<lparr>st_RecvNext := st_RecvNext s + 1\<rparr>)) a [] ACK) (\<lambda>c2.
             Inr (upd_state c2 a (\<lambda>s. s\<lparr>st_State := SocketTimeWait\<rparr>)))
       | state \<Rightarrow>
           if state = SocketSynReceived \<or> state = SocketEstablished
           then case st_socket (state_at c1 a) of
               None \<Rightarrow> Inl (Panic NilDereference)
             | Some sock \<Rightarrow>
                 let c2 = (if sock_flush sock then emit c1 (Woken a) else c1);
                     c3 = upd_state c2 a (\<lambda>s. s\<lparr>st_socket := Some (sock_close sock), st_RecvNext := st_RecvNext s + 1\<rparr>)
                 in bindR (can_send c3 a [] (FIN OR ACK)) (\<lambda>c4.
                      Inr (upd_state c4 a (\<lambda>s. s\<lparr>st_SendNext := st_SendNext s + 1, st_State := SocketCloseWait\<rparr>)))
           else Inr c1
      else Inr c)"

text \<open>From \<^verbatim>\<open>state.t = time.Now()\<close> to the end of the handler.\<close>

definition tcp_segment :: "Canary \<Rightarrow> nat \<Rightarrow> eth_Frame \<Rightarrow> ipv4_Header \<Rightarrow> tcp_Header \<Rightarrow> int \<Rightarrow> Canary result" where
  "tcp_segment c0 a eh iph hdr now =
     (let c = upd_state c0 a (\<lambda>s. s\<lparr>st_t := now\<rparr>) in
      if st_State (state_at c a) = SocketListen \<and> HasFlag hdr SYN then tcp_listen c a hdr
      else case tcp_rst c a hdr of
        (True, c1) \<Rightarrow> Inr c1
      | (False, c1) \<Rightarrow>
          if HasFlag hdr SYN then Inr c1
          else if \<not> HasFlag hdr ACK then Inr c1
          else case tcp_ack_states c1 a hdr of
            (True, c2) \<Rightarrow> Inr c2
          | (False, c2) \<Rightarrow>
              bindR (tcp_data (tcp_una c2 a hdr) a hdr) (\<lambda>c3. tcp_fin (tcp_knock c3 eh iph hdr) a hdr))"

text \<open>The new state of a SYN: allocated, put in the table, given a socket.\<close>

definition tcp_new_state :: "Canary \<Rightarrow> ipv4_Header \<Rightarrow> tcp_Header \<Rightarrow> u32 \<Rightarrow> u32 \<Rightarrow> int \<Rightarrow> Canary result" where
  "tcp_new_state c iph hdr ident iss now =
     (let a = length (can_states c);
          s = (NewState (ip_Src iph) (tcp_Source hdr) (ip_Dst iph) (tcp_Destination hdr) ident iss now)
                \<lparr>st_State := SocketListen\<rparr>;
          c1 = c\<lparr>can_states := can_states c @ [s]\<rparr> in
      bindR (StateTable_Add (can_states c1) (can_table c1) a now) (\<lambda>table.
        Inr (upd_state (c1\<lparr>can_table := table\<rparr>) a (\<lambda>s. s\<lparr>st_socket :=
          Some (NewSocket (TCPAddr (ip_Src iph) (uint (tcp_Source hdr)))
                          (TCPAddr (ip_Dst iph) (uint (tcp_Destination hdr))))\<rparr>))))"

text \<open>The handler after parsing: segments for other hosts, for SSH and without a state are ignored.\<close>

definition tcp_dispatch ::
  "Canary \<Rightarrow> eth_Frame \<Rightarrow> ipv4_Header \<Rightarrow> tcp_Header \<Rightarrow> u32 \<Rightarrow> u32 \<Rightarrow> int \<Rightarrow> Canary result" where
  "tcp_dispatch c eh iph hdr ident iss now =
     (if \<not> isMe c (ip_Dst iph) then Inr c
      else if tcp_Source hdr = 22 \<or> tcp_Destination hdr = 22 then Inr c
      else if HasFlag hdr SYN \<and> \<not> HasFlag hdr ACK
      then bindR (tcp_new_state c iph hdr ident iss now) (\<lambda>c1.
             tcp_segment c1 (length (can_states c)) eh iph hdr now)
      else case StateTable_Get (can_states c) (can_table c) (ip_Src iph) (ip_Dst iph)
                  (tcp_Source hdr) (tcp_Destination hdr) of
          None \<Rightarrow> Inr c
        | Some a \<Rightarrow> tcp_segment c a eh iph hdr now)"

text \<open>The header the handler goes on with; a wrong checksum does not stop it.\<close>

fun handled_header :: "tcp_parse \<Rightarrow> tcp_Header result" where
  "handled_header (Parsed hdr) = Inr hdr"
| "handled_header (BadChecksum hdr) = Inr hdr"
| "handled_header (ParseError e) = Inl (Error e)"

definition handleTCP ::
  "Canary \<Rightarrow> eth_Frame \<Rightarrow> ipv4_Header \<Rightarrow> bytes \<Rightarrow> u32 \<Rightarrow> u32 \<Rightarrow> int \<Rightarrow> Canary result" where
  "handleTCP c eh iph data ident iss now =
     bindR (UnmarshalWithChecksum data (ip_Dst iph) (ip_Src iph)) (\<lambda>parsed.
     bindR (handled_header parsed) (\<lambda>hdr.
       tcp_dispatch c eh iph hdr ident iss now))"

section \<open>The application side\<close>

text \<open>
  \<^verbatim>\<open>State.write\<close> and \<^verbatim>\<open>State.close\<close>, called by the handler goroutine through
  \<^verbatim>\<open>Write\<close> and \<^verbatim>\<open>Close\<close> of its socket.
\<close>

definition state_write :: "Canary \<Rightarrow> nat \<Rightarrow> bytes \<Rightarrow> Canary result" where
  "state_write c a data =
     bindR (can_send c a data (PSH OR ACK)) (\<lambda>c1.
       Inr (upd_state c1 a (\<lambda>s. s\<lparr>st_SendNext := st_SendNext s + of_nat (length data)\<rparr>)))"

definition state_close :: "Canary \<Rightarrow> nat \<Rightarrow> Canary result" where
  "state_close c a =
     bindR (can_send c a [] (FIN OR ACK)) (\<lambda>c1.
       Inr (upd_state c1 a (\<lambda>s. s\<lparr>st_SendNext := st_SendNext s + 1, st_State := SocketFinWait1\<rparr>)))"

section \<open>Draining the queue\<close>

text \<open>
  \<^verbatim>\<open>transmit\<close> writes packets to the raw socket until the ring buffer is empty.
  \<open>sendto\<close> tells which packets the kernel takes, \<open>ifs\<close> is the number of interfaces; the
  packets sent are the second result. The loop gets fuel; \<open>None\<close> is running out of it.
\<close>

datatype transmit_end = Drained | TransmitError string

fun transmit_loop ::
  "nat \<Rightarrow> nat \<Rightarrow> (bytes \<Rightarrow> bool) \<Rightarrow> FixedSizeRingBuf \<Rightarrow> bytes list \<Rightarrow> (FixedSizeRingBuf \<times> bytes list \<times> transmit_end) result option" where
  "transmit_loop 0 ifs sendto b sent = None"
| "transmit_loop (Suc fuel) ifs sendto b sent =
     (case rb_ReadAndMaybeAdvance b [0, 0] True of
        Inl p \<Rightarrow> Some (Inl p)
      | Inr (b1, buff, _, Some _) \<Rightarrow> Some (Inr (b1, sent, Drained))
      | Inr (b1, buff, _, None) \<Rightarrow>
          let len = unat (push_bit 8 (ucast (buff ! 0)) + ucast (buff ! 1) :: u32) in
          (case rb_Read b1 (replicate len 0) of
             Inl p \<Rightarrow> Some (Inl p)
           | Inr (b2, buffer, n, Some _) \<Rightarrow> Some (Inr (b2, sent, TransmitError ''Error reading buffer 2''))
           | Inr (b2, buffer, n, None) \<Rightarrow>
               if ifs = 0 then Some (Inl (Panic IndexOutOfRange))
               else if sendto (take n buffer) then transmit_loop fuel ifs sendto b2 (sent @ [take n buffer])
               else Some (Inr (b2, sent, TransmitError ''Error sending buffer''))))"

definition transmit :: "Canary \<Rightarrow> (bytes \<Rightarrow> bool) \<Rightarrow> (Canary \<times> bytes list \<times> transmit_end) result option" where
  "transmit c sendto =
     map_option (\<lambda>r. bindR r (\<lambda>(b, sent, e). Inr (c\<lparr>can_buffer := b\<rparr>, sent, e)))
       (transmit_loop (Suc (rb_Avail (can_buffer c))) (length (can_interfaces c)) sendto (can_buffer c) [])"

end
