(* ===== verification/Canary_Send.thy ===== *)
theory Canary_Send
  imports Canary_TCP
begin

text \<open>
  Replies of the canary listener. The hand-written checksum routines of
  \<^verbatim>\<open>canary_linux.go\<close> agree with \<^verbatim>\<open>tcp.csum\<close>, the packets that
  \<^verbatim>\<open>send\<close> builds are accepted by the program's own parsers with the fields of
  the connection state, and the transmit queue delivers frames unchanged and in order as
  long as they fit.
\<close>

section \<open>Checksums\<close>

lemma ip_pair_ucast: "ip_pair a b = ucast (be16 a b)"
  by (simp add: ip_pair_of_nat unsigned_of_nat)

lemma upd_words_eq: "upd_words acc i data = csum_words acc i data"
  by (induction acc i data rule: upd_words.induct) (simp_all add: ip_pair_ucast [symmetric] ip_pair_def add.assoc)

lemma upd_fold_eq: "upd_fold c = csum_fold c"
  by (induction c rule: upd_fold.induct)
    (simp add: upd_fold.simps csum_fold.simps u32_high_iff add.commute)

lemma len_halves: "n < 65536 \<Longrightarrow> ((of_nat n :: u32) AND 0xffff) + drop_bit 16 (of_nat n) = of_nat n"
  by (rule word_unat_eq_iff [THEN iffD2]) (simp add: unat_fold_step unsigned_of_nat take_bit_nat_eq_self)

definition ip_quad :: "bytes \<Rightarrow> quad" where
  "ip_quad p = (p ! 12, p ! 13, p ! 14, p ! 15)"

lemma upd_sum_eq:
  assumes "length data < 65536"
  shows "upd_sum src dst data =
    csum_odd data (csum_words (csum_pseudo (ip_quad src) + csum_pseudo (ip_quad dst) + 6 + of_nat (length data)) 0 data)"
proof -
  have p: "push_bit 8 (ucast a + ucast c) + (ucast b + ucast d) = csum_pseudo (a, b, c, d)" for a b c d :: byte
    by (simp add: ip_pair_def push_bit_add algebra_simps)
  have "csum_pseudo (src ! 12, src ! 13, src ! 14, src ! 15) +
      push_bit 8 (ucast (dst ! 12) + ucast (dst ! 14)) + (ucast (dst ! 13) + ucast (dst ! 15)) + 6 +
      (of_nat (length data) AND 0xffff) + drop_bit 16 (of_nat (length data)) =
      csum_pseudo (ip_quad src) + csum_pseudo (ip_quad dst) + 6 + of_nat (length data)"
    using len_halves [OF assms] p [of "dst ! 12" "dst ! 14" "dst ! 13" "dst ! 15"]
    by (simp only: ip_quad_def add.assoc)
  then show ?thesis
    unfolding upd_sum_def Let_def upd_words_eq csum_odd_def p by (simp only:)
qed

lemma fold_high_zero: "drop_bit 16 (csum_fold c) = 0"
proof -
  have "unat (csum_fold c) div 65536 = 0" using csum_fold_spec [of c] by simp
  then show ?thesis by (metis unat_drop16 unat_eq_zero)
qed

lemma ucast_not: "(ucast (NOT (c :: u32)) :: u16) = NOT (ucast c)"
  by (rule bit_word_eqI) (auto simp: bit_simps)

lemma u16_bytes_of_u32:
  "(ucast (drop_bit 8 (ucast (v :: u16) :: u32) AND 0xFF) :: byte) = ucast (drop_bit 8 v)"
  "(ucast ((ucast v :: u32) AND 0xFF) :: byte) = ucast v"
proof -
  have m: "(0xFF :: u32) = mask 8" by (simp add: mask_eq_exp_minus_1)
  show "(ucast (drop_bit 8 (ucast (v :: u16) :: u32) AND 0xFF) :: byte) = ucast (drop_bit 8 v)"
    unfolding m take_bit_eq_mask [symmetric] by (rule bit_word_eqI) (auto simp: bit_simps)
  show "(ucast ((ucast v :: u32) AND 0xFF) :: byte) = ucast v"
    unfolding m take_bit_eq_mask [symmetric] by (rule bit_word_eqI) (auto simp: bit_simps)
qed

lemma updateTCPChecksum_csum:
  assumes "length (ip_Src iph) = 16" "length (ip_Dst iph) = 16" "18 \<le> length data" "length data < 65536"
    and ck: "ck = tcp_csum data (ip_quad (ip_Src iph)) (ip_quad (ip_Dst iph))"
  shows "updateTCPChecksum iph data = Inr (data[16 := ucast (drop_bit 8 ck), 17 := ucast ck])"
proof -
  let ?f = "csum_fold (upd_sum (ip_Src iph) (ip_Dst iph) data)"
  have "ck = NOT (ucast (?f + drop_bit 16 ?f))"
    by (simp add: ck tcp_csum_def Let_def upd_sum_eq [OF assms(4)] fold_high_zero ucast_not)
  then show ?thesis
    using assms(1-3) by (simp add: updateTCPChecksum_def Let_def upd_fold_eq u16_bytes_of_u32)
qed

text \<open>The one's-complement sum of an IP header, its checksum field included.\<close>

fun header_sum :: "bytes \<Rightarrow> nat" where
  "header_sum (a # b # rest) = unat (be16 a b) + header_sum rest"
| "header_sum _ = 0"

lemma pair_sum: "push_bit 8 (ucast a) + ucast b = (ucast (be16 a b) :: u32)"
  using ip_pair_ucast [of a b] by (simp add: ip_pair_def)

lemma ip_words_after: "10 < i \<Longrightarrow> ip_words acc i xs = acc + of_nat (header_sum xs)"
  by (induction acc i xs rule: ip_words.induct) (simp_all add: pair_sum add.assoc)

lemma ip_words_split:
  "i + length pre = 10 \<Longrightarrow> even (length pre) \<Longrightarrow>
   ip_words acc i (pre @ a # b # rest) = acc + of_nat (header_sum pre + header_sum rest)"
  by (induction acc i pre rule: ip_words.induct) (auto simp: ip_words_after pair_sum add.assoc)

lemma header_sum_append: "even (length xs) \<Longrightarrow> header_sum (xs @ ys) = header_sum xs + header_sum ys"
  by (induction xs rule: header_sum.induct) auto

lemma header_sum_bound: "2 * header_sum xs \<le> 65535 * length xs"
proof (induction xs rule: header_sum.induct)
  case (1 a b rest)
  then show ?case using unat_u16_less [of "be16 a b"] by simp
qed simp_all

lemma fold_complement:
  assumes "c = of_nat n" "n < 4294967296"
  shows "(n + unat (NOT (ucast (csum_fold c)) :: u16)) mod 65535 = 0"
proof -
  have n: "unat c = n" using assms by (simp add: unsigned_of_nat take_bit_nat_eq_self)
  let ?f = "unat (csum_fold c)"
  have f: "?f < 65536" "?f mod 65535 = n mod 65535" using csum_fold_spec [of c] n by auto
  have "unat (NOT (ucast (csum_fold c)) :: u16) = 65535 - ?f"
    using unat_not_low16 [OF f(1)] by (simp only: ucast_not)
  then have "(n + unat (NOT (ucast (csum_fold c)) :: u16)) mod 65535 = (?f + (65535 - ?f)) mod 65535"
    using mod_add_cong [OF f(2) [symmetric] refl] by simp
  then show ?thesis using f(1) by simp
qed

text \<open>Writing \<open>ip_checksum\<close> into the header makes its one's-complement sum zero.\<close>

lemma ip_checksum_valid:
  assumes "20 \<le> length data" and ck: "ck = ip_checksum data"
  shows "header_sum (take 20 (data[10 := ucast (drop_bit 8 ck), 11 := ucast ck])) mod 65535 = 0"
proof -
  define pre where "pre = take 10 data"
  define post where "post = take 8 (drop 12 data)"
  have l: "length pre = 10" "length post = 8" using assms(1) by (simp_all add: pre_def post_def)
  have d: "data = take 10 data @ data ! 10 # data ! 11 # drop 12 data"
    using split_two [of 10 data] assms(1) by simp
  have t: "take 20 data = pre @ data ! 10 # data ! 11 # post"
    by (subst d) (simp add: pre_def post_def min_def)
  have t': "take 20 (data[10 := ucast (drop_bit 8 ck), 11 := ucast ck]) =
      pre @ ucast (drop_bit 8 ck) # ucast ck # post"
    using l(1) by (subst d) (simp add: pre_def post_def list_update_append)
  let ?n = "header_sum pre + header_sum post"
  have c: "ck = NOT (ucast (csum_fold (of_nat ?n)))"
    using ip_words_split [of 0 pre 0 "data ! 10" "data ! 11" post] l
    by (simp add: ck ip_checksum_def t upd_fold_eq)
  have "?n < 4294967296" using header_sum_bound [of pre] header_sum_bound [of post] l by simp
  then have "(?n + unat ck) mod 65535 = 0" unfolding c by (rule fold_complement [OF refl])
  moreover have "header_sum (pre @ ucast (drop_bit 8 ck) # ucast ck # post) = ?n + unat ck"
    using l by (simp add: header_sum_append)
  ultimately show ?thesis unfolding t' by simp
qed
section \<open>Packets\<close>

lemma ip_quad_IPv4 [simp]: "ip_quad (net_IPv4 a b c d) = (a, b, c, d)"
  by (simp add: ip_quad_def net_IPv4_def nth_append)

lemma tcp_csum_swap: "tcp_csum data s d = tcp_csum data d s"
  by (simp add: tcp_csum_def add.commute)

lemma send_tcp_header_wf: "flags < 64 \<Longrightarrow> tcp_wf (send_tcp_header s payload flags)"
  by (simp add: tcp_wf_def send_tcp_header_def empty_tcp_Header_def)

text \<open>The segment of a reply, with its checksum filled in.\<close>

definition reply_segment :: "State \<Rightarrow> bytes \<Rightarrow> Flag \<Rightarrow> u16 \<Rightarrow> bytes" where
  "reply_segment s payload flags ck =
     (tcp_fixed_bytes (tcp_laid_out (send_tcp_header s payload flags)))
       [16 := ucast (drop_bit 8 ck), 17 := ucast ck] @ payload"

lemma send_no_padding:
  "tcp_padding (send_tcp_header s payload flags) = []" "tcp_Options (send_tcp_header s payload flags) = []"
  "tcp_Payload (send_tcp_header s payload flags) = payload"
  by (simp_all add: tcp_padding_def send_tcp_header_def empty_tcp_Header_def)

lemma reply_segment_parses:
  assumes "flags < 64"
  shows "tcp_Unmarshal empty_tcp_Header (reply_segment s payload flags ck) =
    Inr (tcp_on_wire (send_tcp_header s payload flags) ck, None)"
  using tcp_Unmarshal_laid_out [OF send_tcp_header_wf [OF assms] refl,
      of s payload "ucast (drop_bit 8 ck)" "ucast ck"]
  by (simp add: reply_segment_def send_no_padding options_bytes_def)

text \<open>The IP header of a reply as it is on the wire.\<close>

definition reply_ip :: "State \<Rightarrow> bytes \<Rightarrow> u16 \<Rightarrow> ipv4_Header" where
  "reply_ip s seg ck =
     (send_ip_header s (length seg))\<lparr>ip_ID := uint (st_ID s) mod 65536, ip_Checksum := uint ck, ip_Payload := seg\<rparr>"

lemma ipv4_head_id_mod:
  "ipv4_head (h\<lparr>ip_ID := i mod 65536, ip_Payload := p\<rparr>) = ipv4_head (h\<lparr>ip_ID := i\<rparr>)"
proof -
  have "(word_of_int (i mod 65536) :: u16) = word_of_int i"
    by (rule word_of_int_eq_iff [THEN iffD2]) (simp add: take_bit_eq_mod)
  then show ?thesis by (simp add: ipv4_head_def)
qed

lemma ipv4_head_checksum:
  "ipv4_head (h\<lparr>ip_Checksum := uint (ck :: u16)\<rparr>) = (ipv4_head h)[10 := ucast (drop_bit 8 ck), 11 := ucast ck]"
  by (simp add: ipv4_head_def put_be16_def)

lemma length_ipv4_head: "ipv4_wf h \<Longrightarrow> length (ipv4_head h) = 20"
  by (simp add: ipv4_head_def ipv4_wf_def)

lemma reply_ip_wf:
  assumes "st_SrcIP s = net_IPv4 a b c d" "st_DestIP s = net_IPv4 a' b' c' d'" "length seg < 65516"
  shows "ipv4_wf (reply_ip s seg ck)"
proof -
  have "uint ck < 65536" using uint_lt2p [of ck] by simp
  then show ?thesis
    using assms by (simp add: ipv4_wf_def reply_ip_def send_ip_header_def empty_ipv4_Header_def net_IPv4_def)
qed
lemma reply_lengths:
  "length (reply_segment s payload flags ck) = 20 + length payload"
  by (simp add: reply_segment_def)

lemma send_tcp_Marshal:
  assumes "flags < 64"
  shows "tcp_Marshal (send_tcp_header s payload flags) =
    Inr (tcp_fixed_bytes (tcp_laid_out (send_tcp_header s payload flags)) @ payload,
         tcp_laid_out (send_tcp_header s payload flags))"
  using tcp_Marshal_bytes [OF send_tcp_header_wf [OF assms], of s payload]
  by (simp add: send_no_padding options_bytes_def tcp_laid_out_def)

lemma send_ip_Marshal:
  assumes "st_SrcIP s = net_IPv4 a b c d" "st_DestIP s = net_IPv4 a' b' c' d'"
  shows "ipv4_Marshal linux (Some (send_ip_header s n)) = Inr (ipv4_head (send_ip_header s n))"
  using assms
  by (simp add: ipv4_Marshal_def send_ip_header_def empty_ipv4_Header_def ipv4_HeaderLen_def
      ipv4_len_linux ipv4_head_def Let_def net_IPv4_def To4_def)

lemma list_update_front: "n < length xs \<Longrightarrow> (xs @ ys)[n := v] = xs[n := v] @ ys"
  by (simp add: list_update_append)

text \<open>What \<^verbatim>\<open>send\<close> builds, byte by byte.\<close>

lemma send_packet_bytes:
  assumes ips: "st_SrcIP s = net_IPv4 a b c d" "st_DestIP s = net_IPv4 a' b' c' d'"
    and len: "length payload \<le> 65495" and fl: "flags < 64"
  obtains ck ipck where
    "send_packet s payload flags =
       Inr (ipv4_head (reply_ip s (reply_segment s payload flags ck) ipck) @ reply_segment s payload flags ck)"
    "tcp_csum (reply_segment s payload flags ck) (a', b', c', d') (a, b, c, d) = ck"
    "header_sum (ipv4_head (reply_ip s (reply_segment s payload flags ck) ipck)) mod 65535 = 0"
proof -
  define fb where "fb = tcp_fixed_bytes (tcp_laid_out (send_tcp_header s payload flags))"
  define ck where "ck = tcp_csum (fb @ payload) (a', b', c', d') (a, b, c, d)"
  define seg where "seg = reply_segment s payload flags ck"
  define iph where "iph = send_ip_header s (20 + length payload)"
  define hb where "hb = ipv4_head iph"
  define ipck where "ipck = ip_checksum (hb @ seg)"
  have lfb: "length fb = 20" by (simp add: fb_def)
  have hb: "length hb = 20"
    using ips by (simp add: hb_def iph_def ipv4_head_def send_ip_header_def empty_ipv4_Header_def)
  have seg: "seg = (fb @ payload)[16 := ucast (drop_bit 8 ck), 17 := ucast ck]"
    by (simp add: seg_def reply_segment_def fb_def list_update_append)
  have lseg: "length seg = 20 + length payload" by (simp add: seg_def reply_lengths)
  have upd: "updateTCPChecksum iph (fb @ payload) = Inr seg"
    unfolding seg by (rule updateTCPChecksum_csum)
      (use ips len lfb in \<open>simp_all add: iph_def send_ip_header_def ck_def\<close>)
  have "send_packet s payload flags =
      Inr ((hb @ seg)[10 := ucast (drop_bit 8 ipck), 11 := ucast ipck])"
    using send_ip_Marshal [OF ips, of "20 + length payload"] upd
    by (simp add: send_packet_def send_tcp_Marshal [OF fl] fb_def [symmetric] lfb iph_def [symmetric]
        hb_def [symmetric] Let_def ipck_def [symmetric])
  moreover have rip: "ipv4_head (reply_ip s seg ipck) = hb[10 := ucast (drop_bit 8 ipck), 11 := ucast ipck]"
  proof -
    have "reply_ip s seg ipck = (iph\<lparr>ip_ID := uint (st_ID s) mod 65536, ip_Payload := seg\<rparr>)\<lparr>ip_Checksum := uint ipck\<rparr>"
      by (simp add: reply_ip_def iph_def lseg)
    moreover have "iph\<lparr>ip_ID := uint (st_ID s)\<rparr> = iph" by (simp add: iph_def send_ip_header_def)
    ultimately show ?thesis by (simp only: ipv4_head_checksum ipv4_head_id_mod hb_def)
  qed
  ultimately have "send_packet s payload flags = Inr (ipv4_head (reply_ip s seg ipck) @ seg)"
    using hb by (simp add: list_update_front)
  moreover have "tcp_csum seg (a', b', c', d') (a, b, c, d) = ck"
    unfolding seg ck_def by (rule tcp_csum_ignores_field) (simp add: lfb)
  moreover have "header_sum (ipv4_head (reply_ip s seg ipck)) mod 65535 = 0"
    using ip_checksum_valid [of "hb @ seg" ipck] hb
    by (simp add: rip ipck_def [symmetric] list_update_front)
  ultimately show ?thesis unfolding seg_def by (rule that)
qed

text \<open>
  C2: the packets that \<^verbatim>\<open>send\<close> builds are well formed. For a state with IPv4
  addresses, a payload that fits an IP packet and proper flags, \<^verbatim>\<open>send\<close> makes a packet of 40 bytes and
  the payload. The program's own parsers accept it: an IP packet from the state's
  destination to its source with a valid header checksum, that carries a TCP segment with a
  valid checksum, the ports swapped, SND.NXT and RCV.NXT as sequence and acknowledgment
  numbers, the flags and the payload.
\<close>

theorem send_packet_wellformed:
  assumes ips: "st_SrcIP s = net_IPv4 a b c d" "st_DestIP s = net_IPv4 a' b' c' d'"
    and len: "length payload \<le> 65495" and fl: "flags < 64"
  shows "\<exists>data h th. send_packet s payload flags = Inr data \<and> length data = 40 + length payload \<and>
    header_sum (take 20 data) mod 65535 = 0 \<and>
    ipv4_Parse linux data = Inr h \<and> ip_Src h = st_DestIP s \<and> ip_Dst h = st_SrcIP s \<and>
    ip_Protocol h = 6 \<and> ip_TTL h = 128 \<and>
    UnmarshalWithChecksum (ip_Payload h) (ip_Src h) (ip_Dst h) = Inr (Parsed th) \<and>
    tcp_Source th = st_DestPort s \<and> tcp_Destination th = st_SrcPort s \<and>
    tcp_SeqNum th = st_SendNext s \<and> tcp_AckNum th = st_RecvNext s \<and>
    tcp_Ctrl th = flags \<and> tcp_Window th = st_ReceiveWindow s \<and> tcp_Payload th = payload"
proof -
  obtain ck ipck where p: "send_packet s payload flags =
       Inr (ipv4_head (reply_ip s (reply_segment s payload flags ck) ipck) @ reply_segment s payload flags ck)"
    and ck: "tcp_csum (reply_segment s payload flags ck) (a', b', c', d') (a, b, c, d) = ck"
    and sum: "header_sum (ipv4_head (reply_ip s (reply_segment s payload flags ck) ipck)) mod 65535 = 0"
    using send_packet_bytes [OF assms] by blast
  define seg where "seg = reply_segment s payload flags ck"
  define h where "h = reply_ip s seg ipck"
  define th where "th = tcp_on_wire (send_tcp_header s payload flags) ck"
  have wf: "ipv4_wf h" unfolding h_def using len
    by (intro reply_ip_wf [OF ips]) (simp add: seg_def reply_lengths)
  have f: "ip_Options h = []" "ip_Payload h = seg" "ip_Src h = st_DestIP s" "ip_Dst h = st_SrcIP s"
    "ip_Protocol h = 6" "ip_TTL h = 128"
    by (simp_all add: h_def reply_ip_def send_ip_header_def empty_ipv4_Header_def)
  have parse: "ipv4_Parse linux (ipv4_head h @ seg) = Inr h"
    using ipv4_Parse_head [OF wf] f by (cases h) simp
  have "UnmarshalWithChecksum seg (ip_Src h) (ip_Dst h) = Inr (Parsed th)"
    using reply_segment_parses [OF fl, of s payload ck] ck
    by (simp add: UnmarshalWithChecksum_def f ips seg_def th_def tcp_on_wire_def)
  moreover have "tcp_Source th = st_DestPort s \<and> tcp_Destination th = st_SrcPort s \<and>
    tcp_SeqNum th = st_SendNext s \<and> tcp_AckNum th = st_RecvNext s \<and>
    tcp_Ctrl th = flags \<and> tcp_Window th = st_ReceiveWindow s \<and> tcp_Payload th = payload"
    by (simp add: th_def tcp_on_wire_def tcp_laid_out_def send_tcp_header_def empty_tcp_Header_def)
  ultimately show ?thesis
    using p parse f sum length_ipv4_head [OF wf]
    by (intro exI [of _ "ipv4_head h @ seg"] exI [of _ h] exI [of _ th])
      (simp add: h_def [symmetric] seg_def [symmetric] reply_lengths [of s payload flags ck, folded seg_def])
qed

theorem send_packet_wellformed_witness:
  "\<exists>data. send_packet (NewState (net_IPv4 10 0 0 1) 40000 (net_IPv4 10 0 0 2) 80 7 7 0) [1, 2, 3] 24 = Inr data \<and>
     length data = 43"
  using send_packet_wellformed [of "NewState (net_IPv4 10 0 0 1) 40000 (net_IPv4 10 0 0 2) 80 7 7 0"
      10 0 0 1 10 0 0 2 "[1, 2, 3]" 24]
  by (auto simp: NewState_def)

text \<open>
  C31: \<^verbatim>\<open>updateTCPChecksum\<close>, which works on the 16-byte addresses and adds the
  carries only at the end, computes the same checksum as the reference
  \<^verbatim>\<open>csum\<close> of the TCP package, and changes nothing but the checksum field.
\<close>

theorem updateTCPChecksum_equals_csum:
  assumes "ip_Src iph = net_IPv4 a b c d" "ip_Dst iph = net_IPv4 a' b' c' d'"
    and "18 \<le> length data" "length data < 65536"
  shows "updateTCPChecksum iph data =
    Inr (take 16 data @ put_be16 (tcp_csum data (a, b, c, d) (a', b', c', d')) @ drop 18 data)"
proof -
  define ck where "ck = tcp_csum data (a, b, c, d) (a', b', c', d')"
  have "updateTCPChecksum iph data = Inr (data[16 := ucast (drop_bit 8 ck), 17 := ucast ck])"
    by (rule updateTCPChecksum_csum) (use assms in \<open>simp_all add: ck_def\<close>)
  moreover have "data[16 := ucast (drop_bit 8 ck), 17 := ucast ck] = take 16 data @ put_be16 ck @ drop 18 data"
  proof -
    have "data = take 16 data @ [data ! 16, data ! 17] @ drop 18 data"
      using assms(3) by (simp add: Cons_nth_drop_Suc numeral_eq_Suc)
    then have "data[16 := ucast (drop_bit 8 ck), 17 := ucast ck] =
      (take 16 data @ [data ! 16, data ! 17] @ drop 18 data)[16 := ucast (drop_bit 8 ck), 17 := ucast ck]"
      by simp
    also have "\<dots> = take 16 data @ put_be16 ck @ drop 18 data"
      using assms(3) by (simp add: list_update_append put_be16_def)
    finally show ?thesis .
  qed
  ultimately show ?thesis by (simp add: ck_def)
qed

theorem updateTCPChecksum_equals_csum_witness:
  "updateTCPChecksum (empty_ipv4_Header\<lparr>ip_Src := net_IPv4 10 0 0 1, ip_Dst := net_IPv4 10 0 0 2\<rparr>) (replicate 21 7) =
     Inr (replicate 16 7 @ put_be16 (tcp_csum (replicate 21 7) (10, 0, 0, 1) (10, 0, 0, 2)) @ replicate 3 7)"
  using updateTCPChecksum_equals_csum [of "empty_ipv4_Header\<lparr>ip_Src := net_IPv4 10 0 0 1, ip_Dst := net_IPv4 10 0 0 2\<rparr>"
      10 0 0 1 10 0 0 2 "replicate 21 7"]
  by simp

section \<open>The transmit queue\<close>

declare transmit_loop.simps [simp del]

text \<open>A queued frame: two bytes of length and the frame.\<close>

definition queued :: "bytes \<Rightarrow> bytes" where
  "queued f = put_be16 (of_nat (length f)) @ f"

fun queue_frames :: "FixedSizeRingBuf \<Rightarrow> bytes list \<Rightarrow> FixedSizeRingBuf result" where
  "queue_frames b [] = Inr b"
| "queue_frames b (f # fs) = bindR (queue_frame b f) (\<lambda>b'. queue_frames b' fs)"

lemma length_queued [simp]: "length (queued f) = 2 + length f"
  by (simp add: queued_def)

lemma queue_frame_fits:
  assumes "rb_inv b" "length (rb_list b) + length (queued f) \<le> rb_N b"
  obtains b' where "queue_frame b f = Inr b'" "rb_inv b'" "rb_N b' = rb_N b" "rb_list b' = rb_list b @ queued f"
proof -
  let ?len = "put_be16 (of_nat (length f))"
  have room: "length (rb_list b) + length ?len \<le> rb_N b" using assms(2) by simp
  obtain b1 where b1: "rb_Write b ?len = Inr (b1, length ?len, None)" "rb_inv b1" "rb_N b1 = rb_N b"
    "rb_list b1 = rb_list b @ ?len"
    by (rule rb.enq_fits [OF assms(1) room])
  have room1: "length (rb_list b1) + length f \<le> rb_N b1"
    unfolding b1(3,4) length_append using assms(2) by simp
  obtain b2 where "rb_Write b1 f = Inr (b2, length f, None)" "rb_inv b2" "rb_N b2 = rb_N b1"
    "rb_list b2 = rb_list b1 @ f"
    by (rule rb.enq_fits [OF b1(2) room1])
  with b1 show ?thesis by (intro that) (simp_all add: queue_frame_def queued_def)
qed

lemma queue_frames_fit:
  assumes "rb_inv b" "length (rb_list b) + length (concat (map queued fs)) \<le> rb_N b"
  shows "\<exists>b'. queue_frames b fs = Inr b' \<and> rb_inv b' \<and> rb_N b' = rb_N b \<and>
    rb_list b' = rb_list b @ concat (map queued fs)"
  using assms
proof (induction fs arbitrary: b)
  case (Cons f fs)
  have room: "length (rb_list b) + length (queued f) \<le> rb_N b" using Cons.prems(2) by simp
  obtain b1 where b1: "queue_frame b f = Inr b1" "rb_inv b1" "rb_N b1 = rb_N b" "rb_list b1 = rb_list b @ queued f"
    by (rule queue_frame_fits [OF Cons.prems(1) room])
  have room1: "length (rb_list b1) + length (concat (map queued fs)) \<le> rb_N b1"
    unfolding b1(3,4) length_append using Cons.prems(2) by simp
  obtain b2 where "queue_frames b1 fs = Inr b2" "rb_inv b2" "rb_N b2 = rb_N b1"
    "rb_list b2 = rb_list b1 @ concat (map queued fs)"
    using Cons.IH [OF b1(2) room1] by blast
  with b1 show ?case by simp
qed simp

lemma be16_length:
  assumes "length f < 65536"
  shows "unat (push_bit 8 (ucast (ucast (drop_bit 8 (of_nat (length f) :: u16)) :: byte)) +
    ucast (ucast (of_nat (length f) :: u16) :: byte) :: u32) = length f"
proof -
  let ?v = "of_nat (length f) :: u16"
  have "push_bit 8 (ucast (ucast (drop_bit 8 ?v) :: byte)) + ucast (ucast ?v :: byte) = (ucast ?v :: u32)"
    using ip_pair_ucast [of "ucast (drop_bit 8 ?v)" "ucast ?v"] by (simp add: ip_pair_def)
  moreover have "unat (ucast ?v :: u32) = length f"
    using assms unat_u16_less [of ?v] by (simp add: unsigned_ucast_eq take_bit_nat_eq_self unat_of_nat)
  ultimately show ?thesis by simp
qed

lemma transmit_read_length:
  assumes "rb_inv b" "rb_list b = put_be16 v @ rest"
  obtains b' where "rb_ReadAndMaybeAdvance b [0, 0] True = Inr (b', put_be16 v, 2, None)" "rb_inv b'"
    "rb_N b' = rb_N b" "rb_list b' = rest"
proof -
  obtain b' where "rb_Read b [0, 0] = Inr (b', put_be16 v, length (put_be16 v), None)" "rb_inv b'" "rb_N b' = rb_N b"
    "rb_list b' = rest"
    by (rule rb.deq_front [OF assms, of "[0, 0]"]) (simp_all add: put_be16_def)
  then show ?thesis by (intro that) (simp_all add: rb_Read_def)
qed

lemma transmit_one:
  assumes b: "rb_inv b" "rb_list b = put_be16 (of_nat (length f)) @ take m f @ rest"
    and len: "length f < 65536" "0 < m" "f \<noteq> []" "m < length f \<longrightarrow> rest = []"
    and env: "0 < ifs" "sendto (take m f)"
  shows "\<exists>b'. transmit_loop (Suc fuel) ifs sendto b sent = transmit_loop fuel ifs sendto b' (sent @ [take m f]) \<and>
    rb_inv b' \<and> rb_N b' = rb_N b \<and> rb_list b' = rest"
proof -
  obtain b1 where b1: "rb_ReadAndMaybeAdvance b [0, 0] True = Inr (b1, put_be16 (of_nat (length f)), 2, None)"
    "rb_inv b1" "rb_N b1 = rb_N b" "rb_list b1 = take m f @ rest"
    by (rule transmit_read_length [OF b])
  have ne: "take m f \<noteq> []" using len by simp
  obtain b2 where b2: "rb_Read b1 (replicate (length f) 0) =
      Inr (b2, go_copy (replicate (length f) 0) (take m f @ rest), min (length f) (length (take m f @ rest)), None)"
    "rb_inv b2" "rb_N b2 = rb_N b1" "rb_list b2 = drop (length f) (take m f @ rest)"
    using rb.deq_law [OF b1(2), of "replicate (length f) 0"] len ne b1(4) by (auto simp del: length_rb_list)
  have "take (min (length f) (length (take m f @ rest))) (go_copy (replicate (length f) 0) (take m f @ rest)) = take m f"
    "drop (length f) (take m f @ rest) = rest"
    using len by (cases "m < length f"; simp add: go_copy_def min_def)+
  then show ?thesis
    using b1(1,3) b2 env be16_length [OF len(1)]
    by (intro exI [of _ b2]) (simp add: put_be16_def transmit_loop.simps)
qed

lemma transmit_many:
  assumes "rb_inv b" "rb_list b = concat (map queued fs) @ rest"
    and "\<And>f. f \<in> set fs \<Longrightarrow> f \<noteq> [] \<and> length f < 65536 \<and> sendto f" and "0 < ifs"
  shows "\<exists>b'. transmit_loop (length fs + fuel) ifs sendto b sent = transmit_loop fuel ifs sendto b' (sent @ fs) \<and>
    rb_inv b' \<and> rb_N b' = rb_N b \<and> rb_list b' = rest"
  using assms
proof (induction fs arbitrary: b sent)
  case (Cons f fs)
  have f: "f \<noteq> []" "length f < 65536" "sendto f" using Cons.prems(3) [of f] by simp_all
  have "rb_list b = put_be16 (of_nat (length f)) @ take (length f) f @ (concat (map queued fs) @ rest)"
    using Cons.prems(2) by (simp add: queued_def [of f])
  then obtain b1 where b1: "transmit_loop (Suc (length fs + fuel)) ifs sendto b sent =
      transmit_loop (length fs + fuel) ifs sendto b1 (sent @ [f])"
    "rb_inv b1" "rb_N b1 = rb_N b" "rb_list b1 = concat (map queued fs) @ rest"
    using transmit_one [OF Cons.prems(1), of f "length f" "concat (map queued fs) @ rest" ifs sendto "length fs + fuel" sent]
      f Cons.prems(4)
    by auto
  obtain b2 where "transmit_loop (length fs + fuel) ifs sendto b1 (sent @ [f]) =
      transmit_loop fuel ifs sendto b2 ((sent @ [f]) @ fs)" "rb_inv b2" "rb_N b2 = rb_N b1" "rb_list b2 = rest"
    using Cons.IH [OF b1(2,4), of "sent @ [f]"] Cons.prems(3,4) by auto
  with b1 show ?case by (intro exI [of _ b2]) (simp)
qed auto

lemma transmit_empty:
  assumes "rb_inv b" "rb_list b = []"
  shows "\<exists>b'. transmit_loop (Suc fuel) ifs sendto b sent = Some (Inr (b', sent, Drained)) \<and> rb_inv b' \<and>
    rb_N b' = rb_N b \<and> rb_list b' = []"
  using rb.deq_law [OF assms(1), of "[0, 0]"] assms by (auto simp: rb_Read_def transmit_loop.simps simp del: length_rb_list)

lemma length_queued_frames: "length fs \<le> length (concat (map queued fs))"
  by (induction fs) simp_all

lemma transmit_drains:
  assumes "rb_inv (can_buffer c)" "rb_list (can_buffer c) = concat (map queued fs)"
    and "\<And>f. f \<in> set fs \<Longrightarrow> f \<noteq> [] \<and> length f < 65536 \<and> sendto f" and "can_interfaces c \<noteq> []"
  shows "\<exists>b'. transmit c sendto = Some (Inr (c\<lparr>can_buffer := b'\<rparr>, fs, Drained)) \<and> rb_inv b' \<and>
    rb_N b' = rb_N (can_buffer c) \<and> rb_list b' = []"
proof -
  define fuel where "fuel = length (concat (map queued fs)) - length fs"
  have av: "rb_Avail (can_buffer c) = length fs + fuel"
    using length_queued_frames [of fs] rb_Readable_list [OF assms(2)] by (simp add: fuel_def)
  have ifs: "0 < length (can_interfaces c)" using assms(4) by simp
  obtain b1 where b1: "transmit_loop (length fs + Suc fuel) (length (can_interfaces c)) sendto (can_buffer c) [] =
      transmit_loop (Suc fuel) (length (can_interfaces c)) sendto b1 ([] @ fs)"
    "rb_inv b1" "rb_N b1 = rb_N (can_buffer c)" "rb_list b1 = []"
    using transmit_many [OF assms(1) _ assms(3) ifs, of fs "[]" "Suc fuel" "[]"] assms(2) by auto
  from transmit_empty [OF b1(2,4), of fuel "length (can_interfaces c)" sendto fs]
  obtain b2 where "transmit_loop (Suc fuel) (length (can_interfaces c)) sendto b1 fs = Some (Inr (b2, fs, Drained))"
    "rb_inv b2" "rb_N b2 = rb_N b1" "rb_list b2 = []" by blast
  with b1 show ?thesis by (intro exI [of _ b2]) (simp add: transmit_def av)
qed

text \<open>
  C21: the transmit queue is a FIFO of frames. Frames that fit the empty
  ring buffer are queued without a panic, and the next run of \<^verbatim>\<open>transmit\<close> ends,
  hands exactly these frames to the raw socket, in order and unchanged, and leaves the buffer empty.
\<close>

theorem transmit_fifo:
  assumes "rb_inv (can_buffer c)" "rb_list (can_buffer c) = []" "can_interfaces c \<noteq> []"
    and "length (concat (map queued fs)) \<le> rb_N (can_buffer c)"
    and "\<And>f. f \<in> set fs \<Longrightarrow> f \<noteq> [] \<and> length f < 65536 \<and> sendto f"
  shows "\<exists>b1 b2. queue_frames (can_buffer c) fs = Inr b1 \<and>
    transmit (c\<lparr>can_buffer := b1\<rparr>) sendto = Some (Inr (c\<lparr>can_buffer := b2\<rparr>, fs, Drained)) \<and>
    rb_inv b2 \<and> rb_list b2 = []"
proof -
  obtain b1 where b1: "queue_frames (can_buffer c) fs = Inr b1" "rb_inv b1" "rb_list b1 = concat (map queued fs)"
    using queue_frames_fit [OF assms(1), of fs] assms(2,4) by auto
  then show ?thesis
    using transmit_drains [of "c\<lparr>can_buffer := b1\<rparr>" fs sendto] assms(3,5) by auto
qed

text \<open>
  A frame that does not fit the transmit queue is cut. \<^verbatim>\<open>send\<close>
  ignores the short write and reports success, and \<^verbatim>\<open>transmit\<close> later puts the cut
  frame on the wire, since its length prefix still announces the whole frame.
\<close>

theorem transmit_cuts_frame:
  assumes "rb_inv (can_buffer c)" "rb_list (can_buffer c) = []" "can_interfaces c \<noteq> []"
    and "2 < rb_N (can_buffer c)" "rb_N (can_buffer c) < length (queued f)" "length f < 65536"
    and "sendto (take (rb_N (can_buffer c) - 2) f)"
  shows "\<exists>b1 b2. queue_frame (can_buffer c) f = Inr b1 \<and>
    transmit (c\<lparr>can_buffer := b1\<rparr>) sendto =
      Some (Inr (c\<lparr>can_buffer := b2\<rparr>, [take (rb_N (can_buffer c) - 2) f], Drained))"
proof -
  let ?b = "can_buffer c" and ?m = "rb_N (can_buffer c) - 2"
  obtain b0 where b0: "rb_Write ?b (put_be16 (of_nat (length f))) = Inr (b0, 2, None)" "rb_inv b0" "rb_N b0 = rb_N ?b"
    "rb_list b0 = put_be16 (of_nat (length f))"
    using rb.enq_fits [OF assms(1), of "put_be16 (of_nat (length f))"] assms(2,4) by (auto simp del: length_rb_list)
  obtain b1 n where b1: "rb_Write b0 f = Inr (b1, n, Some ErrShortWrite)" "rb_inv b1" "rb_N b1 = rb_N ?b"
    "length (rb_list b1) = rb_N ?b" "rb_list b1 = rb_list b0 @ take n f" "n < length f"
    using rb.enq_drops [OF b0(2), of f] assms(5) b0(3,4) by (auto simp del: length_rb_list)
  have n: "n = ?m" using b1(4-6) b0(4) by (simp del: length_rb_list)
  have f: "f \<noteq> []" "0 < ?m" "0 < length (can_interfaces c)" using assms(3-5) by auto
  obtain b2 where b2: "transmit_loop (Suc (rb_N ?b)) (length (can_interfaces c)) sendto b1 [] =
      transmit_loop (rb_N ?b) (length (can_interfaces c)) sendto b2 ([] @ [take ?m f])" "rb_inv b2" "rb_list b2 = []"
    using transmit_one [OF b1(2), of f ?m "[]" "length (can_interfaces c)" sendto "rb_N ?b" "[]"] b1(5) b0(4) n f assms(6,7)
    by auto
  obtain k where k: "rb_N ?b = Suc k" using assms(4) by (cases "rb_N ?b") auto
  obtain b3 where "transmit_loop (rb_N ?b) (length (can_interfaces c)) sendto b2 [take ?m f] =
      Some (Inr (b3, [take ?m f], Drained))"
    using transmit_empty [OF b2(2,3)] unfolding k by blast
  with b0(1) b1(1) b2(1) rb_Readable_list [OF refl, of b1] b1(4) show ?thesis
    by (intro exI [of _ b1] exI [of _ b3]) (simp add: queue_frame_def transmit_def)
qed

text \<open>A listener with one interface and a transmit queue of \<open>n\<close> bytes.\<close>

definition sample_canary :: "nat \<Rightarrow> Canary" where
  "sample_canary n =
     \<lparr>can_rt = [], can_ac = [], can_interfaces = [\<lparr>if_Name = ''eth0'', if_HardwareAddr = [2, 0, 0, 0, 0, 1],
       if_Index = 1, if_Addrs = [net_IPv4 10 0 0 2]\<rparr>], can_descriptors = [],
      can_buffer = NewFixedSizeRingBuf n, can_states = [], can_table = [], can_log = []\<rparr>"

lemma sample_canary_buffer:
  "0 < n \<Longrightarrow> rb_inv (can_buffer (sample_canary n)) \<and> rb_N (can_buffer (sample_canary n)) = n \<and>
     rb_list (can_buffer (sample_canary n)) = [] \<and> can_interfaces (sample_canary n) \<noteq> []"
  using rb_New_spec [of n] by (simp add: sample_canary_def)

theorem transmit_fifo_witness:
  "\<exists>b1 b2. queue_frames (can_buffer (sample_canary 65535)) [[1, 2, 3], [4]] = Inr b1 \<and>
    transmit ((sample_canary 65535)\<lparr>can_buffer := b1\<rparr>) (\<lambda>_. True) =
      Some (Inr ((sample_canary 65535)\<lparr>can_buffer := b2\<rparr>, [[1, 2, 3], [4]], Drained))"
proof -
  let ?c = "sample_canary 65535" and ?fs = "[[1, 2, 3], [4]]"
  have "\<exists>b1 b2. queue_frames (can_buffer ?c) ?fs = Inr b1 \<and>
    transmit (?c\<lparr>can_buffer := b1\<rparr>) (\<lambda>_. True) = Some (Inr (?c\<lparr>can_buffer := b2\<rparr>, ?fs, Drained)) \<and>
    rb_inv b2 \<and> rb_list b2 = []"
    by (rule transmit_fifo) (use sample_canary_buffer [of 65535] in auto)
  then show ?thesis by blast
qed

theorem transmit_cuts_frame_witness:
  "\<exists>b1 b2. queue_frame (can_buffer (sample_canary 4)) [1, 2, 3] = Inr b1 \<and>
    transmit ((sample_canary 4)\<lparr>can_buffer := b1\<rparr>) (\<lambda>_. True) =
      Some (Inr ((sample_canary 4)\<lparr>can_buffer := b2\<rparr>, [[1, 2]], Drained))"
  using transmit_cuts_frame [of "sample_canary 4" "[1, 2, 3]" "\<lambda>_. True"] sample_canary_buffer [of 4]
  by simp

end
