(* ===== verification/Canary_Machine.thy ===== *)
theory Canary_Machine
  imports Canary_Send
begin

text \<open>
  The connection state machine of \<^verbatim>\<open>handleTCP\<close>. The abstract machine
  \<open>tcp_next\<close> sees only the socket state, the flags of the segment and whether its
  acknowledgment is acceptable; the handler refines it. \<open>stepped a c c'\<close> is the frame
  every part of the handler keeps: only connection \<open>a\<close> changes, and all invariants hold on.
\<close>

section \<open>The abstract machine\<close>

definition fin_next :: "SocketState \<Rightarrow> SocketState" where
  "fin_next s = (case s of
     SocketFinWait1 \<Rightarrow> SocketClosing
   | SocketFinWait2 \<Rightarrow> SocketTimeWait
   | SocketSynReceived \<Rightarrow> SocketCloseWait
   | SocketEstablished \<Rightarrow> SocketCloseWait
   | _ \<Rightarrow> s)"

definition ack_next :: "SocketState \<Rightarrow> SocketState" where
  "ack_next s = (case s of
     SocketClosing \<Rightarrow> SocketTimeWait
   | SocketSynReceived \<Rightarrow> SocketEstablished
   | SocketFinWait1 \<Rightarrow> SocketFinWait2
   | SocketFinWait2 \<Rightarrow> SocketTimeWait
   | _ \<Rightarrow> s)"

definition tcp_next :: "SocketState \<Rightarrow> tcp_Header \<Rightarrow> bool \<Rightarrow> SocketState" where
  "tcp_next s hdr acceptable =
     (if s = SocketListen \<and> HasFlag hdr SYN then SocketSynReceived
      else if s = SocketSynReceived \<and> HasFlag hdr RST then SocketListen
      else if (s = SocketCloseWait \<or> s = SocketTimeWait) \<and> HasFlag hdr RST then SocketClosed
      else if HasFlag hdr SYN \<or> \<not> HasFlag hdr ACK then s
      else if s = SocketSynReceived \<and> \<not> acceptable then s
      else if HasFlag hdr FIN then fin_next (ack_next s)
      else ack_next s)"

section \<open>Frames\<close>

definition peer :: "State \<Rightarrow> ip \<times> u16 \<times> ip \<times> u16" where
  "peer s = (st_SrcIP s, st_SrcPort s, st_DestIP s, st_DestPort s)"

definition socket_ok :: "State \<Rightarrow> bool" where
  "socket_ok s \<longleftrightarrow> (\<exists>sock. st_socket s = Some sock \<and> socket_inv sock)"

definition stepped :: "nat \<Rightarrow> Canary \<Rightarrow> Canary \<Rightarrow> bool" where
  "stepped a c c' \<longleftrightarrow>
     can_rt c' = can_rt c \<and> can_ac c' = can_ac c \<and> can_interfaces c' = can_interfaces c \<and>
     can_descriptors c' = can_descriptors c \<and> length (can_states c') = length (can_states c) \<and>
     (\<forall>b. b \<noteq> a \<longrightarrow> state_at c' b = state_at c b) \<and> peer (state_at c' a) = peer (state_at c a) \<and>
     (socket_ok (state_at c a) \<longrightarrow> socket_ok (state_at c' a)) \<and>
     (rb_inv (can_buffer c) \<longrightarrow> rb_inv (can_buffer c') \<and> rb_N (can_buffer c') = rb_N (can_buffer c)) \<and>
     (table_inv (can_states c) (can_table c) \<longrightarrow> table_inv (can_states c') (can_table c') \<and>
        length (can_table c') = length (can_table c)) \<and>
     (\<exists>l. can_log c' = can_log c @ l)"

definition canary_inv :: "Canary \<Rightarrow> bool" where
  "canary_inv c \<longleftrightarrow> rb_inv (can_buffer c) \<and> table_inv (can_states c) (can_table c) \<and>
     (\<forall>a < length (can_states c). socket_ok (state_at c a))"

lemma stepped_refl [simp, intro]: "stepped a c c"
  by (simp add: stepped_def)

lemma stepped_trans [trans]: "stepped a c c1 \<Longrightarrow> stepped a c1 c2 \<Longrightarrow> stepped a c c2"
  by (auto simp: stepped_def)

lemma state_at_upd [simp]:
  "state_at (upd_state c a f) b = (if a = b \<and> a < length (can_states c) then f (state_at c a) else state_at c b)"
  by (cases "a < length (can_states c)") (auto simp: state_at_def upd_state_def list_update_beyond)

lemma state_at_emit [simp]: "state_at (emit c e) b = state_at c b"
  by (simp add: state_at_def emit_def)

lemma state_at_updates [simp]:
  "state_at (c\<lparr>can_table := t\<rparr>) b = state_at c b" "state_at (c\<lparr>can_buffer := r\<rparr>) b = state_at c b"
  by (simp_all add: state_at_def)

lemma upd_state_simps [simp]:
  "can_rt (upd_state c a f) = can_rt c" "can_ac (upd_state c a f) = can_ac c"
  "can_interfaces (upd_state c a f) = can_interfaces c" "can_descriptors (upd_state c a f) = can_descriptors c"
  "can_buffer (upd_state c a f) = can_buffer c" "can_table (upd_state c a f) = can_table c"
  "can_log (upd_state c a f) = can_log c" "length (can_states (upd_state c a f)) = length (can_states c)"
  by (simp_all add: upd_state_def)

lemma emit_simps [simp]:
  "can_rt (emit c e) = can_rt c" "can_ac (emit c e) = can_ac c"
  "can_interfaces (emit c e) = can_interfaces c" "can_descriptors (emit c e) = can_descriptors c"
  "can_buffer (emit c e) = can_buffer c" "can_table (emit c e) = can_table c"
  "can_log (emit c e) = can_log c @ [e]" "can_states (emit c e) = can_states c"
  by (simp_all add: emit_def)

lemma table_inv_length: "length h = length h' \<Longrightarrow> table_inv h t = table_inv h' t"
  by (simp add: table_inv_def)

lemma stepped_upd:
  assumes "peer (f (state_at c a)) = peer (state_at c a)"
    and "socket_ok (state_at c a) \<Longrightarrow> socket_ok (f (state_at c a))"
  shows "stepped a c (upd_state c a f)"
  using assms table_inv_length [of "can_states (upd_state c a f)" "can_states c"] by (simp add: stepped_def)

lemma stepped_emit [simp]: "stepped a c (emit c e)"
  by (simp add: stepped_def)

lemma stepped_remove [simp]: "stepped a c (c\<lparr>can_table := StateTable_Remove (can_table c) b\<rparr>)"
  using StateTable_Remove_spec by (auto simp: stepped_def)

lemma peer_simps [simp]:
  "peer (s\<lparr>st_ID := x1\<rparr>) = peer s" "peer (s\<lparr>st_State := x2\<rparr>) = peer s" "peer (s\<lparr>st_t := x3\<rparr>) = peer s"
  "peer (s\<lparr>st_SendNext := x4\<rparr>) = peer s" "peer (s\<lparr>st_RecvNext := x4\<rparr>) = peer s"
  "peer (s\<lparr>st_SendUnacknowledged := x4\<rparr>) = peer s" "peer (s\<lparr>st_socket := x5\<rparr>) = peer s"
  by (simp_all add: peer_def)

lemma socket_ok_simps [simp]:
  "socket_ok (s\<lparr>st_ID := x1\<rparr>) = socket_ok s" "socket_ok (s\<lparr>st_State := x2\<rparr>) = socket_ok s"
  "socket_ok (s\<lparr>st_t := x3\<rparr>) = socket_ok s" "socket_ok (s\<lparr>st_SendNext := x4\<rparr>) = socket_ok s"
  "socket_ok (s\<lparr>st_RecvNext := x4\<rparr>) = socket_ok s" "socket_ok (s\<lparr>st_SendUnacknowledged := x4\<rparr>) = socket_ok s"
  "socket_ok (s\<lparr>st_socket := Some sock\<rparr>) = socket_inv sock"
  by (simp_all add: socket_ok_def)

section \<open>Sending\<close>

lemma queue_frame_inv:
  assumes "rb_inv b"
  shows "\<exists>b'. queue_frame b f = Inr b' \<and> rb_inv b' \<and> rb_N b' = rb_N b"
proof -
  obtain b1 n1 e1 where b1: "rb_Write b (put_be16 (of_nat (length f))) = Inr (b1, n1, e1)" "rb_inv b1" "rb_N b1 = rb_N b"
    using rb.enq_law [OF assms] by metis
  obtain b2 n2 e2 where "rb_Write b1 f = Inr (b2, n2, e2)" "rb_inv b2" "rb_N b2 = rb_N b1"
    using rb.enq_law [OF b1(2)] by metis
  with b1 show ?thesis by (simp add: queue_frame_def)
qed

lemma queue_frame_keeps:
  assumes "queue_frame b f = Inr b'" "rb_inv b"
  shows "rb_inv b' \<and> rb_N b' = rb_N b"
  using queue_frame_inv [OF assms(2), of f] assms(1) by simp

text \<open>A send that returns changes the identification of the connection, the queue and the log.\<close>

lemma can_send_Inr:
  assumes "can_send c a p flags = Inr c'"
  obtains "c' = c"
  | b fd where "c' = emit ((upd_state c a (\<lambda>s. s\<lparr>st_ID := st_ID s + 1\<rparr>))\<lparr>can_buffer := b\<rparr>) (PollOut fd)"
      "\<exists>f. queue_frame (can_buffer c) f = Inr b"
proof (cases "send_packet (state_at c a) p flags")
  case (Inl e)
  then show ?thesis using assms that(1) by (cases e) (simp_all add: can_send_def)
next
  case (Inr data)
  let ?dst = "net_IPv4 (data ! 16) (data ! 17) (data ! 18) (data ! 19)"
  show ?thesis
  proof (cases "resolve (can_ac c) (can_rt c) ?dst")
    case None
    then show ?thesis using assms Inr by (simp add: can_send_def bindR_Inr_iff)
  next
    case (Some ae)
    then show ?thesis using assms Inr that(2) by (auto simp: can_send_def bindR_Inr_iff Let_def)
  qed
qed

lemma can_send_stepped: "can_send c a p flags = Inr c' \<Longrightarrow> stepped a c c'"
proof (erule can_send_Inr)
  fix b fd
  assume c': "c' = emit ((upd_state c a (\<lambda>s. s\<lparr>st_ID := st_ID s + 1\<rparr>))\<lparr>can_buffer := b\<rparr>) (PollOut fd)"
    and b: "\<exists>f. queue_frame (can_buffer c) f = Inr b"
  have "stepped a c (upd_state c a (\<lambda>s. s\<lparr>st_ID := st_ID s + 1\<rparr>))" by (rule stepped_upd) simp_all
  also have "stepped a \<dots> ((upd_state c a (\<lambda>s. s\<lparr>st_ID := st_ID s + 1\<rparr>))\<lparr>can_buffer := b\<rparr>)"
    using b queue_frame_keeps by (auto simp: stepped_def)
  also have "stepped a \<dots> c'" unfolding c' by simp
  finally show "stepped a c c'" .
qed simp

lemma can_send_state:
  "can_send c a p flags = Inr c' \<Longrightarrow> \<exists>x. state_at c' a = (state_at c a)\<lparr>st_ID := x\<rparr>"
proof (erule can_send_Inr)
  show "c' = c \<Longrightarrow> \<exists>x. state_at c' a = (state_at c a)\<lparr>st_ID := x\<rparr>" by (intro exI [of _ "st_ID (state_at c a)"]) simp
qed (auto intro: exI [of _ "st_ID (state_at c a)"])

lemma can_send_same_length: "can_send c a p flags = Inr c' \<Longrightarrow> length (can_states c') = length (can_states c)"
  by (drule can_send_stepped) (simp add: stepped_def)

lemma can_send_same_table: "can_send c a p flags = Inr c' \<Longrightarrow> can_table c' = can_table c"
  by (erule can_send_Inr) simp_all

lemma can_send_log: "can_send c a p flags = Inr c' \<Longrightarrow> \<exists>fds. can_log c' = can_log c @ map PollOut fds"
proof (erule can_send_Inr)
  show "c' = c \<Longrightarrow> \<exists>fds. can_log c' = can_log c @ map PollOut fds" by (intro exI [of _ "[]"]) simp
next
  fix b fd
  assume "c' = emit ((upd_state c a (\<lambda>s. s\<lparr>st_ID := st_ID s + 1\<rparr>))\<lparr>can_buffer := b\<rparr>) (PollOut fd)"
  then show "\<exists>fds. can_log c' = can_log c @ map PollOut fds" by (intro exI [of _ "[fd]"]) simp
qed

section \<open>The parts of the handler keep the frame\<close>

lemma stepped_upd_trans:
  assumes "stepped a c c1" "peer (f (state_at c1 a)) = peer (state_at c1 a)"
    and "socket_ok (state_at c1 a) \<Longrightarrow> socket_ok (f (state_at c1 a))"
  shows "stepped a c (upd_state c1 a f)"
  using stepped_trans [OF assms(1)] stepped_upd [of f c1 a] assms(2,3) by blast

lemma stepped_length: "stepped a c c' \<Longrightarrow> length (can_states c') = length (can_states c)"
  by (simp add: stepped_def)

lemma sock_close_inv: "socket_inv sock \<Longrightarrow> socket_inv (sock_close sock)"
  by (simp add: sock_close_id)

lemma sock_write_inv: "socket_inv sock \<Longrightarrow> \<exists>sock'. sock_write sock p = Inr (sock', length p) \<and> socket_inv sock'"
  using rb.enq_law [of "sock_rbuffer sock" p] by (auto simp: sock_write_def socket_inv_def)

lemma tcp_listen_stepped:
  assumes "tcp_listen c a hdr = Inr c'"
  shows "stepped a c c'"
proof -
  let ?c1 = "upd_state c a (\<lambda>s. s\<lparr>st_SendUnacknowledged := st_InitialSendSequenceNumber s,
                 st_SendNext := st_InitialSendSequenceNumber s + 1, st_RecvNext := tcp_SeqNum hdr + 1\<rparr>)"
  obtain c2 where c2: "can_send ?c1 a [] (SYN OR ACK) = Inr c2"
    "c' = upd_state c2 a (\<lambda>s. s\<lparr>st_SendNext := st_SendNext s + 1, st_State := SocketSynReceived\<rparr>)"
    using assms by (auto simp: tcp_listen_def Let_def bindR_Inr_iff)
  have "stepped a c ?c1" by (rule stepped_upd) simp_all
  also have "stepped a ?c1 c2" by (rule can_send_stepped) (rule c2)
  finally show ?thesis unfolding c2(2) by (rule stepped_upd_trans) simp_all
qed

lemma tcp_rst_stepped: "stepped a c (snd (tcp_rst c a hdr))"
proof -
  let ?remove = "(upd_state c a (\<lambda>s. s\<lparr>st_State := SocketClosed\<rparr>))\<lparr>can_table := StateTable_Remove (can_table c) a\<rparr>"
  have "stepped a c (upd_state c a (\<lambda>s. s\<lparr>st_State := SocketClosed\<rparr>))" by (rule stepped_upd) simp_all
  also have "stepped a \<dots> ?remove"
    using stepped_remove [of a "upd_state c a (\<lambda>s. s\<lparr>st_State := SocketClosed\<rparr>)" a] by simp
  finally have "stepped a c ?remove" .
  moreover have "stepped a c (upd_state c a (\<lambda>s. s\<lparr>st_State := SocketListen\<rparr>))" by (rule stepped_upd) simp_all
  ultimately show ?thesis by (simp add: tcp_rst_def Let_def split: SocketState.splits)
qed

lemma tcp_ack_states_stepped: "stepped a c (snd (tcp_ack_states c a hdr))"
proof -
  define c1 where "c1 = (if st_State (state_at c a) = SocketClosing
                then upd_state c a (\<lambda>s. s\<lparr>st_State := SocketTimeWait\<rparr>) else c)"
  define c2 where "c2 = (if st_State (state_at c1 a) = SocketCloseWait
                then c1\<lparr>can_table := StateTable_Remove (can_table c1) a\<rparr> else c1)"
  have "stepped a c c1" by (auto simp: c1_def intro!: stepped_upd)
  also have "stepped a c1 c2" by (simp add: c2_def)
  finally have c2: "stepped a c c2" .
  then have "stepped a c (upd_state c2 a (\<lambda>s. s\<lparr>st_State := SocketEstablished\<rparr>))"
    by (rule stepped_upd_trans) simp_all
  then have "stepped a c (emit (upd_state c2 a (\<lambda>s. s\<lparr>st_State := SocketEstablished\<rparr>)) e)" for e
    by (rule stepped_trans) simp
  then show ?thesis using c2 by (simp add: tcp_ack_states_def c1_def [symmetric] c2_def [symmetric] Let_def)
qed

lemma tcp_una_stepped: "stepped a c (tcp_una c a hdr)"
  unfolding tcp_una_def by (rule stepped_upd) (simp_all add: Let_def)

lemma tcp_knock_stepped: "stepped a c (tcp_knock c eh iph hdr)"
  by (simp add: tcp_knock_def)

lemma tcp_data_stepped:
  assumes "tcp_data c a hdr = Inr c'"
  shows "stepped a c c'"
proof (cases "st_State (state_at c a) \<in> {SocketEstablished, SocketFinWait1, SocketFinWait2}")
  case True
  then obtain sock sock' n where s: "st_socket (state_at c a) = Some sock"
    and w: "sock_write sock (tcp_Payload hdr) = Inr (sock', n)"
    using assms by (auto simp: tcp_data_def bindR_Inr_iff split: option.splits)
  let ?c1 = "upd_state c a (\<lambda>s. s\<lparr>st_socket := Some sock'\<rparr>)"
  let ?c2 = "if HasFlag hdr PSH \<and> sock_flush sock' then emit ?c1 (Woken a) else ?c1"
  let ?c3 = "upd_state ?c2 a (\<lambda>s. s\<lparr>st_RecvNext := st_RecvNext s + of_nat (length (tcp_Payload hdr))\<rparr>)"
  have "socket_ok (state_at c a) \<Longrightarrow> socket_inv sock'"
    using s w sock_write_inv [of sock "tcp_Payload hdr"] by (auto simp: socket_ok_def)
  then have "stepped a c ?c1" by (intro stepped_upd) simp_all
  also have "stepped a ?c1 ?c2" by simp
  finally have "stepped a c ?c3" by (rule stepped_upd_trans) simp_all
  moreover have "(if 0 < length (tcp_Payload hdr) then can_send ?c3 a [] ACK else Inr ?c3) = Inr c'"
    using assms True s w by (simp add: tcp_data_def Let_def del: length_greater_0_conv)
  ultimately show ?thesis
    using can_send_stepped [of ?c3 a "[]" ACK c'] stepped_trans [of a c ?c3 c'] by (simp split: if_splits)
next
  case False
  then show ?thesis using assms by (simp add: tcp_data_def)
qed

text \<open>The outcomes of the FIN step.\<close>

lemma tcp_fin_cases:
  assumes "tcp_fin c a hdr = Inr c'"
  obtains (none) "\<not> HasFlag hdr FIN" "c' = c"
  | (closing) "HasFlag hdr FIN" "st_State (state_at c a) = SocketFinWait1"
      "c' = upd_state (upd_state c a (\<lambda>s. s\<lparr>st_RecvNext := tcp_SeqNum hdr\<rparr>)) a (\<lambda>s. s\<lparr>st_State := SocketClosing\<rparr>)"
  | (acked) c1 c2 where "HasFlag hdr FIN" "st_State (state_at c a) = SocketFinWait2"
      "c1 = upd_state (upd_state c a (\<lambda>s. s\<lparr>st_RecvNext := tcp_SeqNum hdr\<rparr>)) a (\<lambda>s. s\<lparr>st_RecvNext := st_RecvNext s + 1\<rparr>)"
      "can_send c1 a [] ACK = Inr c2" "c' = upd_state c2 a (\<lambda>s. s\<lparr>st_State := SocketTimeWait\<rparr>)"
  | (closed) sock c2 c3 c4 where "HasFlag hdr FIN" "st_State (state_at c a) \<in> {SocketSynReceived, SocketEstablished}"
      "st_socket (state_at (upd_state c a (\<lambda>s. s\<lparr>st_RecvNext := tcp_SeqNum hdr\<rparr>)) a) = Some sock"
      "c2 = (let c1 = upd_state c a (\<lambda>s. s\<lparr>st_RecvNext := tcp_SeqNum hdr\<rparr>) in if sock_flush sock then emit c1 (Woken a) else c1)"
      "c3 = upd_state c2 a (\<lambda>s. s\<lparr>st_socket := Some (sock_close sock), st_RecvNext := st_RecvNext s + 1\<rparr>)"
      "can_send c3 a [] (FIN OR ACK) = Inr c4"
      "c' = upd_state c4 a (\<lambda>s. s\<lparr>st_SendNext := st_SendNext s + 1, st_State := SocketCloseWait\<rparr>)"
  | (ignored) "HasFlag hdr FIN"
      "st_State (state_at c a) \<notin> {SocketFinWait1, SocketFinWait2, SocketSynReceived, SocketEstablished}"
      "c' = upd_state c a (\<lambda>s. s\<lparr>st_RecvNext := tcp_SeqNum hdr\<rparr>)"
proof (cases "HasFlag hdr FIN")
  case False
  then show ?thesis using assms none by (simp add: tcp_fin_def HasFlag_def)
next
  case True
  let ?c1 = "upd_state c a (\<lambda>s. s\<lparr>st_RecvNext := tcp_SeqNum hdr\<rparr>)"
  have same: "st_State (state_at ?c1 a) = st_State (state_at c a)" by simp
  note fin = assms [unfolded tcp_fin_def Let_def same] and fl = True [unfolded HasFlag_def]
  consider "st_State (state_at c a) = SocketFinWait1" | "st_State (state_at c a) = SocketFinWait2"
    | "st_State (state_at c a) \<in> {SocketSynReceived, SocketEstablished}"
    | "st_State (state_at c a) \<notin> {SocketFinWait1, SocketFinWait2, SocketSynReceived, SocketEstablished}"
    by blast
  then show ?thesis
  proof cases
    case 1
    then show ?thesis using fin fl closing [OF True] by simp
  next
    case 2
    then show ?thesis using fin fl acked [OF True] by (auto simp: bindR_Inr_iff)
  next
    case 3
    then obtain sock where "st_socket (state_at ?c1 a) = Some sock"
      using fin fl by (cases "st_socket (state_at ?c1 a)") (auto split: SocketState.splits)
    then show ?thesis using 3 fin fl closed [OF True 3 _ refl refl] by (auto simp: bindR_Inr_iff Let_def)
  next
    case 4
    then show ?thesis using fin fl ignored [OF True 4] by (cases "st_State (state_at c a)") simp_all
  qed
qed

lemma tcp_fin_stepped:
  assumes "tcp_fin c a hdr = Inr c'"
  shows "stepped a c c'"
proof -
  let ?c1 = "upd_state c a (\<lambda>s. s\<lparr>st_RecvNext := tcp_SeqNum hdr\<rparr>)"
  have c1: "stepped a c ?c1" by (rule stepped_upd) simp_all
  from assms show ?thesis
  proof (cases rule: tcp_fin_cases)
    case closing
    then show ?thesis using c1 by (auto intro: stepped_upd_trans)
  next
    case (acked c1' c2)
    have "stepped a c c1'" unfolding acked(3) using c1 by (rule stepped_upd_trans) simp_all
    also have "stepped a c1' c2" using acked(4) by (rule can_send_stepped)
    finally show ?thesis unfolding acked(5) by (rule stepped_upd_trans) simp_all
  next
    case (closed sock c2 c3 c4)
    have "stepped a ?c1 c2" unfolding closed(4) by (simp add: Let_def)
    with c1 have c2: "stepped a c c2" by (rule stepped_trans)
    have "state_at c2 a = state_at ?c1 a" by (simp add: closed(4) Let_def)
    then have "stepped a c c3"
      unfolding closed(5) using c2 closed(3)
      by (intro stepped_upd_trans) (auto simp: socket_ok_def sock_close_inv)
    also have "stepped a c3 c4" using closed(6) by (rule can_send_stepped)
    finally show ?thesis unfolding closed(7) by (rule stepped_upd_trans) simp_all
  qed (use c1 in simp_all)
qed

text \<open>The ways through the handler.\<close>

lemma tcp_segment_cases:
  assumes "tcp_segment c0 a eh iph hdr now = Inr c'"
    and c: "c = upd_state c0 a (\<lambda>s. s\<lparr>st_t := now\<rparr>)"
  obtains (listen) "st_State (state_at c a) = SocketListen" "HasFlag hdr SYN" "tcp_listen c a hdr = Inr c'"
  | (reset) "\<not> (st_State (state_at c a) = SocketListen \<and> HasFlag hdr SYN)" "tcp_rst c a hdr = (True, c')"
  | (dropped) "\<not> (st_State (state_at c a) = SocketListen \<and> HasFlag hdr SYN)" "tcp_rst c a hdr = (False, c')"
      "HasFlag hdr SYN \<or> \<not> HasFlag hdr ACK"
  | (refused) c1 where "tcp_rst c a hdr = (False, c1)" "\<not> HasFlag hdr SYN" "HasFlag hdr ACK"
      "tcp_ack_states c1 a hdr = (True, c')"
  | (acked) c1 c2 c3 where "tcp_rst c a hdr = (False, c1)" "\<not> HasFlag hdr SYN" "HasFlag hdr ACK"
      "tcp_ack_states c1 a hdr = (False, c2)" "tcp_data (tcp_una c2 a hdr) a hdr = Inr c3"
      "tcp_fin (tcp_knock c3 eh iph hdr) a hdr = Inr c'"
proof -
  obtain r1 c1 where rst: "tcp_rst c a hdr = (r1, c1)" by (cases "tcp_rst c a hdr")
  obtain r2 c2 where acks: "tcp_ack_states c1 a hdr = (r2, c2)" by (cases "tcp_ack_states c1 a hdr")
  note seg = assms(1) [unfolded tcp_segment_def Let_def, folded c, unfolded rst, simplified, unfolded acks, simplified]
  show ?thesis
  proof (cases "st_State (state_at c a) = SocketListen \<and> HasFlag hdr SYN")
    case True
    then show ?thesis using seg by (intro listen) simp_all
  next
    case no: False
    show ?thesis
    proof (cases "r1 \<or> HasFlag hdr SYN \<or> \<not> HasFlag hdr ACK")
      case True
      then show ?thesis using seg no rst reset dropped by (cases r1) (auto split: if_splits)
    next
      case go: False
      show ?thesis
      proof (cases r2)
        case True
        then show ?thesis using seg no go rst acks by (intro refused) auto
      next
        case False
        then show ?thesis using seg no go rst acks acked by (auto simp: bindR_Inr_iff)
      qed
    qed
  qed
qed

lemma tcp_segment_stepped:
  assumes "tcp_segment c0 a eh iph hdr now = Inr c'"
  shows "stepped a c0 c'"
proof -
  define c where "c = upd_state c0 a (\<lambda>s. s\<lparr>st_t := now\<rparr>)"
  have c: "stepped a c0 c" unfolding c_def by (rule stepped_upd) simp_all
  have rst: "stepped a c0 c1" if "tcp_rst c a hdr = (r, c1)" for r c1
    using stepped_trans [OF c tcp_rst_stepped, of hdr] that by simp
  have acks: "stepped a c0 c2" if "tcp_rst c a hdr = (r, c1)" "tcp_ack_states c1 a hdr = (r', c2)" for r r' c1 c2
    using stepped_trans [OF rst [OF that(1)] tcp_ack_states_stepped, of hdr] that by simp
  from assms c_def show ?thesis
  proof (cases rule: tcp_segment_cases)
    case listen
    then show ?thesis using c tcp_listen_stepped stepped_trans by blast
  next
    case (acked c1 c2 c3)
    have "stepped a c0 (tcp_una c2 a hdr)" using acks [OF acked(1,4)] tcp_una_stepped by (rule stepped_trans)
    also have "stepped a \<dots> c3" using acked(5) by (rule tcp_data_stepped)
    also have "stepped a c3 (tcp_knock c3 eh iph hdr)" by (rule tcp_knock_stepped)
    also have "stepped a \<dots> c'" using acked(6) by (rule tcp_fin_stepped)
    finally show ?thesis .
  qed (use rst acks in blast)+
qed

section \<open>The handler refines the machine\<close>

lemma tcp_rst_state:
  assumes "a < length (can_states c)"
  shows "tcp_rst c a hdr = (True, c1) \<Longrightarrow> HasFlag hdr RST \<and> st_State (state_at c a) \<in> {SocketSynReceived, SocketCloseWait, SocketTimeWait} \<and>
      st_State (state_at c1 a) = (if st_State (state_at c a) = SocketSynReceived then SocketListen else SocketClosed)"
    and "tcp_rst c a hdr = (False, c1) \<Longrightarrow> c1 = c \<and>
      \<not> (HasFlag hdr RST \<and> st_State (state_at c a) \<in> {SocketSynReceived, SocketCloseWait, SocketTimeWait})"
  using assms by (auto simp: tcp_rst_def Let_def split: if_splits SocketState.splits)

lemma tcp_ack_states_state:
  assumes "a < length (can_states c)"
  shows "tcp_ack_states c a hdr = (True, c1) \<Longrightarrow> st_State (state_at c a) = SocketSynReceived \<and> c1 = c \<and>
      \<not> ack_acceptable (state_at c a) hdr"
    and "tcp_ack_states c a hdr = (False, c1) \<Longrightarrow>
      \<not> (st_State (state_at c a) = SocketSynReceived \<and> \<not> ack_acceptable (state_at c a) hdr) \<and>
      st_State (state_at c1 a) = (case st_State (state_at c a) of SocketClosing \<Rightarrow> SocketTimeWait
        | SocketSynReceived \<Rightarrow> SocketEstablished | s \<Rightarrow> s)"
  using assms
  by (auto simp: tcp_ack_states_def Let_def split: if_splits SocketState.splits)

lemma tcp_una_state:
  assumes "a < length (can_states c)"
  shows "st_State (state_at (tcp_una c a hdr) a) = (case st_State (state_at c a) of SocketFinWait1 \<Rightarrow> SocketFinWait2
        | SocketFinWait2 \<Rightarrow> SocketTimeWait | s \<Rightarrow> s)"
  using assms by (auto simp: tcp_una_def Let_def split: SocketState.splits)

lemma can_send_same_state: "can_send c a p flags = Inr c' \<Longrightarrow> st_State (state_at c' a) = st_State (state_at c a)"
  by (drule can_send_state) auto

lemma tcp_data_state:
  assumes "tcp_data c a hdr = Inr c'"
  shows "st_State (state_at c' a) = st_State (state_at c a)"
  using assms
  by (auto simp: tcp_data_def Let_def bindR_Inr_iff split: if_splits option.splits dest!: can_send_same_state)

lemma tcp_fin_state:
  assumes "tcp_fin c a hdr = Inr c'" "a < length (can_states c)"
  shows "st_State (state_at c' a) = (if HasFlag hdr FIN then fin_next (st_State (state_at c a)) else st_State (state_at c a))"
  using assms(1)
proof (cases rule: tcp_fin_cases)
  case (acked c1 c2)
  then show ?thesis using assms(2) can_send_same_length [OF acked(4)] by (simp add: fin_next_def)
next
  case (closed sock c2 c3 c4)
  then have "length (can_states c4) = length (can_states c)"
    using can_send_same_length [OF closed(6)] by (simp add: Let_def split: if_splits)
  then show ?thesis using assms(2) closed by (auto simp: fin_next_def)
next
  case ignored
  then show ?thesis using assms(2) by (cases "st_State (state_at c a)") (simp_all add: fin_next_def)
qed (use assms(2) in \<open>simp_all add: fin_next_def\<close>)

lemma tcp_listen_state:
  assumes "tcp_listen c a hdr = Inr c'" "a < length (can_states c)"
  shows "st_State (state_at c' a) = SocketSynReceived"
  using assms by (auto simp: tcp_listen_def Let_def bindR_Inr_iff dest!: can_send_same_length)

lemma tcp_segment_next:
  assumes "tcp_segment c0 a eh iph hdr now = Inr c'" "a < length (can_states c0)"
  shows "st_State (state_at c' a) = tcp_next (st_State (state_at c0 a)) hdr (ack_acceptable (state_at c0 a) hdr)"
proof -
  define c where "c = upd_state c0 a (\<lambda>s. s\<lparr>st_t := now\<rparr>)"
  have c: "a < length (can_states c)" "st_State (state_at c a) = st_State (state_at c0 a)"
    "ack_acceptable (state_at c a) hdr = ack_acceptable (state_at c0 a) hdr"
    using assms(2) by (simp_all add: c_def ack_acceptable_def)
  from assms(1) c_def show ?thesis
  proof (cases rule: tcp_segment_cases)
    case listen
    then show ?thesis using tcp_listen_state c by (simp add: tcp_next_def)
  next
    case reset
    then show ?thesis using tcp_rst_state(1) [OF c(1) reset(2)] c by (auto simp: tcp_next_def)
  next
    case dropped
    then show ?thesis using tcp_rst_state(2) [OF c(1) dropped(2)] c by (auto simp: tcp_next_def)
  next
    case (refused c1)
    then show ?thesis
      using tcp_rst_state(2) [OF c(1) refused(1)] tcp_ack_states_state(1) [OF c(1), of hdr c'] c
      by (auto simp: tcp_next_def)
  next
    case (acked c1 c2 c3)
    have c1: "c1 = c" "\<not> (HasFlag hdr RST \<and> st_State (state_at c a) \<in> {SocketSynReceived, SocketCloseWait, SocketTimeWait})"
      using tcp_rst_state(2) [OF c(1) acked(1)] by simp_all
    have len: "length (can_states c2) = length (can_states c)"
      using tcp_ack_states_stepped [of a c hdr] acked(4) c1(1) by (simp add: stepped_def)
    have len3: "length (can_states (tcp_knock c3 eh iph hdr)) = length (can_states c)"
      using stepped_length [OF tcp_data_stepped [OF acked(5)]] len by (simp add: tcp_una_def tcp_knock_def)
    have s2: "\<not> (st_State (state_at c a) = SocketSynReceived \<and> \<not> ack_acceptable (state_at c a) hdr)"
      "st_State (state_at c2 a) = (case st_State (state_at c a) of SocketClosing \<Rightarrow> SocketTimeWait
        | SocketSynReceived \<Rightarrow> SocketEstablished | s \<Rightarrow> s)"
      using tcp_ack_states_state(2) [OF c(1), of hdr c2] acked(4) c1(1) by simp_all
    have "st_State (state_at (tcp_una c2 a hdr) a) = ack_next (st_State (state_at c a))"
      using tcp_una_state [of a c2 hdr] s2(2) len c(1) by (simp add: ack_next_def split: SocketState.splits)
    then have "st_State (state_at (tcp_knock c3 eh iph hdr) a) = ack_next (st_State (state_at c a))"
      using tcp_data_state [OF acked(5)] by (simp add: tcp_knock_def)
    then have "st_State (state_at c' a) = (if HasFlag hdr FIN then fin_next (ack_next (st_State (state_at c a)))
        else ack_next (st_State (state_at c a)))"
      using tcp_fin_state [OF acked(6)] len3 c(1) by simp
    then show ?thesis using s2(1) c1(2) c acked(2,3) by (auto simp: tcp_next_def)
  qed
qed

section \<open>Segments\<close>

text \<open>The header of a segment as \<^verbatim>\<open>handleTCP\<close> reads it.\<close>

definition segment_header :: "bytes \<Rightarrow> ipv4_Header \<Rightarrow> tcp_Header result" where
  "segment_header data iph = bindR (UnmarshalWithChecksum data (ip_Dst iph) (ip_Src iph)) handled_header"

lemma handleTCP_header:
  "handleTCP c eh iph data ident iss now =
     bindR (segment_header data iph) (\<lambda>hdr. tcp_dispatch c eh iph hdr ident iss now)"
  by (simp add: handleTCP_def segment_header_def bindR_assoc)

lemma handleTCP_cases:
  assumes "handleTCP c eh iph data ident iss now = Inr c'"
  obtains (ignored) "c' = c"
  | (opened) hdr c1 where "segment_header data iph = Inr hdr" "isMe c (ip_Dst iph)" "HasFlag hdr SYN" "\<not> HasFlag hdr ACK"
      "tcp_new_state c iph hdr ident iss now = Inr c1"
      "tcp_segment c1 (length (can_states c)) eh iph hdr now = Inr c'"
  | (found) hdr a where "segment_header data iph = Inr hdr" "isMe c (ip_Dst iph)"
      "\<not> (HasFlag hdr SYN \<and> \<not> HasFlag hdr ACK)"
      "StateTable_Get (can_states c) (can_table c) (ip_Src iph) (ip_Dst iph) (tcp_Source hdr) (tcp_Destination hdr) = Some a"
      "tcp_segment c a eh iph hdr now = Inr c'"
proof -
  obtain hdr where h: "segment_header data iph = Inr hdr" "tcp_dispatch c eh iph hdr ident iss now = Inr c'"
    using assms by (auto simp: handleTCP_header bindR_Inr_iff)
  show ?thesis
    using h(2) ignored opened [OF h(1)] found [OF h(1)]
    by (auto simp: tcp_dispatch_def bindR_Inr_iff split: if_splits option.splits)
qed

lemma tcp_new_state_spec:
  assumes "tcp_new_state c iph hdr ident iss now = Inr c1"
  obtains s table where "can_states c1 = can_states c @ [s]" "st_State s = SocketListen"
    "peer s = (ip_Src iph, tcp_Source hdr, ip_Dst iph, tcp_Destination hdr)"
    "st_socket s = Some (NewSocket (TCPAddr (ip_Src iph) (uint (tcp_Source hdr)))
                          (TCPAddr (ip_Dst iph) (uint (tcp_Destination hdr))))"
    "st_InitialSendSequenceNumber s = iss" "c1 = c\<lparr>can_states := can_states c @ [s], can_table := table\<rparr>"
    "\<exists>s0. StateTable_Add (can_states c @ [s0]) (can_table c) (length (can_states c)) now = Inr table \<and>
       s = s0\<lparr>st_socket := st_socket s\<rparr>"
proof -
  define s0 where "s0 = (NewState (ip_Src iph) (tcp_Source hdr) (ip_Dst iph) (tcp_Destination hdr) ident iss now)
                \<lparr>st_State := SocketListen\<rparr>"
  obtain table where t: "StateTable_Add (can_states c @ [s0]) (can_table c) (length (can_states c)) now = Inr table"
    and c1: "c1 = upd_state (c\<lparr>can_states := can_states c @ [s0], can_table := table\<rparr>) (length (can_states c)) (\<lambda>s. s\<lparr>st_socket :=
          Some (NewSocket (TCPAddr (ip_Src iph) (uint (tcp_Source hdr)))
                          (TCPAddr (ip_Dst iph) (uint (tcp_Destination hdr))))\<rparr>)"
    using assms by (auto simp: tcp_new_state_def Let_def bindR_Inr_iff s0_def)
  define s where "s = s0\<lparr>st_socket := Some (NewSocket (TCPAddr (ip_Src iph) (uint (tcp_Source hdr)))
                          (TCPAddr (ip_Dst iph) (uint (tcp_Destination hdr))))\<rparr>"
  have "\<exists>s0. StateTable_Add (can_states c @ [s0]) (can_table c) (length (can_states c)) now = Inr table \<and>
       s = s0\<lparr>st_socket := st_socket s\<rparr>"
    by (rule exI [of _ s0]) (simp add: t s_def)
  moreover have "can_states c1 = can_states c @ [s]" "c1 = c\<lparr>can_states := can_states c @ [s], can_table := table\<rparr>"
    by (simp_all add: c1 upd_state_def s_def)
  ultimately show ?thesis
    by (intro that [of s table]) (simp_all add: s_def s0_def NewState_def peer_def)
qed


section \<open>Invariants\<close>

lemma stepped_inv:
  assumes "stepped a c c'" "canary_inv c" "a < length (can_states c)"
  shows "canary_inv c'"
  using assms unfolding canary_inv_def stepped_def by metis

lemma tcp_new_state_inv:
  assumes "tcp_new_state c iph hdr ident iss now = Inr c1" "canary_inv c"
  shows "canary_inv c1 \<and> length (can_states c1) = Suc (length (can_states c))"
proof -
  obtain s table s0 where s: "can_states c1 = can_states c @ [s]"
    "st_socket s = Some (NewSocket (TCPAddr (ip_Src iph) (uint (tcp_Source hdr)))
                          (TCPAddr (ip_Dst iph) (uint (tcp_Destination hdr))))"
    "c1 = c\<lparr>can_states := can_states c @ [s], can_table := table\<rparr>"
    and add: "StateTable_Add (can_states c @ [s0]) (can_table c) (length (can_states c)) now = Inr table"
    using assms(1) by (elim tcp_new_state_spec) blast
  have t: "table_inv (can_states c) (can_table c)" using assms(2) by (simp add: canary_inv_def)
  then have old: "table_inv (can_states c @ [s0]) (can_table c)" "length (can_states c) \<notin> table_addrs (can_table c)"
    by (auto simp: table_inv_def)
  have new: "table_inv (can_states c @ [s0]) table" using StateTable_Add_spec [OF old(1) _ old(2) add] by simp
  have "table_inv (can_states c1) table"
    using new table_inv_length [of "can_states c1" "can_states c @ [s0]"] by (simp add: s(1))
  moreover have "socket_ok (state_at c1 b)" if "b < length (can_states c1)" for b
    using that assms(2) s(1,2) NewSocket_inv
    by (cases "b = length (can_states c)") (auto simp: canary_inv_def state_at_def nth_append socket_ok_def)
  ultimately show ?thesis using assms(2) s(1,3) by (simp add: canary_inv_def)
qed

lemma handleTCP_inv:
  assumes "handleTCP c eh iph data ident iss now = Inr c'" "canary_inv c"
  shows "canary_inv c'"
  using assms(1)
proof (cases rule: handleTCP_cases)
  case (opened hdr c1)
  then show ?thesis
    using tcp_new_state_inv [OF opened(5) assms(2)] stepped_inv [OF tcp_segment_stepped [OF opened(6)]] by simp
next
  case (found hdr a)
  have "a < length (can_states c)"
    using StateTable_Get_Some [OF found(4)] assms(2) by (auto simp: canary_inv_def table_inv_def)
  then show ?thesis using stepped_inv [OF tcp_segment_stepped [OF found(5)] assms(2)] by simp
qed (use assms(2) in simp)

lemma state_write_stepped: "state_write c a data = Inr c' \<Longrightarrow> stepped a c c'"
  by (auto simp: state_write_def bindR_Inr_iff dest!: can_send_stepped intro: stepped_upd_trans)

lemma state_close_stepped: "state_close c a = Inr c' \<Longrightarrow> stepped a c c'"
  by (auto simp: state_close_def bindR_Inr_iff dest!: can_send_stepped intro: stepped_upd_trans)

text \<open>A connection has a handler goroutine when it has left the opening states.\<close>

definition opening_states :: "SocketState set" where
  "opening_states = {SocketClosed, SocketListen, SocketSynReceived}"

definition has_handler :: "Canary \<Rightarrow> nat \<Rightarrow> bool" where
  "has_handler c a \<longleftrightarrow> (\<exists>p. HandlerStarted a p \<in> set (can_log c))"

definition unused_states :: "SocketState set" where
  "unused_states = {SocketSynSent, SocketClosing, SocketLastAck}"

definition handler_inv :: "Canary \<Rightarrow> bool" where
  "handler_inv c \<longleftrightarrow> (\<forall>a < length (can_states c). st_State (state_at c a) \<notin> unused_states \<and>
     (st_State (state_at c a) \<notin> opening_states \<longrightarrow> has_handler c a))"

lemma has_handler_mono: "has_handler c a \<Longrightarrow> stepped b c c' \<Longrightarrow> has_handler c' a"
  by (auto simp: has_handler_def stepped_def)

lemma tcp_next_used: "s \<notin> unused_states \<Longrightarrow> tcp_next s hdr acc \<notin> unused_states"
  by (cases s) (auto simp: tcp_next_def ack_next_def fin_next_def unused_states_def)

lemma tcp_segment_handler:
  assumes "tcp_segment c0 a eh iph hdr now = Inr c'" "a < length (can_states c0)"
    and "st_State (state_at c0 a) \<in> opening_states" "st_State (state_at c' a) \<notin> opening_states"
  shows "has_handler c' a"
proof -
  define c where "c = upd_state c0 a (\<lambda>s. s\<lparr>st_t := now\<rparr>)"
  have c: "a < length (can_states c)" "st_State (state_at c a) = st_State (state_at c0 a)"
    using assms(2) by (simp_all add: c_def)
  from assms(1) c_def show ?thesis
  proof (cases rule: tcp_segment_cases)
    case (acked c1 c2 c3)
    have c1: "c1 = c" using tcp_rst_state(2) [OF c(1) acked(1)] by simp
    have "st_State (state_at c a) = SocketSynReceived"
      using assms tcp_segment_next [OF assms(1,2)] c(2)
      by (auto simp: opening_states_def tcp_next_def ack_next_def fin_next_def split: if_splits)
    then have "has_handler c2 a"
      using acked(4) c1 by (auto simp: tcp_ack_states_def Let_def has_handler_def split: if_splits)
    moreover have "stepped a c2 c'"
      using stepped_trans [OF tcp_una_stepped tcp_data_stepped [OF acked(5)]]
        stepped_trans [OF tcp_knock_stepped tcp_fin_stepped [OF acked(6)]] stepped_trans by blast
    ultimately show ?thesis by (rule has_handler_mono)
  next
    case listen
    then show ?thesis using assms tcp_listen_state [OF listen(3) c(1)] by (simp add: opening_states_def)
  next
    case reset
    then show ?thesis using assms(4) tcp_rst_state(1) [OF c(1) reset(2)] by (auto simp: opening_states_def split: if_splits)
  next
    case dropped
    then show ?thesis using assms(3,4) tcp_rst_state(2) [OF c(1) dropped(2)] c(2) by simp
  next
    case (refused c1)
    then show ?thesis
      using assms(3,4) tcp_rst_state(2) [OF c(1) refused(1)] tcp_ack_states_state(1) [OF c(1), of hdr c'] c(2) by auto
  qed
qed

lemma handleTCP_handler_inv:
  assumes run: "handleTCP c eh iph data ident iss now = Inr c'" and inv: "canary_inv c" "handler_inv c"
  shows "handler_inv c'"
  using run
proof (cases rule: handleTCP_cases)
  case (opened hdr c1)
  let ?n = "length (can_states c)"
  obtain s table where s: "can_states c1 = can_states c @ [s]" "st_State s = SocketListen" "can_log c1 = can_log c"
    using opened(5) by (elim tcp_new_state_spec) simp
  have at: "state_at c1 ?n = s" "\<And>b. b < ?n \<Longrightarrow> state_at c1 b = state_at c b"
    using s(1) by (simp_all add: state_at_def nth_append)
  have st: "stepped ?n c1 c'" using opened(6) by (rule tcp_segment_stepped)
  have new: "st_State (state_at c' ?n) = SocketSynReceived"
    using tcp_segment_next [OF opened(6)] opened(3) s(1,2) at(1) by (simp add: tcp_next_def)
  have h1: "has_handler c b \<Longrightarrow> has_handler c' b" for b
    using has_handler_mono [OF _ st] s(3) by (simp add: has_handler_def)
  have old: "b < length (can_states c') \<Longrightarrow> b \<noteq> ?n \<Longrightarrow> b < ?n \<and> state_at c' b = state_at c b" for b
    using st s(1) at(2) [of b] by (auto simp: stepped_def)
  show ?thesis
    unfolding handler_inv_def
  proof (intro allI impI)
    fix b assume b: "b < length (can_states c')"
    show "st_State (state_at c' b) \<notin> unused_states \<and> (st_State (state_at c' b) \<notin> opening_states \<longrightarrow> has_handler c' b)"
      using new old [OF b] inv(2) h1
      by (cases "b = ?n") (simp_all add: unused_states_def opening_states_def handler_inv_def)
  qed
next
  case (found hdr a)
  have a: "a < length (can_states c)"
    using StateTable_Get_Some [OF found(4)] inv(1) by (auto simp: canary_inv_def table_inv_def)
  note st = tcp_segment_stepped [OF found(5)]
  have "st_State (state_at c' b) \<notin> unused_states \<and> (st_State (state_at c' b) \<notin> opening_states \<longrightarrow> has_handler c' b)"
    if b: "b < length (can_states c')" for b
  proof (cases "b = a")
    case True
    then show ?thesis
      using tcp_segment_next [OF found(5) a] tcp_next_used tcp_segment_handler [OF found(5) a] has_handler_mono [OF _ st] a inv(2)
      by (metis handler_inv_def)
  next
    case False
    then have "state_at c' b = state_at c b" "b < length (can_states c)" using st b by (simp_all add: stepped_def)
    then show ?thesis using inv(2) has_handler_mono [OF _ st] by (metis handler_inv_def)
  qed
  then show ?thesis by (simp add: handler_inv_def)
qed (use inv in simp)

section \<open>The handler does not panic\<close>

definition sendable :: "Canary \<Rightarrow> State \<Rightarrow> bool" where
  "sendable c s \<longleftrightarrow> (\<exists>p q r t. st_SrcIP s = net_IPv4 p q r t) \<and> (\<exists>p q r t. st_DestIP s = net_IPv4 p q r t) \<and>
     resolve (can_ac c) (can_rt c) (st_SrcIP s) \<noteq> None"

definition canary_ready :: "Canary \<Rightarrow> bool" where
  "canary_ready c \<longleftrightarrow> canary_inv c \<and> can_interfaces c \<noteq> [] \<and>
     (\<forall>a < length (can_states c). sendable c (state_at c a))"

lemma send_tcp_total:
  "\<exists>data h. tcp_Marshal (send_tcp_header s payload flags) = Inr (data, h) \<and> length data = 20 + length payload"
  by (simp add: tcp_Marshal_def send_tcp_header_def empty_tcp_Header_def options_size_def Let_def tcp_fixed_bytes_def)

lemma send_packet_total:
  assumes "st_SrcIP s = net_IPv4 a b c d" "st_DestIP s = net_IPv4 a' b' c' d'"
  shows "\<exists>data. send_packet s payload flags = Inr data \<and>
    net_IPv4 (data ! 16) (data ! 17) (data ! 18) (data ! 19) = st_SrcIP s"
proof -
  obtain data1 h where d1: "tcp_Marshal (send_tcp_header s payload flags) = Inr (data1, h)" "length data1 = 20 + length payload"
    using send_tcp_total by blast
  define iph where "iph = send_ip_header s (length data1)"
  obtain data2 where d2: "updateTCPChecksum iph data1 = Inr data2"
    using assms d1(2) by (simp add: updateTCPChecksum_def iph_def send_ip_header_def Let_def)
  have hb: "drop 16 (ipv4_head iph) = [a, b, c, d]" "length (ipv4_head iph) = 20"
    using assms by (simp_all add: iph_def ipv4_head_def send_ip_header_def empty_ipv4_Header_def put_be16_def net_IPv4_def)
  obtain pre where pre: "ipv4_head iph = pre @ [a, b, c, d]" "length pre = 16"
    using hb append_take_drop_id [of 16 "ipv4_head iph"] that [of "take 16 (ipv4_head iph)"] by simp
  have m: "ipv4_Marshal linux (Some iph) = Inr (pre @ [a, b, c, d])"
    using send_ip_Marshal [OF assms, of "length data1"] unfolding iph_def [symmetric] pre(1) .
  show ?thesis
    using m d1(1) d2 assms(1) pre(2)
    by (simp add: send_packet_def iph_def [symmetric] Let_def nth_append list_update_append)
qed

lemma can_send_total:
  assumes "sendable c (state_at c a)" "can_interfaces c \<noteq> []" "rb_inv (can_buffer c)"
  shows "\<exists>c'. can_send c a payload flags = Inr c'"
proof -
  obtain data where d: "send_packet (state_at c a) payload flags = Inr data"
    "net_IPv4 (data ! 16) (data ! 17) (data ! 18) (data ! 19) = st_SrcIP (state_at c a)"
    using assms(1) send_packet_total unfolding sendable_def by metis
  obtain ae where ae: "resolve (can_ac c) (can_rt c) (st_SrcIP (state_at c a)) = Some ae"
    using assms(1) by (auto simp: sendable_def)
  obtain intf where i: "go_at (can_interfaces c) 0 = Inr intf" using assms(2) by (simp add: go_at_def)
  obtain frame where f: "send_frame (if_HardwareAddr intf) (ae_HardwareAddress ae) data = Inr frame"
    by (simp add: send_frame_def eth_Marshal_def)
  obtain b where "queue_frame (can_buffer c) frame = Inr b" using queue_frame_inv [OF assms(3)] by blast
  then show ?thesis using d ae i f by (simp add: can_send_def Let_def)
qed

lemma stepped_ready:
  assumes "stepped a c c'" "canary_ready c" "a < length (can_states c)"
  shows "canary_ready c'"
proof -
  have "canary_inv c'" using assms stepped_inv by (simp add: canary_ready_def)
  moreover have "sendable c' (state_at c' b)" if "b < length (can_states c')" for b
    using assms that by (cases "b = a") (auto simp: canary_ready_def stepped_def sendable_def peer_def)
  ultimately show ?thesis using assms by (simp add: canary_ready_def stepped_def)
qed

lemma ready_send:
  assumes "canary_ready c" "a < length (can_states c)"
  shows "\<exists>c'. can_send c a payload flags = Inr c'"
  using assms by (intro can_send_total) (simp_all add: canary_ready_def canary_inv_def)

lemma ready_socket: "canary_ready c \<Longrightarrow> a < length (can_states c) \<Longrightarrow> \<exists>sock. st_socket (state_at c a) = Some sock \<and> socket_inv sock"
  by (auto simp: canary_ready_def canary_inv_def socket_ok_def)

lemma tcp_listen_total:
  assumes "canary_ready c" "a < length (can_states c)"
  shows "\<exists>c'. tcp_listen c a hdr = Inr c'"
proof -
  let ?c1 = "upd_state c a (\<lambda>s. s\<lparr>st_SendUnacknowledged := st_InitialSendSequenceNumber s,
                 st_SendNext := st_InitialSendSequenceNumber s + 1, st_RecvNext := tcp_SeqNum hdr + 1\<rparr>)"
  have "stepped a c ?c1" by (rule stepped_upd) simp_all
  from stepped_ready [OF this assms] show ?thesis
    using ready_send [of ?c1 a "[]" "SYN OR ACK"] assms(2) by (auto simp: tcp_listen_def Let_def)
qed

lemma tcp_data_total:
  assumes "canary_ready c" "a < length (can_states c)"
  shows "\<exists>c'. tcp_data c a hdr = Inr c'"
proof (cases "st_State (state_at c a) \<in> {SocketEstablished, SocketFinWait1, SocketFinWait2}")
  case True
  obtain sock where sock: "st_socket (state_at c a) = Some sock" "socket_inv sock" using ready_socket [OF assms] by blast
  obtain sock' where w: "sock_write sock (tcp_Payload hdr) = Inr (sock', length (tcp_Payload hdr))" "socket_inv sock'"
    using sock_write_inv [OF sock(2)] by blast
  let ?c1 = "upd_state c a (\<lambda>s. s\<lparr>st_socket := Some sock'\<rparr>)"
  let ?c2 = "if HasFlag hdr PSH \<and> sock_flush sock' then emit ?c1 (Woken a) else ?c1"
  let ?c3 = "upd_state ?c2 a (\<lambda>s. s\<lparr>st_RecvNext := st_RecvNext s + of_nat (length (tcp_Payload hdr))\<rparr>)"
  have "stepped a c ?c1" using w(2) by (intro stepped_upd) simp_all
  also have "stepped a ?c1 ?c2" by simp
  finally have "stepped a c ?c3" by (rule stepped_upd_trans) simp_all
  then have "\<exists>c'. can_send ?c3 a [] ACK = Inr c'"
    using stepped_ready [OF _ assms] ready_send [of ?c3 a] assms(2) by simp
  then show ?thesis using True sock(1) w(1) by (auto simp: tcp_data_def Let_def)
qed (simp add: tcp_data_def)

lemma tcp_fin_total:
  assumes "canary_ready c" "a < length (can_states c)"
  shows "\<exists>c'. tcp_fin c a hdr = Inr c'"
proof -
  let ?c1 = "upd_state c a (\<lambda>s. s\<lparr>st_RecvNext := tcp_SeqNum hdr\<rparr>)"
  let ?fw = "upd_state ?c1 a (\<lambda>s. s\<lparr>st_RecvNext := st_RecvNext s + 1\<rparr>)"
  have st1: "stepped a c ?c1" by (rule stepped_upd) simp_all
  have len: "a < length (can_states ?c1)" using assms(2) by simp
  note r1 = stepped_ready [OF st1 assms]
  have "stepped a c ?fw" using st1 by (rule stepped_upd_trans) simp_all
  from stepped_ready [OF this assms] have fw: "\<exists>c'. can_send ?fw a [] ACK = Inr c'"
    using ready_send [of ?fw a] assms(2) by simp
  obtain sock where sock: "st_socket (state_at ?c1 a) = Some sock" "socket_inv sock" using ready_socket [OF r1 len] by blast
  let ?c2 = "if sock_flush sock then emit ?c1 (Woken a) else ?c1"
  let ?c3 = "upd_state ?c2 a (\<lambda>s. s\<lparr>st_socket := Some (sock_close sock), st_RecvNext := st_RecvNext s + 1\<rparr>)"
  have "stepped a ?c1 ?c2" by simp
  then have "stepped a ?c1 ?c3" using sock(2) by (intro stepped_upd_trans) (simp_all add: sock_close_inv)
  from stepped_ready [OF this r1 len] have cl: "\<exists>c'. can_send ?c3 a [] (FIN OR ACK) = Inr c'"
    using ready_send [of ?c3 a] assms(2) by simp
  have same: "st_State (state_at ?c1 a) = st_State (state_at c a)" by simp
  show ?thesis
    unfolding tcp_fin_def Let_def same using fw cl sock(1)
    by (cases "st_State (state_at c a)") (simp_all, auto)
qed

lemma tcp_segment_total:
  assumes "canary_ready c0" "a < length (can_states c0)"
  shows "\<exists>c'. tcp_segment c0 a eh iph hdr now = Inr c'"
proof -
  define c where "c = upd_state c0 a (\<lambda>s. s\<lparr>st_t := now\<rparr>)"
  have c: "stepped a c0 c" unfolding c_def by (rule stepped_upd) simp_all
  have ready: "canary_ready c1 \<and> a < length (can_states c1)" if "stepped a c0 c1" for c1
    using that assms stepped_ready [OF that assms] stepped_length [OF that] by simp
  obtain r1 c1 where rst: "tcp_rst c a hdr = (r1, c1)" by (cases "tcp_rst c a hdr")
  obtain r2 c2 where acks: "tcp_ack_states c1 a hdr = (r2, c2)" by (cases "tcp_ack_states c1 a hdr")
  have "stepped a c0 c1" using stepped_trans [OF c tcp_rst_stepped, of hdr] rst by simp
  then have "stepped a c0 c2" using stepped_trans [OF _ tcp_ack_states_stepped, of a c0 c1 hdr] acks by simp
  then have una: "stepped a c0 (tcp_una c2 a hdr)" using tcp_una_stepped by (rule stepped_trans)
  obtain c3 where c3: "tcp_data (tcp_una c2 a hdr) a hdr = Inr c3" using tcp_data_total ready [OF una] by blast
  have "stepped a c0 (tcp_knock c3 eh iph hdr)"
    using stepped_trans [OF una tcp_data_stepped [OF c3]] tcp_knock_stepped by (rule stepped_trans)
  then obtain c4 where "tcp_fin (tcp_knock c3 eh iph hdr) a hdr = Inr c4" using tcp_fin_total ready by blast
  moreover obtain cl where "tcp_listen c a hdr = Inr cl" using tcp_listen_total ready [OF c] by blast
  ultimately show ?thesis
    using rst acks c3 by (auto simp: tcp_segment_def Let_def c_def [symmetric] split: bool.splits)
qed

lemma free_slot_Add:
  assumes "None \<in> set st"
  shows "\<exists>st'. StateTable_Add heap st a now = Inr st'"
proof -
  have "slot_reusable heap None" by (simp add: slot_reusable_def)
  then have "first_index (slot_reusable heap) st \<noteq> None" using assms unfolding first_index_None by blast
  then show ?thesis by (auto simp: StateTable_Add_def)
qed

lemma tcp_new_state_ready:
  assumes "canary_ready c" "None \<in> set (can_table c)"
    and "ip_Src iph = net_IPv4 p q r t" "ip_Dst iph = net_IPv4 p' q' r' t'"
    and "resolve (can_ac c) (can_rt c) (ip_Src iph) \<noteq> None"
  obtains c1 where "tcp_new_state c iph hdr ident iss now = Inr c1" "canary_ready c1"
    "length (can_states c1) = Suc (length (can_states c))"
proof -
  obtain c1 where new: "tcp_new_state c iph hdr ident iss now = Inr c1"
  proof -
    let ?s = "(NewState (ip_Src iph) (tcp_Source hdr) (ip_Dst iph) (tcp_Destination hdr) ident iss now)
                \<lparr>st_State := SocketListen\<rparr>"
    obtain t where "StateTable_Add (can_states c @ [?s]) (can_table c) (length (can_states c)) now = Inr t"
      using free_slot_Add [OF assms(2)] by blast
    then show ?thesis by (intro that) (simp add: tcp_new_state_def)
  qed
  obtain s table where s: "can_states c1 = can_states c @ [s]"
    "peer s = (ip_Src iph, tcp_Source hdr, ip_Dst iph, tcp_Destination hdr)"
    "c1 = c\<lparr>can_states := can_states c @ [s], can_table := table\<rparr>"
    using new by (rule tcp_new_state_spec)
  have inv: "canary_inv c1 \<and> length (can_states c1) = Suc (length (can_states c))"
    using new assms(1) by (intro tcp_new_state_inv) (simp_all add: canary_ready_def)
  have new_ok: "sendable c1 s" using s(2,3) assms(3-5) by (simp add: sendable_def peer_def)
  have "sendable c1 (state_at c1 b)" if "b < length (can_states c1)" for b
    using that new_ok assms(1) s(1,3)
    by (cases "b = length (can_states c)") (auto simp: canary_ready_def sendable_def state_at_def nth_append)
  then have "canary_ready c1" using inv assms(1) s(3) by (simp add: canary_ready_def)
  with new inv show ?thesis using that by blast
qed



section \<open>Opening a connection\<close>

lemma tcp_listen_fields:
  assumes "tcp_listen c a hdr = Inr c'" "a < length (can_states c)"
  shows "st_SendUnacknowledged (state_at c' a) = st_InitialSendSequenceNumber (state_at c a) \<and>
    st_SendNext (state_at c' a) = st_InitialSendSequenceNumber (state_at c a) + 2 \<and>
    st_RecvNext (state_at c' a) = tcp_SeqNum hdr + 1 \<and> can_table c' = can_table c"
proof -
  let ?c1 = "upd_state c a (\<lambda>s. s\<lparr>st_SendUnacknowledged := st_InitialSendSequenceNumber s,
                 st_SendNext := st_InitialSendSequenceNumber s + 1, st_RecvNext := tcp_SeqNum hdr + 1\<rparr>)"
  obtain c2 where c2: "can_send ?c1 a [] (SYN OR ACK) = Inr c2"
    "c' = upd_state c2 a (\<lambda>s. s\<lparr>st_SendNext := st_SendNext s + 1, st_State := SocketSynReceived\<rparr>)"
    using assms(1) by (auto simp: tcp_listen_def Let_def bindR_Inr_iff)
  obtain x where "state_at c2 a = (state_at ?c1 a)\<lparr>st_ID := x\<rparr>" using can_send_state [OF c2(1)] by blast
  then show ?thesis
    using c2(2) can_send_same_length [OF c2(1)] can_send_same_table [OF c2(1)] assms(2) by simp
qed

text \<open>A SYN for a new peer leaves a half-open connection with these numbers.\<close>

lemma handleTCP_syn:
  assumes ready: "canary_ready c" and slot: "None \<in> set (can_table c)"
    and ips: "ip_Src iph = net_IPv4 p q r t" "ip_Dst iph = net_IPv4 p' q' r' t'"
    and res: "resolve (can_ac c) (can_rt c) (ip_Src iph) \<noteq> None"
    and me: "isMe c (ip_Dst iph)" and hdr: "segment_header data iph = Inr hdr" "tcp_Source hdr \<noteq> 22" "tcp_Destination hdr \<noteq> 22"
    and syn: "HasFlag hdr SYN" "\<not> HasFlag hdr ACK"
  obtains c1 where "handleTCP c eh iph data ident iss now = Inr c1" "canary_ready c1"
    "length (can_states c1) = Suc (length (can_states c))" "length (can_states c) \<in> table_addrs (can_table c1)"
    "table_addrs (can_table c1) \<subseteq> insert (length (can_states c)) (table_addrs (can_table c))"
    "st_State (state_at c1 (length (can_states c))) = SocketSynReceived"
    "peer (state_at c1 (length (can_states c))) = (ip_Src iph, tcp_Source hdr, ip_Dst iph, tcp_Destination hdr)"
    "st_SendUnacknowledged (state_at c1 (length (can_states c))) = iss"
    "st_SendNext (state_at c1 (length (can_states c))) = iss + 2"
    "\<And>b. b < length (can_states c) \<Longrightarrow> state_at c1 b = state_at c b"
    "can_interfaces c1 = can_interfaces c"
proof -
  let ?n = "length (can_states c)"
  obtain c0 where c0: "tcp_new_state c iph hdr ident iss now = Inr c0" "canary_ready c0"
    "length (can_states c0) = Suc ?n"
    using tcp_new_state_ready [OF ready slot ips res] .
  obtain s table s0 where s: "can_states c0 = can_states c @ [s]" "st_State s = SocketListen"
    "peer s = (ip_Src iph, tcp_Source hdr, ip_Dst iph, tcp_Destination hdr)"
    "st_InitialSendSequenceNumber s = iss" "c0 = c\<lparr>can_states := can_states c @ [s], can_table := table\<rparr>"
    and add: "StateTable_Add (can_states c @ [s0]) (can_table c) ?n now = Inr table"
    using c0(1) by (elim tcp_new_state_spec) blast
  have t: "table_inv (can_states c @ [s0]) (can_table c)" "?n \<notin> table_addrs (can_table c)"
    using ready by (auto simp: canary_ready_def canary_inv_def table_inv_def)
  have addrs: "?n \<in> table_addrs table" "table_addrs table \<subseteq> insert ?n (table_addrs (can_table c))"
    using StateTable_Add_spec [OF t(1) _ t(2) add] by auto
  let ?c = "upd_state c0 ?n (\<lambda>s. s\<lparr>st_t := now\<rparr>)"
  have at: "state_at c0 ?n = s" "\<And>b. b < ?n \<Longrightarrow> state_at c0 b = state_at c b"
    using s(1) by (simp_all add: state_at_def nth_append)
  have cready: "canary_ready ?c"
    by (rule stepped_ready [OF stepped_upd c0(2)]) (simp_all add: c0(3))
  obtain c1 where c1: "tcp_listen ?c ?n hdr = Inr c1" using tcp_listen_total [OF cready] c0(3) by auto
  have run: "tcp_segment c0 ?n eh iph hdr now = Inr c1"
    using c1 at(1) s(2) syn(1) c0(3) by (simp add: tcp_segment_def Let_def)
  note st = tcp_segment_stepped [OF run]
  have "handleTCP c eh iph data ident iss now = Inr c1"
    using hdr me syn c0(1) run by (simp add: handleTCP_header tcp_dispatch_def)
  moreover have "canary_ready c1" using stepped_ready [OF st c0(2)] c0(3) by simp
  ultimately show ?thesis
    using st at s tcp_listen_fields [OF c1] tcp_listen_state [OF c1] c0(3) addrs
    by (intro that [of c1]) (simp_all add: stepped_def)
qed



text \<open>
  When ISS is one of the two largest sequence numbers the handshake can never complete.
  The handler compares sequence numbers as plain integers, so once SND.NXT has wrapped to
  ISS + 2 no acknowledgment number lies between SND.UNA and SND.NXT, and no segment moves the
  half-open connection on.
\<close>

theorem handshake_wrap_stuck:
  assumes "a < length (can_states c)" "st_State (state_at c a) = SocketSynReceived"
    and "st_SendUnacknowledged (state_at c a) = iss" "st_SendNext (state_at c a) = iss + 2" "0xFFFFFFFE \<le> iss"
    and "tcp_segment c a eh iph hdr now = Inr c'"
  shows "\<not> ack_acceptable (state_at c a) hdr \<and> st_State (state_at c' a) \<in> {SocketSynReceived, SocketListen}"
proof -
  have "unat (0xFFFFFFFE :: u32) \<le> unat iss" using assms(5) by (simp add: word_le_nat_alt)
  then have i: "4294967294 \<le> unat iss" by simp
  have "unat iss < 4294967296" using unsigned_less [of iss, where ?'a = nat] by simp
  then have "unat iss = 4294967294 \<or> unat iss = 4294967295" using i by auto
  then have "unat (iss + 2) \<le> 1" by (auto simp: unat_word_ariths)
  then have "\<not> ack_acceptable (state_at c a) hdr"
    using i assms(3,4) by (auto simp: ack_acceptable_def word_le_nat_alt)
  then show ?thesis using tcp_segment_next [OF assms(6,1)] assms(2) by (simp add: tcp_next_def)
qed

section \<open>Receiving data\<close>


section \<open>An example\<close>

definition sample_listener :: Canary where
  "sample_listener = (sample_canary 65535)\<lparr>can_ac := [\<lparr>ae_IP = net_IPv4 10 0 0 1, ae_HardwareAddress = [2, 0, 0, 0, 0, 9],
     ae_Interface = ''eth0''\<rparr>], can_table := [None, None]\<rparr>"

definition sample_iph :: ipv4_Header where
  "sample_iph = empty_ipv4_Header\<lparr>ip_Src := net_IPv4 10 0 0 1, ip_Dst := net_IPv4 10 0 0 2\<rparr>"

definition sample_segment :: "Flag \<Rightarrow> byte \<Rightarrow> bytes" where
  "sample_segment ctrl ackn = [0x9C, 0x40, 0, 80, 0, 0, 0, 1, 0, 0, 0, ackn, 0x50, ctrl, 0xFF, 0xFF, 0, 0, 0, 0]"

definition sample_header :: "Flag \<Rightarrow> byte \<Rightarrow> tcp_Header" where
  "sample_header ctrl ackn = empty_tcp_Header\<lparr>tcp_Source := 40000, tcp_Destination := 80, tcp_SeqNum := 1,
     tcp_AckNum := ucast ackn, tcp_DataOffset := 5, tcp_Ctrl := ctrl, tcp_Window := 65535\<rparr>"

lemma sample_listener_ready:
  "canary_ready sample_listener" "None \<in> set (can_table sample_listener)"
  "table_inv (can_states sample_listener) (can_table sample_listener)" "table_addrs (can_table sample_listener) = {}"
  "isMe sample_listener (ip_Dst sample_iph)"
  "resolve (can_ac sample_listener) (can_rt sample_listener) (ip_Src sample_iph) \<noteq> None"
  "ip_Src sample_iph = net_IPv4 10 0 0 1" "ip_Dst sample_iph = net_IPv4 10 0 0 2"
  using rb_New_spec [of 65535]
  by (auto simp: sample_listener_def sample_canary_def canary_ready_def canary_inv_def table_inv_def table_addrs_def
      isMe_def sample_iph_def resolve_def ARPCache_Get_def less_Suc_eq)

lemma sample_segment_header:
  assumes "ctrl < 64"
  shows "segment_header (sample_segment ctrl ackn) sample_iph = Inr (sample_header ctrl ackn)"
proof -
  have c: "drop_bit 6 ctrl AND 7 = 0" "ctrl AND 0x3f = ctrl"
    using flags_roundtrip [of 0 ctrl] assms by simp_all
  have "tcp_Unmarshal empty_tcp_Header (sample_segment ctrl ackn) = Inr (sample_header ctrl ackn, None)"
    by (simp add: tcp_Unmarshal_def tcp_fixed_fields_def sample_segment_def sample_header_def u16_at_def u32_at_def
      go_at_def be16_def be32_def c empty_tcp_Header_def parse_options.simps)
  then show ?thesis
    by (simp add: segment_header_def UnmarshalWithChecksum_def sample_listener_ready(7,8))
qed

definition sample_eh :: eth_Frame where
  "sample_eh = \<lparr>eth_Source = [2, 0, 0, 0, 0, 9], eth_Destination = [2, 0, 0, 0, 0, 1], eth_Type = 0x0800, eth_Payload = []\<rparr>"

lemma sample_flags:
  "HasFlag (sample_header SYN 0) SYN" "\<not> HasFlag (sample_header SYN 0) ACK" "SYN < 64" "ACK < 64"
  by (simp_all add: HasFlag_def sample_header_def SYN_def ACK_def)





theorem handshake_wrap_stuck_witness:
  "\<exists>c1 c2. handleTCP sample_listener sample_eh sample_iph (sample_segment SYN 0) 7 0xFFFFFFFF 0 = Inr c1 \<and>
    tcp_segment c1 0 sample_eh sample_iph (sample_header ACK 1) 5 = Inr c2 \<and>
    st_State (state_at c2 0) \<in> {SocketSynReceived, SocketListen}"
proof -
  have none: "can_states sample_listener = []" by (simp add: sample_listener_def sample_canary_def)
  obtain c1 where c1: "handleTCP sample_listener sample_eh sample_iph (sample_segment SYN 0) 7 0xFFFFFFFF 0 = Inr c1"
    "canary_ready c1" "length (can_states c1) = 1" "st_State (state_at c1 0) = SocketSynReceived"
    "st_SendUnacknowledged (state_at c1 0) = 0xFFFFFFFF" "st_SendNext (state_at c1 0) = 0xFFFFFFFF + 2"
    using handleTCP_syn [OF sample_listener_ready(1,2,7,8,6,5) sample_segment_header [OF sample_flags(3), of 0] _ _ sample_flags(1,2),
        where eh = sample_eh and ident = 7 and iss = "0xFFFFFFFF" and now = 0] none
    by (simp add: sample_header_def) blast
  obtain c2 where c2: "tcp_segment c1 0 sample_eh sample_iph (sample_header ACK 1) 5 = Inr c2"
    using tcp_segment_total [OF c1(2), of 0 sample_eh sample_iph "sample_header ACK 1" 5] c1(3) by auto
  show ?thesis using handshake_wrap_stuck [OF _ c1(4-6) _ c2] c1(1,3) c2 by auto
qed




end
