(* ===== verification/Canary_Decoders.thy ===== *)
theory Canary_Decoders
  imports Canary_Machine
begin

text \<open>
  The protocol decoders of the canary listener (\<^verbatim>\<open>tcp_handlers.go\<close>,
  \<^verbatim>\<open>udp_handlers.go\<close>). A decoder turns what arrived into the options of one event.
  HTTP requests are read by Go's \<^verbatim>\<open>net/http\<close> and NTP and DNS packets by
  \<^verbatim>\<open>gopacket\<close>; these parsers are parameters. A TCP decoder reads once into a buffer
  of 2048 zero bytes; \<open>got\<close> is what the read returned.
\<close>

section \<open>Events of the listener\<close>

definition CanaryOptions :: ev_option where
  "CanaryOptions = ev_NewWith [ev_Sensor ''canary'']"

text \<open>What the decoders use of an HTTP request; header keys are in canonical form.\<close>

record http_request =
  rq_Method :: string
  rq_RequestURI :: string
  rq_URL :: string
  rq_Proto :: string
  rq_Header :: "(string \<times> string list) list"

definition header_Get :: "http_request \<Rightarrow> string \<Rightarrow> string" where
  "header_Get r canonical = (case map_of (rq_Header r) canonical of Some (v # _) \<Rightarrow> v | _ \<Rightarrow> [])"

section \<open>TCP decoders\<close>

definition conn_options :: "string \<Rightarrow> Socket \<Rightarrow> ev_option list" where
  "conn_options category sock =
     [CanaryOptions, ev_Category category, ev_Protocol ''tcp'',
      ev_SourceAddr (sock_raddr sock), ev_DestinationAddr (sock_laddr sock)]"

definition http_options :: "http_request \<Rightarrow> ev_option list" where
  "http_options request =
     [ev_Custom ''http.method'' (VString (rq_Method request)),
      ev_Custom ''http.uri'' (VString (rq_URL request)),
      ev_Custom ''http.proto'' (VString (rq_Proto request)),
      ev_Custom ''http.headers'' (VHeader (rq_Header request)),
      ev_Custom ''http.host'' (VString (header_Get request ''Host'')),
      ev_Custom ''http.content-type'' (VString (header_Get request ''Content-Type'')),
      ev_Custom ''http.user-agent'' (VString (header_Get request ''User-Agent''))]"

text \<open>The two HTTP decoders; \<open>None\<close> is a request that could not be read. They also write an empty response.\<close>

definition DecodeHTTP :: "http_request option \<Rightarrow> Socket \<Rightarrow> ev_option list option" where
  "DecodeHTTP request sock = map_option (\<lambda>r. conn_options ''http'' sock @ http_options r) request"

definition DecodeElasticsearch :: "http_request option \<Rightarrow> Socket \<Rightarrow> ev_option list option" where
  "DecodeElasticsearch request sock = map_option (\<lambda>r. conn_options ''elasticsearch'' sock @ http_options r) request"

text \<open>The buffer after the read.\<close>

definition read_buffer :: "bytes \<Rightarrow> bytes" where
  "read_buffer got = go_copy (replicate 2048 0) got"

definition tls_versions :: "(u16 \<times> string) list" where
  "tls_versions =
     [(0x8001, ''PCT_VERSION''), (0x0002, ''SSLV2_VERSION''), (0x300, ''SSLV3_VERSION''), (0x301, ''TLSV1_VERSION''),
      (0x302, ''TLSV1DOT1_VERSION''), (0x303, ''TLSV1DOT2_VERSION''), (0x304, ''TLSV1DOT3_VERSION'')]"

definition https_message_length :: "bytes \<Rightarrow> u32" where
  "https_message_length buff = push_bit 24 (ucast (buff ! 6)) + push_bit 16 (ucast (buff ! 7)) + ucast (buff ! 8)"

definition https_client_version :: "bytes \<Rightarrow> u16" where
  "https_client_version buff = be16 (buff ! 9) (buff ! 10)"

definition https_hello_options :: "bytes \<Rightarrow> ev_option list" where
  "https_hello_options buff =
     (let version = be16 (buff ! 1) (buff ! 2);
          recordLength = be16 (buff ! 3) (buff ! 4);
          messageType = buff ! 5;
          clientVersion = https_client_version buff;
          random = take 36 (drop 13 buff)
      in [ev_Custom ''https.content-type'' (VString (hex_of_nat (unat (buff ! 0)))),
          ev_Custom ''https.version'' (VString (itoa (unat version))),
          ev_Custom ''https.record-length'' (VString (itoa (unat recordLength))),
          ev_Custom ''https.message-type'' (VString (hex_of_nat (unat messageType))),
          ev_Custom ''https.message-length'' (VString (itoa (unat (https_message_length buff)))),
          ev_Custom ''https.client-version'' (VString (''0x'' @ hex_of_nat (unat clientVersion))),
          ev_Custom ''https.random'' (VString (hex_encode random))] @
         (if clientVersion \<noteq> 0x304
          then [ev_Custom ''https.random-epoch'' (VString (itoa (unat (be32 (buff ! 2) (buff ! 3) (buff ! 4) (buff ! 5)))))]
          else []) @
         (case map_of tls_versions clientVersion of
            Some v \<Rightarrow> [ev_Custom ''https.client-version-text'' (VString v)] | None \<Rightarrow> []))"

definition DecodeHTTPS :: "bytes \<Rightarrow> Socket \<Rightarrow> ev_option list" where
  "DecodeHTTPS got sock =
     (let buff = read_buffer got; contentType = buff ! 0 in
      conn_options ''https'' sock @ [ev_Payload (take (length got) buff),
        ev_Custom ''https.content-type'' (VUint8 contentType)] @
      (if contentType = 0x16 then https_hello_options buff else []))"

definition raw_decoder :: "string \<Rightarrow> bytes \<Rightarrow> Socket \<Rightarrow> ev_option list" where
  "raw_decoder category got sock = conn_options category sock @ [ev_Payload (take (length got) (read_buffer got))]"

definition DecodeMSSQL :: "bytes \<Rightarrow> Socket \<Rightarrow> ev_option list" where
  "DecodeMSSQL = raw_decoder ''mssql''"

definition DecodeTelnet :: "bytes \<Rightarrow> Socket \<Rightarrow> ev_option list" where
  "DecodeTelnet = raw_decoder ''telnet''"

definition DecodeRedis :: "bytes \<Rightarrow> Socket \<Rightarrow> ev_option list" where
  "DecodeRedis = raw_decoder ''redis''"

definition DecodeRDP :: "bytes \<Rightarrow> Socket \<Rightarrow> ev_option list" where
  "DecodeRDP = raw_decoder ''rdp''"

text \<open>The FTP decoder reports the category of the next one.\<close>

definition DecodeFTP :: "bytes \<Rightarrow> Socket \<Rightarrow> ev_option list" where
  "DecodeFTP = raw_decoder ''nbt-ip''"

definition DecodeNBTIP :: "bytes \<Rightarrow> Socket \<Rightarrow> ev_option list" where
  "DecodeNBTIP = raw_decoder ''nbt-ip''"

definition smb_opcodes :: "(u16 \<times> string) list" where
  "smb_opcodes =
     [(0x00, ''SMB2/NegotiateProtocol''), (0x01, ''SMB2/SessionSetup''), (0x02, ''SMB2/SessionLogoff''),
      (0x03, ''SMB2/TreeConnect''), (0x04, ''SMB2/TreeDisconnect''), (0x05, ''SMB2/Create''), (0x06, ''SMB2/Close''),
      (0x07, ''SMB2/Flush''), (0x08, ''SMB2/Read ''), (0x09, ''SMB2/Write''), (0x0a, ''SMB2/Lock ''),
      (0x0b, ''SMB2/Ioctl''), (0x0c, ''SMB2/Cancel''), (0x0d, ''SMB2/KeepAlive''), (0x0e, ''SMB2/Find''),
      (0x0f, ''SMB2/Notify''), (0x10, ''SMB2/GetInfo''), (0x11, ''SMB2/SetInfo''), (0x12, ''SMB2/Break'')]"

definition DecodeSMBIP :: "bytes \<Rightarrow> Socket \<Rightarrow> ev_option list" where
  "DecodeSMBIP got sock =
     (let buff = read_buffer got;
          status = be16 (buff ! 8) (buff ! 9);
          opcode = be16 (buff ! 12) (buff ! 13)
      in conn_options ''smb-ip'' sock @ [ev_Payload (take (length got) buff)] @
         (if take 4 buff = [0xFE, 0x53, 0x4D, 0x42]
          then [ev_Custom ''smb.version'' (VString ''2''), ev_Custom ''smb.status'' (VString (itoa (unat status)))] @
               (case map_of smb_opcodes opcode of
                  Some v \<Rightarrow> [ev_Custom ''smb.opcode'' (VString v)] | None \<Rightarrow> [])
          else []))"

section \<open>The handler goroutine\<close>

text \<open>
  Ports with a decoder of their own. A decoder sends its event and closes the connection when it
  returns; on any other port the goroutine closes first and reports what it read.
  \<open>request\<close> and \<open>response\<close> are the parsed HTTP request and the bytes of the empty HTTP response.
\<close>

datatype tcp_decoder = RawDecoder "bytes \<Rightarrow> Socket \<Rightarrow> ev_option list" | HTTPDecoder "http_request option \<Rightarrow> Socket \<Rightarrow> ev_option list option"

definition tcp_handlers :: "(u16 \<times> tcp_decoder) list" where
  "tcp_handlers =
     [(23, RawDecoder DecodeTelnet), (80, HTTPDecoder DecodeHTTP), (443, RawDecoder DecodeHTTPS), (139, RawDecoder DecodeNBTIP),
      (445, RawDecoder DecodeSMBIP), (1433, RawDecoder DecodeMSSQL), (6379, RawDecoder DecodeRedis),
      (9200, HTTPDecoder DecodeElasticsearch)]"

definition default_options :: "eth_Frame \<Rightarrow> State \<Rightarrow> bytes \<Rightarrow> ev_option list" where
  "default_options eh s got =
     [CanaryOptions, ev_Category ''tcp'', ev_Type ''SERVICE:STARTED'', ev_Protocol ''tcp'',
      ev_SourceHardwareAddr (eth_Source eh), ev_DestinationHardwareAddr (eth_Destination eh),
      ev_SourceIP (st_SrcIP s), ev_DestinationIP (st_DestIP s), ev_SourcePort (st_SrcPort s), ev_DestinationPort (st_DestPort s),
      ev_Payload (take (length got) (read_buffer got))]"

definition run_handler ::
  "Canary \<Rightarrow> nat \<Rightarrow> Socket \<Rightarrow> eth_Frame \<Rightarrow> u16 \<Rightarrow> bytes \<Rightarrow> http_request option \<Rightarrow> bytes \<Rightarrow> int \<Rightarrow> Canary result" where
  "run_handler c a sock eh port got request response now =
     (case map_of tcp_handlers port of
        None \<Rightarrow> bindR (state_close c a) (\<lambda>c1.
          Inr (emit c1 (EventSent (ev_New now (default_options eh (state_at c1 a) got)))))
      | Some (RawDecoder fn) \<Rightarrow> state_close (emit c (EventSent (ev_New now (fn got sock)))) a
      | Some (HTTPDecoder fn) \<Rightarrow>
          (case fn request sock of
             None \<Rightarrow> state_close c a
           | Some opts \<Rightarrow>
               bindR (state_write (emit c (EventSent (ev_New now opts))) a response) (\<lambda>c1. state_close c1 a)))"

section \<open>UDP decoders\<close>

definition udp_options :: "string \<Rightarrow> ipv4_Header \<Rightarrow> udp_Header \<Rightarrow> ev_option list" where
  "udp_options category iph udph =
     [CanaryOptions, ev_Category category, ev_Protocol ''udp'', ev_SourceIP (ip_Src iph), ev_DestinationIP (ip_Dst iph),
      ev_SourcePort (udp_Source udph), ev_DestinationPort (udp_Destination udph)]"

definition DecodeSSDP :: "(bytes \<Rightarrow> http_request option) \<Rightarrow> ipv4_Header \<Rightarrow> udp_Header \<Rightarrow> ev_option list option" where
  "DecodeSSDP ReadRequest iph udph = map_option (\<lambda>r. udp_options ''ssdp'' iph udph @
     [ev_Custom ''ssdp.method'' (VString (rq_Method r)), ev_Custom ''ssdp.uri'' (VString (rq_RequestURI r)),
      ev_Custom ''ssdp.proto'' (VString (rq_Proto r)), ev_Custom ''ssdp.headers'' (VHeader (rq_Header r)),
      ev_Custom ''ssdp.host'' (VString (header_Get r ''Host'')), ev_Custom ''ssdp.man'' (VString (header_Get r ''Man'')),
      ev_Custom ''ssdp.mx'' (VString (header_Get r ''Mx'')), ev_Custom ''ssdp.st'' (VString (header_Get r ''St''))])
     (ReadRequest (udp_Payload udph))"

definition DecodeSIP :: "(bytes \<Rightarrow> http_request option) \<Rightarrow> ipv4_Header \<Rightarrow> udp_Header \<Rightarrow> ev_option list option" where
  "DecodeSIP ReadRequest iph udph = map_option (\<lambda>r. udp_options ''sip'' iph udph @
     [ev_Custom ''sip.method'' (VString (rq_Method r)), ev_Custom ''sip.uri'' (VString (rq_RequestURI r)),
      ev_Custom ''sip.proto'' (VString (rq_Proto r)), ev_Custom ''sip.headers'' (VHeader (rq_Header r)),
      ev_Custom ''sip.from'' (VString (header_Get r ''From'')), ev_Custom ''sip.to'' (VString (header_Get r ''To'')),
      ev_Custom ''sip.via'' (VString (header_Get r ''Via'')), ev_Custom ''sip.contact'' (VString (header_Get r ''Contact'')),
      ev_Custom ''sip.call-id'' (VString (header_Get r ''Call-Id'')),
      ev_Custom ''sip.user-agent'' (VString (header_Get r ''User-Agent''))])
     (ReadRequest (udp_Payload udph))"

definition DecodeSNMPTrap :: "ipv4_Header \<Rightarrow> udp_Header \<Rightarrow> ev_option list option" where
  "DecodeSNMPTrap iph udph = Some (udp_options ''snmp-trap'' iph udph)"

definition DecodeSNMP :: "ipv4_Header \<Rightarrow> udp_Header \<Rightarrow> ev_option list option" where
  "DecodeSNMP iph udph = Some (udp_options ''snmp'' iph udph)"

text \<open>Mode and version of an NTP packet; \<open>quoted\<close> is \<^verbatim>\<open>%q\<close> of a mode.\<close>

record ntp_packet =
  ntp_Mode :: byte
  ntp_Version :: byte

definition ntp_modes :: "(byte \<times> string) list" where
  "ntp_modes =
     [(0, ''reserved''), (1, ''Symmetric active''), (2, ''Symmetric passive''), (3, ''Client''), (4, ''Server''),
      (5, ''Broadcast''), (6, ''NTP control message''), (7, ''private'')]"

definition DecodeNTP ::
  "(bytes \<Rightarrow> ntp_packet option) \<Rightarrow> (byte \<Rightarrow> string) \<Rightarrow> ipv4_Header \<Rightarrow> udp_Header \<Rightarrow> ev_option list option" where
  "DecodeNTP DecodeFromBytes quoted iph udph = map_option (\<lambda>ntp.
     let mode = (case map_of ntp_modes (ntp_Mode ntp) of Some m \<Rightarrow> m | None \<Rightarrow> quoted (ntp_Mode ntp)) in
     udp_options ''ntp'' iph udph @
     [ev_Custom ''ntp.message'' (VString (''NTP packet received, version='' @ itoa (unat (ntp_Version ntp)) @ '', mode='' @ mode)),
      ev_Custom ''ntp.version'' (VUint8 (ntp_Version ntp)), ev_Custom ''ntp.mode'' (VString mode)])
     (DecodeFromBytes (udp_Payload udph))"

text \<open>Opcode of a DNS packet and its questions, already formatted.\<close>

record dns_packet =
  dns_OpCode :: byte
  dns_Questions :: "string list"
  dns_quoted :: string
  dns_opcode_quoted :: string

definition DecodeDNS :: "(bytes \<Rightarrow> dns_packet option) \<Rightarrow> ipv4_Header \<Rightarrow> udp_Header \<Rightarrow> ev_option list option" where
  "DecodeDNS DecodeFromBytes iph udph = map_option (\<lambda>dns.
     if dns_OpCode dns = 0
     then udp_options ''dns-query'' iph udph @ [ev_Payload (udp_Payload udph),
            ev_Custom ''dns.message'' (VString (''Querying for: '' @ dns_quoted dns)),
            ev_Custom ''dns.questions'' (VStrings (dns_Questions dns))]
     else udp_options ''dns-other'' iph udph @ [ev_Payload (udp_Payload udph),
            ev_Message (''opcode='' @ dns_opcode_quoted dns @ '' questions='' @ dns_quoted dns),
            ev_Custom ''dns.opcode'' (VUint8 (dns_OpCode dns)), ev_Custom ''dns.questions'' (VStrings (dns_Questions dns))])
     (DecodeFromBytes (udp_Payload udph))"

text \<open>The parsers the listener is linked with.\<close>

record parsers =
  p_ReadRequest :: "bytes \<Rightarrow> http_request option"
  p_NTP :: "bytes \<Rightarrow> ntp_packet option"
  p_quoted :: "byte \<Rightarrow> string"
  p_DNS :: "bytes \<Rightarrow> dns_packet option"

definition udp_handlers :: "parsers \<Rightarrow> (u16 \<times> (ipv4_Header \<Rightarrow> udp_Header \<Rightarrow> ev_option list option)) list" where
  "udp_handlers ps =
     [(53, DecodeDNS (p_DNS ps)), (123, DecodeNTP (p_NTP ps) (p_quoted ps)), (1900, DecodeSSDP (p_ReadRequest ps)),
      (5060, DecodeSIP (p_ReadRequest ps)), (161, DecodeSNMP), (162, DecodeSNMPTrap)]"

section \<open>Properties\<close>

lemma length_read_buffer [simp]: "length (read_buffer got) = 2048"
  by (simp add: read_buffer_def)

lemma take_read_buffer: "length got \<le> 2048 \<Longrightarrow> take (length got) (read_buffer got) = got"
  by (simp add: read_buffer_def go_copy_def)

lemma read_buffer_nth: "i < length got \<Longrightarrow> length got \<le> 2048 \<Longrightarrow> read_buffer got ! i = got ! i"
  by (simp add: read_buffer_def go_copy_def nth_append)

lemma conn_options_apply:
  assumes "sock_raddr sock = TCPAddr rip rport" "sock_laddr sock = TCPAddr lip lport"
  shows "ev_Apply e (conn_options category sock) = e(''sensor'' \<mapsto> VString ''canary'', ''category'' \<mapsto> VString category,
    ''protocol'' \<mapsto> VString ''tcp'', ''source-ip'' \<mapsto> VString (ip_String rip), ''source-port'' \<mapsto> VInt rport,
    ''destination-ip'' \<mapsto> VString (ip_String lip), ''destination-port'' \<mapsto> VInt lport)"
  using assms by (simp add: conn_options_def CanaryOptions_def ev_NewWith_def ev_defs)

lemma https_options_message_length:
  "ev_Apply e (https_hello_options buff) ''https.message-length'' = Some (VString (itoa (unat (https_message_length buff))))"
  by (simp add: https_hello_options_def Let_def ev_defs split: option.splits)

text \<open>
  The TLS decoder reports a wrong message length. It shifts the first two of
  the three length bytes by 24 and 16 bits instead of 16 and 8, so for every handshake message
  of 256 bytes or more the reported number differs from the length on the wire.
\<close>

theorem https_message_length_wrong:
  assumes "9 \<le> length got" "length got \<le> 2048" "got ! 0 = 0x16"
    and wire: "n = 65536 * unat (got ! 6) + 256 * unat (got ! 7) + unat (got ! 8)"
  shows "\<exists>m. ev_New now (DecodeHTTPS got sock) ''https.message-length'' = Some (VString (itoa m)) \<and>
    m = 16777216 * unat (got ! 6) + 65536 * unat (got ! 7) + unat (got ! 8) \<and> (256 \<le> n \<longrightarrow> m \<noteq> n)"
proof -
  let ?b = "read_buffer got" and ?m = "16777216 * unat (got ! 6) + 65536 * unat (got ! 7) + unat (got ! 8)"
  have nth: "?b ! 0 = got ! 0" "?b ! 6 = got ! 6" "?b ! 7 = got ! 7" "?b ! 8 = got ! 8"
    by (rule read_buffer_nth; use assms(1,2) in linarith)+
  have bounds: "unat (got ! 6) < 256" "unat (got ! 7) < 256" "unat (got ! 8) < 256" by (rule unat_byte_less)+
  have "unat (https_message_length ?b) = ?m"
    using bounds by (simp add: https_message_length_def nth push_bit_eq_mult unat_word_ariths)
  then have "ev_New now (DecodeHTTPS got sock) ''https.message-length'' = Some (VString (itoa ?m))"
    using assms(3) by (simp add: ev_New_def DecodeHTTPS_def Let_def nth ev_Apply_append https_options_message_length)
  moreover have "256 \<le> n \<longrightarrow> ?m \<noteq> n" using wire bounds by auto
  ultimately show ?thesis by blast
qed

theorem https_message_length_wrong_witness:
  "\<exists>m. ev_New 0 (DecodeHTTPS [0x16, 3, 1, 2, 0, 1, 0, 1, 0xfc] (NewSocket (TCPAddr [] 0) (TCPAddr [] 0))) ''https.message-length'' =
     Some (VString (itoa m)) \<and> m = 65788"
  using https_message_length_wrong [of "[0x16, 3, 1, 2, 0, 1, 0, 1, 0xfc]" 508 0 "NewSocket (TCPAddr [] 0) (TCPAddr [] 0)"]
  by simp

text \<open>
  The SMB decoder reads the command of an SMB2 header in the wrong byte order. For
  every command but NEGOTIATE, which is 0, the event has no \<^verbatim>\<open>smb.opcode\<close>, although the
  table of the decoder names the command.
\<close>

theorem smb_opcode_lost:
  assumes "14 \<le> length got" "length got \<le> 2048" "take 4 got = [0xFE, 0x53, 0x4D, 0x42]"
    and cmd: "le16 (got ! 12) (got ! 13) = cmd" "map_of smb_opcodes cmd \<noteq> None" "cmd \<noteq> 0"
    and fresh: "sock_raddr sock = TCPAddr rip rport" "sock_laddr sock = TCPAddr lip lport"
  shows "ev_New now (DecodeSMBIP got sock) ''smb.opcode'' = None"
proof -
  let ?b = "read_buffer got"
  have nth: "?b ! 12 = got ! 12" "?b ! 13 = got ! 13" using assms(1,2) by (simp_all add: read_buffer_nth)
  have "unat cmd \<le> 18" using cmd(2) by (auto simp: smb_opcodes_def split: if_splits)
  then have "256 * unat (got ! 13) + unat (got ! 12) \<le> 18" using cmd(1) by (auto simp: le16_def unat_be16)
  then have "unat (got ! 13) = 0" "unat (got ! 12) \<le> 18" by simp_all
  moreover have "unat (got ! 12) \<noteq> 0"
    using cmd(1,3) \<open>unat (got ! 13) = 0\<close> by (auto simp: le16_def unat_eq_zero be16_def)
  ultimately have "256 \<le> unat (be16 (got ! 12) (got ! 13))" by (simp add: unat_be16)
  then have none: "map_of smb_opcodes (be16 (got ! 12) (got ! 13)) = None"
    by (auto simp: smb_opcodes_def)
  show ?thesis
    by (simp add: ev_New_def DecodeSMBIP_def Let_def nth none ev_Apply_append conn_options_apply [OF fresh])
      (simp add: ev_defs)
qed

theorem smb_opcode_lost_witness:
  "ev_New 0 (DecodeSMBIP [0xFE, 0x53, 0x4D, 0x42, 64, 0, 0, 0, 0, 0, 0, 0, 1, 0] (NewSocket (TCPAddr [] 0) (TCPAddr [] 0)))
     ''smb.opcode'' = None"
  by (rule smb_opcode_lost [where cmd = 1]) (simp_all add: smb_opcodes_def NewSocket_def le16_def be16_def)

end
