(* ===== verification/Canary_Listener.thy ===== *)
theory Canary_Listener
  imports Canary_Decoders "HOL-Library.AList"
begin

text \<open>
  The receive loop of the canary listener: the UDP, ICMP and ARP handlers, the
  dispatch of \<^verbatim>\<open>Start\<close>, construction by \<^verbatim>\<open>New\<close>, and the listener as a transition
  system whose steps are received frames, the application side of a connection, and draining the queue.
\<close>

section \<open>Handlers\<close>

definition htons :: "u16 \<Rightarrow> u16" where
  "htons n = push_bit 8 n + drop_bit 8 n"

text \<open>The goroutine of \<^verbatim>\<open>handleUDP\<close> only sends a knock and an event; the model runs it at once.\<close>

definition udp_default_options :: "eth_Frame \<Rightarrow> ipv4_Header \<Rightarrow> udp_Header \<Rightarrow> ev_option list" where
  "udp_default_options eh iph hdr =
     [ev_Sensor ''canary'', ev_Category ''udp'', ev_Protocol ''udp'',
      ev_SourceHardwareAddr (eth_Source eh), ev_DestinationHardwareAddr (eth_Destination eh),
      ev_SourceIP (ip_Src iph), ev_DestinationIP (ip_Dst iph), ev_SourcePort (udp_Source hdr), ev_DestinationPort (udp_Destination hdr),
      ev_Payload (udp_Payload hdr)]"

definition handleUDP :: "parsers \<Rightarrow> Canary \<Rightarrow> eth_Frame \<Rightarrow> ipv4_Header \<Rightarrow> bytes \<Rightarrow> int \<Rightarrow> Canary result" where
  "handleUDP ps c eh iph data now =
     (case udp_Unmarshal data of
        Inl (Panic p) \<Rightarrow> Inl (Panic p)
      | Inl (Error e) \<Rightarrow> Inr c
      | Inr hdr \<Rightarrow>
          if \<not> isMe c (ip_Dst iph) then Inr c
          else case map_of (udp_handlers ps) (udp_Destination hdr) of
            None \<Rightarrow>
              let c1 = emit c (KnockSent (KnockUDPPort (eth_Source eh) (eth_Destination eh) (ip_Src iph) (ip_Dst iph)
                         (udp_Destination hdr)))
              in Inr (emit c1 (EventSent (ev_New now (udp_default_options eh iph hdr))))
          | Some fn \<Rightarrow>
              (case fn iph hdr of None \<Rightarrow> Inr c | Some opts \<Rightarrow> Inr (emit c (EventSent (ev_New now opts)))))"

definition handleICMP :: "Canary \<Rightarrow> eth_Frame \<Rightarrow> ipv4_Header \<Rightarrow> bytes \<Rightarrow> Canary result" where
  "handleICMP c eh iph data =
     bindR (icmp_Parse data) (\<lambda>_.
       if \<not> isMe c (ip_Dst iph) then Inr c
       else Inr (emit c (KnockSent (KnockICMP (eth_Source eh) (eth_Destination eh) (ip_Src iph) (ip_Dst iph)))))"

text \<open>The ARP handler looks at the target address and has no effect.\<close>

definition handleARP :: "Canary \<Rightarrow> bytes \<Rightarrow> Canary result" where
  "handleARP c data =
     bindR (arp_Parse data) (\<lambda>arp.
       if arp_TargetMAC arp = [0, 0, 0, 0, 0, 0] then Inr c
       else Inr (fold (\<lambda>intf c. if arp_TargetMAC arp = if_HardwareAddr intf then c else c) (can_interfaces c) c))"

section \<open>The receive loop\<close>

text \<open>The results of the handlers are dropped: an error leaves the listener as it is, a panic ends the program.\<close>

fun drop_error :: "Canary \<Rightarrow> Canary result \<Rightarrow> Canary result" where
  "drop_error c (Inl (Error e)) = Inr c"
| "drop_error c r = r"

definition dispatch_ip ::
  "parsers \<Rightarrow> Canary \<Rightarrow> eth_Frame \<Rightarrow> ipv4_Header \<Rightarrow> u32 \<Rightarrow> u32 \<Rightarrow> int \<Rightarrow> Canary result" where
  "dispatch_ip ps c eh iph ident iss now =
     (if ip_Protocol iph = 1 then drop_error c (handleICMP c eh iph (ip_Payload iph))
      else if ip_Protocol iph = 2 then Inr c
      else if ip_Protocol iph = 6 then drop_error c (handleTCP c eh iph (ip_Payload iph) ident iss now)
      else if ip_Protocol iph = 17 then drop_error c (handleUDP ps c eh iph (ip_Payload iph) now)
      else Inr c)"

text \<open>\<open>received\<close> is what \<^verbatim>\<open>Recvfrom\<close> put into the buffer.\<close>

definition receive_frame ::
  "parsers \<Rightarrow> Canary \<Rightarrow> bytes \<Rightarrow> u32 \<Rightarrow> u32 \<Rightarrow> int \<Rightarrow> Canary result" where
  "receive_frame ps c received ident iss now =
     (if received = [] then Inr c
      else case eth_Parse received of
        Inl (Panic p) \<Rightarrow> Inl (Panic p)
      | Inl (Error e) \<Rightarrow> Inr c
      | Inr eh \<Rightarrow>
          if eth_Type eh = 0x0806 then drop_error c (handleARP c (eth_Payload eh))
          else if eth_Type eh = 0x0800
          then (case ipv4_Parse linux (eth_Payload eh) of
                  Inl (Panic p) \<Rightarrow> Inl (Panic p)
                | Inl (Error e) \<Rightarrow> Inr c
                | Inr iph \<Rightarrow> dispatch_ip ps c eh iph ident iss now)
          else Inr c)"

section \<open>Construction\<close>





section \<open>The listener as a transition system\<close>




section \<open>Invariants\<close>

lemma drop_error_Inr: "drop_error c r = Inr c' \<Longrightarrow> c' = c \<or> r = Inr c'"
  by (cases "(c, r)" rule: drop_error.cases) auto


text \<open>Handlers without a connection only write to the log.\<close>

definition logged :: "Canary \<Rightarrow> Canary \<Rightarrow> bool" where
  "logged c c' \<longleftrightarrow> (\<exists>l. c' = c\<lparr>can_log := can_log c @ l\<rparr>)"

lemma logged_refl [simp]: "logged c c"
  by (auto simp: logged_def intro: exI [of _ "[]"])

lemma logged_emit [simp]: "logged c c1 \<Longrightarrow> logged c (emit c1 e)"
  by (auto simp: logged_def emit_def)











lemma rb_read_keeps:
  assumes "rb_inv b" "rb_Read b p = Inr (b', p', n, e)"
  shows "rb_inv b'"
  using rb.deq_law [OF assms(1), of p] assms(2) by auto










text \<open>
  The listener only reacts to packets for its own addresses. An IP packet, of whatever
  protocol, whose destination is no address of an interface leaves the whole listener as it is:
  no connection, no reply in the queue, no knock and no event.
\<close>

theorem foreign_packets_ignored:
  assumes "eth_Parse received = Inr eh" "eth_Type eh = 0x0800" "ipv4_Parse linux (eth_Payload eh) = Inr iph"
    and "\<not> isMe c (ip_Dst iph)" "receive_frame ps c received ident iss now = Inr c'"
  shows "c' = c"
proof -
  have "dispatch_ip ps c eh iph ident iss now = Inr c'"
    using assms(1-3,5) eth_Parse_short [of received] by (auto simp: receive_frame_def split: if_splits)
  then show ?thesis
    using assms(4)
    by (auto simp: dispatch_ip_def handleICMP_def handleUDP_def handleTCP_def tcp_dispatch_def bindR_Inr_iff
        split: if_splits sum.splits failure.splits dest!: drop_error_Inr)
qed

definition sample_ping :: bytes where
  "sample_ping = replicate 12 0 @ [8, 0, 0x45, 0, 0, 20, 0, 0, 0, 0, 64, 1, 0, 0, 10, 0, 0, 1, 10, 9, 9, 9]"

theorem foreign_packets_ignored_witness:
  "\<exists>ps. receive_frame ps (sample_canary 65535) sample_ping 0 0 0 = Inr (sample_canary 65535)"
proof -
  let ?eh = "\<lparr>eth_Source = replicate 6 0, eth_Destination = replicate 6 0, eth_Type = 0x0800, eth_Payload = drop 14 sample_ping\<rparr>"
  have eth: "eth_Parse sample_ping = Inr ?eh" by (simp add: sample_ping_def eth_Parse_ok be16_def nth_append)
  obtain iph where ip: "ipv4_Parse linux (eth_Payload ?eh) = Inr iph" "ip_Dst iph = net_IPv4 10 9 9 9" "ip_Protocol iph = 1"
    "ip_Payload iph = []"
    by (simp add: sample_ping_def ipv4_Parse_def ipv4_Unmarshal_def ipv4_HeaderLen_def ipv4_get_len_def uses_native_def
        adds_hdrlen_def linux_def be16_def Let_def)
  have me: "\<not> isMe (sample_canary 65535) (ip_Dst iph)" using ip(2) by (simp add: isMe_def sample_canary_def ip_Equal_def)
  define ps :: parsers where "ps = \<lparr>p_ReadRequest = (\<lambda>_. None), p_NTP = (\<lambda>_. None), p_quoted = (\<lambda>_. []), p_DNS = (\<lambda>_. None)\<rparr>"
  obtain c' where c': "receive_frame ps (sample_canary 65535) sample_ping 0 0 0 = Inr c'"
    using eth ip(1,3,4) by (simp add: receive_frame_def dispatch_ip_def handleICMP_def icmp_Parse_def sample_ping_def)
  then show ?thesis using foreign_packets_ignored [OF eth _ ip(1) me c'] by auto
qed

end
