(* ===== verification/Go_IO.thy ===== *)
theory Go_IO
  imports Go_Net
begin

text \<open>
  Reading from connections. A connection is the sequence of chunks that its reads will see; a
  read takes at most one chunk. \<open>io_reader\<close> is what the readers of this program promise each other,
  the \<^verbatim>\<open>io.Reader\<close> contract for ordered data: a read returns the next bytes of the content, and
  a failed read takes none.
\<close>

type_synonym stream = "bytes list"

definition conn_Read :: "stream \<Rightarrow> nat \<Rightarrow> bytes option \<times> stream" where
  "conn_Read c n = (case c of
     [] \<Rightarrow> (None, [])
   | x # xs \<Rightarrow> (Some (take n x), if length x \<le> n then xs else drop n x # xs))"

text \<open>A client that reads until its list of buffer sizes ends or a read fails.\<close>

fun read_seq :: "('s \<Rightarrow> nat \<Rightarrow> bytes option \<times> 's) \<Rightarrow> nat list \<Rightarrow> 's \<Rightarrow> bytes \<times> 's" where
  "read_seq rd [] s = ([], s)"
| "read_seq rd (n # ns) s =
     (case rd s n of (None, s1) \<Rightarrow> ([], s1)
      | (Some b, s1) \<Rightarrow> (let (bs, s2) = read_seq rd ns s1 in (b @ bs, s2)))"

locale io_reader =
  fixes rd :: "'s \<Rightarrow> nat \<Rightarrow> bytes option \<times> 's" and content :: "'s \<Rightarrow> bytes"
  assumes read_some: "rd s n = (Some bs, s') \<Longrightarrow> content s = bs @ content s' \<and> length bs \<le> n"
    and read_none: "rd s n = (None, s') \<Longrightarrow> content s' = content s"
begin

lemma read_seq_content: "read_seq rd ns s = (bs, s') \<Longrightarrow> content s = bs @ content s' \<and> length bs \<le> sum_list ns"
proof (induction ns arbitrary: s bs)
  case (Cons n ns)
  then show ?case
    using read_some [of s n] read_none [of s n]
    by (fastforce split: prod.splits option.splits simp: Let_def)
qed simp

end

text \<open>A reader that can look ahead without consuming.\<close>

locale io_peeker = io_reader +
  fixes peek :: "'s \<Rightarrow> nat \<Rightarrow> bytes option \<times> 's"
  assumes peek_some: "peek s n = (Some bs, s') \<Longrightarrow> content s' = content s \<and> length bs \<le> n"
    and peek_none: "peek s n = (None, s') \<Longrightarrow> content s' = content s"
begin

lemma peek_then_read:
  assumes "peek s n = (r, s1)" "read_seq rd ns s1 = (bs, s2)"
  shows "content s = bs @ content s2"
  using assms peek_some peek_none read_seq_content [OF assms(2)] by (cases r) fastforce+

end

lemma conn_Read_concat: "conn_Read c n = (Some bs, c') \<Longrightarrow> concat c = bs @ concat c' \<and> length bs \<le> n"
  by (cases c) (auto simp: conn_Read_def split: if_splits)

interpretation conn: io_reader conn_Read concat
  by unfold_locales (auto simp: conn_Read_concat, auto simp: conn_Read_def split: list.splits)

end
