(* ===== verification/Agent_Codec.thy ===== *)
theory Agent_Codec
  imports Go_IO
begin

text \<open>
  The wire format between honeytrap and its agents (\<^verbatim>\<open>listener/agent\<close>): encoder and
  decoder, the messages, and the framing of \<^verbatim>\<open>conn2\<close>. Encoder and decoder work
  through Go's \<^verbatim>\<open>bufio\<close>, whose 4096-byte buffers are part of the model: a read returns at most
  what is buffered, and what is written but not flushed is lost. A \<^verbatim>\<open>net.Addr\<close>
  that may be nil is an option.
\<close>

section \<open>The buffered writer and the encoder\<close>

record Encoder =
  en_flushed :: bytes
  en_pending :: bytes

definition NewEncoder :: Encoder where
  "NewEncoder = \<lparr>en_flushed = [], en_pending = []\<rparr>"

definition bufio_size :: nat where
  "bufio_size = 4096"

definition en_Flush :: "Encoder \<Rightarrow> Encoder" where
  "en_Flush e = \<lparr>en_flushed = en_flushed e @ en_pending e, en_pending = []\<rparr>"

text \<open>Too large a write fills and flushes the buffer first; on an empty buffer it goes straight through.\<close>

definition en_Write :: "Encoder \<Rightarrow> bytes \<Rightarrow> Encoder" where
  "en_Write e p =
     (let avail = bufio_size - length (en_pending e) in
      if length p \<le> avail then e\<lparr>en_pending := en_pending e @ p\<rparr>
      else if en_pending e = [] then e\<lparr>en_flushed := en_flushed e @ p\<rparr>
      else
       let e1 = en_Flush (e\<lparr>en_pending := en_pending e @ take avail p\<rparr>); p1 = drop avail p in
       if length p1 \<le> bufio_size then e1\<lparr>en_pending := p1\<rparr> else e1\<lparr>en_flushed := en_flushed e1 @ p1\<rparr>)"

definition en_WriteByte :: "Encoder \<Rightarrow> byte \<Rightarrow> Encoder" where
  "en_WriteByte e b =
     (let e1 = (if bufio_size \<le> length (en_pending e) then en_Flush e else e)
      in e1\<lparr>en_pending := en_pending e1 @ [b]\<rparr>)"

definition WriteUint8 :: "Encoder \<Rightarrow> int \<Rightarrow> Encoder" where
  "WriteUint8 e v = en_WriteByte e (word_of_int v)"

definition WriteUint16 :: "Encoder \<Rightarrow> int \<Rightarrow> Encoder" where
  "WriteUint16 e v = en_Write e (put_le16 (word_of_int v))"

definition WriteData :: "Encoder \<Rightarrow> bytes \<Rightarrow> Encoder" where
  "WriteData e data = en_Write (WriteUint16 e (int (length data))) data"

definition WriteString :: "Encoder \<Rightarrow> string \<Rightarrow> Encoder" where
  "WriteString e s = WriteData e (bytes_of_string s)"

text \<open>An address that is neither TCP nor UDP is written without protocol byte.\<close>

definition WriteAddr :: "Encoder \<Rightarrow> net_addr option \<Rightarrow> Encoder" where
  "WriteAddr e address = (case address of
     Some (TCPAddr ip port) \<Rightarrow> WriteUint16 (WriteData (WriteUint8 e 6) ip) port
   | Some (UDPAddr ip port) \<Rightarrow> WriteUint16 (WriteData (WriteUint8 e 17) ip) port
   | _ \<Rightarrow> WriteUint16 (WriteData e []) 0)"

section \<open>The buffered reader and the decoder\<close>

record Decoder =
  de_buf :: bytes
  de_rest :: bytes
  de_LastError :: "string option"

definition NewDecoder :: "bytes \<Rightarrow> Decoder" where
  "NewDecoder data = \<lparr>de_buf = [], de_rest = data, de_LastError = None\<rparr>"

text \<open>
  \<^verbatim>\<open>bufio.Reader.Read\<close> into a slice of \<open>n\<close> bytes: the bytes read, or \<open>None\<close> for
  \<^verbatim>\<open>io.EOF\<close>. A read that does not fit the buffered bytes is short.
\<close>

definition de_Read :: "Decoder \<Rightarrow> nat \<Rightarrow> bytes option \<times> Decoder" where
  "de_Read d n =
     (if n = 0 then (Some [], d)
      else if de_buf d \<noteq> [] then (Some (take n (de_buf d)), d\<lparr>de_buf := drop n (de_buf d)\<rparr>)
      else if de_rest d = [] then (None, d)
      else if bufio_size \<le> n then (Some (take n (de_rest d)), d\<lparr>de_rest := drop n (de_rest d)\<rparr>)
      else let b = take bufio_size (de_rest d) in
           (Some (take n b), d\<lparr>de_buf := drop n b, de_rest := drop bufio_size (de_rest d)\<rparr>))"

definition de_ReadByte :: "Decoder \<Rightarrow> byte option \<times> Decoder" where
  "de_ReadByte d =
     (let d1 = (if de_buf d = [] then d\<lparr>de_buf := take bufio_size (de_rest d), de_rest := drop bufio_size (de_rest d)\<rparr> else d)
      in case de_buf d1 of [] \<Rightarrow> (None, d1) | b # bs \<Rightarrow> (Some b, d1\<lparr>de_buf := bs\<rparr>))"

definition ReadUint8 :: "Decoder \<Rightarrow> int \<times> Decoder" where
  "ReadUint8 d =
     (if de_LastError d \<noteq> None then (0, d)
      else case de_ReadByte d of
        (None, d1) \<Rightarrow> (0, d1\<lparr>de_LastError := Some ''EOF''\<rparr>)
      | (Some b, d1) \<Rightarrow> (uint b, d1))"

definition ReadUint16 :: "Decoder \<Rightarrow> int \<times> Decoder" where
  "ReadUint16 d =
     (if de_LastError d \<noteq> None then (0, d)
      else case de_Read d 2 of
        (None, d1) \<Rightarrow> (0, d1\<lparr>de_LastError := Some ''EOF''\<rparr>)
      | (Some bs, d1) \<Rightarrow> let b = go_copy [0, 0] bs in (uint (le16 (b ! 0) (b ! 1)), d1))"

text \<open>The buffer is made first; a short read leaves zeros behind it.\<close>

definition ReadData :: "Decoder \<Rightarrow> bytes \<times> Decoder" where
  "ReadData d =
     (if de_LastError d \<noteq> None then ([], d)
      else let (l, d1) = ReadUint16 d in
        case de_Read d1 (nat l) of
          (None, d2) \<Rightarrow> ([], d2\<lparr>de_LastError := Some ''EOF''\<rparr>)
        | (Some bs, d2) \<Rightarrow> (go_copy (replicate (nat l) 0) bs, d2))"

definition ReadString :: "Decoder \<Rightarrow> string \<times> Decoder" where
  "ReadString d =
     (if de_LastError d \<noteq> None then ([], d)
      else let (l, d1) = ReadUint16 d in
        case de_Read d1 (nat l) of
          (None, d2) \<Rightarrow> ([], d2\<lparr>de_LastError := Some ''EOF''\<rparr>)
        | (Some bs, d2) \<Rightarrow> (string_of_bytes (go_copy (replicate (nat l) 0) bs), d2))"

definition ReadAddr :: "Decoder \<Rightarrow> net_addr option \<times> Decoder" where
  "ReadAddr d =
     (if de_LastError d \<noteq> None then (None, d)
      else
       let (proto, d1) = ReadUint8 d; (ip, d2) = ReadData d1; (port, d3) = ReadUint16 d2
       in (if proto = 6 then Some (TCPAddr ip port) else if proto = 17 then Some (UDPAddr ip port) else None, d3))"

text \<open>Through the buffer the data is read in order.\<close>

lemma take_drop_take: "n \<le> m \<Longrightarrow> take n xs @ drop n (take m xs) @ drop m xs = xs"
  by (metis append.assoc append_take_drop_id min.absorb1 take_take)

interpretation de: io_reader de_Read "\<lambda>d. de_buf d @ de_rest d"
  by unfold_locales (auto simp: de_Read_def Let_def take_drop_take split: if_splits)

section \<open>Messages\<close>

record Handshake =
  hs_ProtocolVersion :: int
  hs_CommitID :: string
  hs_ShortCommitID :: string
  hs_Version :: string
  hs_Token :: string

datatype agent_msg =
    MHello "net_addr option" "net_addr option"
  | MReadWrite "net_addr option" "net_addr option" bytes
  | MHandshake Handshake
  | MHandshakeResponse "net_addr option list"
  | MEOF "net_addr option" "net_addr option"
  | MPing
  | MReadWriteUDP "net_addr option" "net_addr option" bytes

text \<open>\<^verbatim>\<open>Handshake.MarshalBinary\<close> is the only one that does not flush.\<close>

definition Handshake_MarshalBinary :: "Handshake \<Rightarrow> bytes" where
  "Handshake_MarshalBinary hs =
     en_flushed (WriteString (WriteString (WriteString (WriteString (WriteUint16 NewEncoder (hs_ProtocolVersion hs))
       (hs_Version hs)) (hs_ShortCommitID hs)) (hs_CommitID hs)) (hs_Token hs))"

definition HandshakeResponse_MarshalBinary :: "net_addr option list \<Rightarrow> bytes" where
  "HandshakeResponse_MarshalBinary addrs =
     en_flushed (en_Flush (foldl WriteAddr (WriteUint8 NewEncoder (int (length addrs))) addrs))"

definition Hello_MarshalBinary :: "net_addr option \<Rightarrow> net_addr option \<Rightarrow> bytes" where
  "Hello_MarshalBinary laddr raddr = en_flushed (en_Flush (WriteAddr (WriteAddr NewEncoder laddr) raddr))"

definition EOF_MarshalBinary :: "net_addr option \<Rightarrow> net_addr option \<Rightarrow> bytes" where
  "EOF_MarshalBinary laddr raddr = en_flushed (en_Flush (WriteAddr (WriteAddr NewEncoder laddr) raddr))"

definition ReadWrite_MarshalBinary :: "net_addr option \<Rightarrow> net_addr option \<Rightarrow> bytes \<Rightarrow> bytes" where
  "ReadWrite_MarshalBinary laddr raddr payload =
     en_flushed (en_Flush (WriteData (WriteAddr (WriteAddr NewEncoder laddr) raddr) payload))"

definition ReadWriteUDP_MarshalBinary :: "net_addr option \<Rightarrow> net_addr option \<Rightarrow> bytes \<Rightarrow> bytes" where
  "ReadWriteUDP_MarshalBinary laddr raddr payload =
     en_flushed (en_Flush (WriteData (WriteAddr (WriteAddr NewEncoder laddr) raddr) payload))"

fun MarshalBinary :: "agent_msg \<Rightarrow> bytes" where
  "MarshalBinary (MHello l r) = Hello_MarshalBinary l r"
| "MarshalBinary (MReadWrite l r p) = ReadWrite_MarshalBinary l r p"
| "MarshalBinary (MHandshake hs) = Handshake_MarshalBinary hs"
| "MarshalBinary (MHandshakeResponse addrs) = HandshakeResponse_MarshalBinary addrs"
| "MarshalBinary (MEOF l r) = EOF_MarshalBinary l r"
| "MarshalBinary MPing = []"
| "MarshalBinary (MReadWriteUDP l r p) = ReadWriteUDP_MarshalBinary l r p"

definition Handshake_UnmarshalBinary :: "bytes \<Rightarrow> agent_msg" where
  "Handshake_UnmarshalBinary data =
     (let (pv, d1) = ReadUint16 (NewDecoder data); (v, d2) = ReadString d1; (sc, d3) = ReadString d2;
          (ci, d4) = ReadString d3; (tk, d5) = ReadString d4
      in MHandshake \<lparr>hs_ProtocolVersion = pv, hs_CommitID = ci, hs_ShortCommitID = sc, hs_Version = v, hs_Token = tk\<rparr>)"

fun read_addrs :: "nat \<Rightarrow> Decoder \<Rightarrow> net_addr option list \<times> Decoder" where
  "read_addrs 0 d = ([], d)"
| "read_addrs (Suc n) d = (let (a, d1) = ReadAddr d; (as, d2) = read_addrs n d1 in (a # as, d2))"

definition HandshakeResponse_UnmarshalBinary :: "bytes \<Rightarrow> agent_msg" where
  "HandshakeResponse_UnmarshalBinary data =
     (let (n, d) = ReadUint8 (NewDecoder data) in MHandshakeResponse (fst (read_addrs (nat n) d)))"

definition Hello_UnmarshalBinary :: "bytes \<Rightarrow> agent_msg" where
  "Hello_UnmarshalBinary data =
     (let (l, d1) = ReadAddr (NewDecoder data); (r, d2) = ReadAddr d1 in MHello l r)"

definition EOF_UnmarshalBinary :: "bytes \<Rightarrow> agent_msg" where
  "EOF_UnmarshalBinary data =
     (let (l, d1) = ReadAddr (NewDecoder data); (r, d2) = ReadAddr d1 in MEOF l r)"

definition ReadWrite_UnmarshalBinary :: "bytes \<Rightarrow> agent_msg" where
  "ReadWrite_UnmarshalBinary data =
     (let (l, d1) = ReadAddr (NewDecoder data); (r, d2) = ReadAddr d1; (p, d3) = ReadData d2 in MReadWrite l r p)"

definition ReadWriteUDP_UnmarshalBinary :: "bytes \<Rightarrow> agent_msg" where
  "ReadWriteUDP_UnmarshalBinary data =
     (let (l, d1) = ReadAddr (NewDecoder data); (r, d2) = ReadAddr d1; (p, d3) = ReadData d2 in MReadWriteUDP l r p)"

section \<open>Framing\<close>

type_synonym conn2 = stream

definition unmarshalers :: "(byte \<times> (bytes \<Rightarrow> agent_msg)) list" where
  "unmarshalers =
     [(0x00, Hello_UnmarshalBinary), (0x02, Handshake_UnmarshalBinary), (0x03, HandshakeResponse_UnmarshalBinary),
      (0x01, ReadWrite_UnmarshalBinary), (0x06, ReadWriteUDP_UnmarshalBinary), (0x05, \<lambda>_. MPing), (0x04, EOF_UnmarshalBinary)]"

text \<open>An unknown type leaves a nil unmarshaler, and calling it panics once the message has been read.\<close>

definition conn2_receive :: "conn2 \<Rightarrow> (agent_msg \<times> conn2) result" where
  "conn2_receive c =
     (case conn_Read c 1 of
        (None, _) \<Rightarrow> Inl (Error ''EOF'')
      | (Some t, c1) \<Rightarrow>
          let msgType = go_copy [0] t ! 0 in
          (case conn_Read c1 2 of
             (None, _) \<Rightarrow> Inl (Error ''EOF'')
           | (Some s, c2) \<Rightarrow>
               let b = go_copy [0, 0] s; size = unat (le16 (b ! 0) (b ! 1)) in
               (case (if size = 0 then (Some [], c2) else conn_Read c2 size) of
                  (None, _) \<Rightarrow> Inl (Error ''EOF'')
                | (Some data, c3) \<Rightarrow>
                    (case map_of unmarshalers msgType of
                       None \<Rightarrow> Inl (Panic NilDereference)
                     | Some f \<Rightarrow> Inr (f (go_copy (replicate size 0) data), c3)))))"

fun msg_type :: "agent_msg \<Rightarrow> byte" where
  "msg_type (MHello l r) = 0x00"
| "msg_type (MReadWrite l r p) = 0x01"
| "msg_type (MHandshake hs) = 0x02"
| "msg_type (MHandshakeResponse addrs) = 0x03"
| "msg_type (MEOF l r) = 0x04"
| "msg_type MPing = 0x05"
| "msg_type (MReadWriteUDP l r p) = 0x06"

text \<open>What \<^verbatim>\<open>send\<close> writes, in three writes; an empty write sends nothing.\<close>

definition conn2_send :: "agent_msg \<Rightarrow> bytes list" where
  "conn2_send m =
     (let data = MarshalBinary m in filter (\<lambda>w. w \<noteq> []) [[msg_type m], put_le16 (of_nat (length data)), data])"

section \<open>The encoder writes what it is given\<close>

definition en_all :: "Encoder \<Rightarrow> bytes" where
  "en_all e = en_flushed e @ en_pending e"

fun addr_wire :: "net_addr option \<Rightarrow> bytes" where
  "addr_wire (Some (TCPAddr ip port)) = 6 # put_le16 (of_nat (length ip)) @ ip @ put_le16 (word_of_int port)"
| "addr_wire (Some (UDPAddr ip port)) = 17 # put_le16 (of_nat (length ip)) @ ip @ put_le16 (word_of_int port)"
| "addr_wire _ = [0, 0, 0, 0]"

definition data_wire :: "bytes \<Rightarrow> bytes" where
  "data_wire p = put_le16 (of_nat (length p)) @ p"

lemma en_all_New [simp]: "en_all NewEncoder = []"
  by (simp add: en_all_def NewEncoder_def)

lemma en_all_Write [simp]: "en_all (en_Write e p) = en_all e @ p"
  by (auto simp: en_all_def en_Write_def en_Flush_def Let_def)

lemma en_all_WriteByte [simp]: "en_all (en_WriteByte e b) = en_all e @ [b]"
  by (simp add: en_all_def en_WriteByte_def en_Flush_def Let_def)

lemma en_flushed_Flush [simp]: "en_flushed (en_Flush e) = en_all e"
  by (simp add: en_all_def en_Flush_def)

lemma en_all_WriteData [simp]: "en_all (WriteData e p) = en_all e @ data_wire p"
  by (simp add: WriteData_def WriteUint16_def data_wire_def)

lemma en_all_WriteAddr [simp]: "en_all (WriteAddr e a) = en_all e @ addr_wire a"
  by (auto simp: WriteAddr_def WriteUint8_def WriteUint16_def data_wire_def put_le16_def
      split: option.splits net_addr.splits)

lemma en_all_WriteAddrs: "en_all (foldl WriteAddr e as) = en_all e @ concat (map addr_wire as)"
  by (induction as arbitrary: e) simp_all

section \<open>The decoder reads back what fits its buffer\<close>

text \<open>
  \<open>de_loaded d w r\<close>: the buffer holds \<open>w\<close> and \<open>r\<close> is still to come. \<open>de_view\<close> is the same, or that
  the first read will load \<open>w\<close>.
\<close>

definition de_loaded :: "Decoder \<Rightarrow> bytes \<Rightarrow> bytes \<Rightarrow> bool" where
  "de_loaded d w r \<longleftrightarrow> de_LastError d = None \<and> de_buf d = w \<and> de_rest d = r"

definition de_view :: "Decoder \<Rightarrow> bytes \<Rightarrow> bytes \<Rightarrow> bool" where
  "de_view d w r \<longleftrightarrow> de_loaded d w r \<or>
     de_LastError d = None \<and> de_buf d = [] \<and> de_rest d = w @ r \<and> length w \<le> bufio_size \<and> (length w = bufio_size \<or> r = [])"

lemma de_view_New: "de_view (NewDecoder data) (take bufio_size data) (drop bufio_size data)"
  by (auto simp: de_view_def NewDecoder_def)

lemma de_loaded_view: "de_loaded d w r \<Longrightarrow> de_view d w r"
  by (simp add: de_view_def)

lemma de_view_no_error: "de_view d w r \<Longrightarrow> de_LastError d = None"
  by (auto simp: de_view_def de_loaded_def)

lemma de_view_unloaded:
  assumes "de_view d w r" "de_buf d = []" "w \<noteq> []"
  shows "de_rest d = w @ r" "take bufio_size (de_rest d) = w" "drop bufio_size (de_rest d) = r" "length w \<le> bufio_size"
  using assms by (auto simp: de_view_def de_loaded_def)

lemma de_Read_exact:
  assumes "de_view d (xs @ w) r" "xs \<noteq> []"
  shows "\<exists>d'. de_Read d (length xs) = (Some xs, d') \<and> de_loaded d' w r"
proof (cases "de_buf d = []")
  case False
  then show ?thesis using assms by (simp add: de_Read_def de_view_def de_loaded_def)
next
  case True
  note rest = de_view_unloaded [OF assms(1) True]
  show ?thesis
  proof (cases "bufio_size \<le> length xs")
    case big: True
    then have "w = []" using rest(4) assms(2) by (cases w) auto
    moreover have "length xs = bufio_size" using big rest(4) assms(2) by simp
    ultimately show ?thesis
      using True rest(1) assms(2) de_view_no_error [OF assms(1)] by (simp add: de_Read_def de_loaded_def bufio_size_def)
  next
    case small: False
    then show ?thesis
      using True rest(1-3) assms(2) de_view_no_error [OF assms(1)] by (simp add: de_Read_def de_loaded_def Let_def)
  qed
qed

lemma de_Read_loaded:
  assumes "de_loaded d (xs @ w) r"
  shows "\<exists>d'. de_Read d (length xs) = (Some xs, d') \<and> de_loaded d' w r"
proof (cases "xs = []")
  case True
  then show ?thesis using assms by (simp add: de_Read_def)
qed (use de_Read_exact [OF de_loaded_view [OF assms]] in simp)

lemma de_Read_short:
  assumes "de_loaded d w r" "w \<noteq> []" "length w \<le> n"
  shows "\<exists>d'. de_Read d n = (Some w, d')"
  using assms by (cases n) (simp_all add: de_Read_def de_loaded_def)

lemma ReadUint8_exact:
  assumes "de_view d (b # w) r"
  shows "\<exists>d'. ReadUint8 d = (uint b, d') \<and> de_loaded d' w r"
proof (cases "de_buf d = []")
  case False
  then show ?thesis using assms by (auto simp: ReadUint8_def de_ReadByte_def de_view_def de_loaded_def)
next
  case True
  then show ?thesis
    using de_view_unloaded [OF assms] de_view_no_error [OF assms] by (simp add: ReadUint8_def de_ReadByte_def de_loaded_def Let_def)
qed

lemma ReadUint16_exact:
  assumes "de_view d (put_le16 v @ w) r"
  shows "\<exists>d'. ReadUint16 d = (uint v, d') \<and> de_loaded d' w r"
proof -
  have "put_le16 v \<noteq> []" by (simp add: put_le16_def)
  then obtain d' where "de_Read d 2 = (Some (put_le16 v), d')" "de_loaded d' w r"
    using de_Read_exact [OF assms] by auto
  then show ?thesis
    using de_view_no_error [OF assms] by (simp add: ReadUint16_def go_copy_def put_le16_def Let_def)
qed

lemma nat_uint_length: "length (p :: bytes) < 65536 \<Longrightarrow> nat (uint (of_nat (length p) :: u16)) = length p"
  by (simp only: nat_uint_eq) (simp add: unsigned_of_nat take_bit_nat_eq_self)

lemma ReadData_exact:
  assumes "de_view d (data_wire p @ w) r" "length p < 65536"
  shows "\<exists>d'. ReadData d = (p, d') \<and> de_loaded d' w r"
proof -
  obtain d1 where d1: "ReadUint16 d = (uint (of_nat (length p) :: u16), d1)" "de_loaded d1 (p @ w) r"
    using ReadUint16_exact [of d "of_nat (length p)" "p @ w"] assms(1) by (auto simp: data_wire_def)
  obtain d2 where "de_Read d1 (length p) = (Some p, d2)" "de_loaded d2 w r"
    using de_Read_loaded [OF d1(2)] by blast
  then show ?thesis
    using assms(2-) de_view_no_error [OF assms(1)] d1(1) nat_uint_length [OF assms(2)] by (simp add: ReadData_def go_copy_same)
qed

lemma ReadData_short:
  fixes p :: bytes
  assumes "de_view d (put_le16 (of_nat (length p)) @ w) r" "length p < 65536" "w \<noteq> []" "length w \<le> length p"
  shows "\<exists>d'. ReadData d = (w @ replicate (length p - length w) 0, d')"
proof -
  obtain d1 where d1: "ReadUint16 d = (uint (of_nat (length p) :: u16), d1)" "de_loaded d1 w r"
    using ReadUint16_exact [OF assms(1)] by blast
  obtain d2 where "de_Read d1 (length p) = (Some w, d2)" using de_Read_short [OF d1(2) assms(3,4)] by blast
  then show ?thesis
    using assms(2-) de_view_no_error [OF assms(1)] d1(1) nat_uint_length [OF assms(2)] by (simp add: ReadData_def go_copy_zeros)
qed

text \<open>The addresses that survive: TCP and UDP, with an IP and a port that fit their fields.\<close>

fun wire_addr :: "net_addr option \<Rightarrow> bool" where
  "wire_addr (Some (TCPAddr ip port)) \<longleftrightarrow> length ip < 65536 \<and> 0 \<le> port \<and> port < 65536"
| "wire_addr (Some (UDPAddr ip port)) \<longleftrightarrow> length ip < 65536 \<and> 0 \<le> port \<and> port < 65536"
| "wire_addr _ \<longleftrightarrow> False"

lemma uint_u16: "0 \<le> port \<Longrightarrow> port < 65536 \<Longrightarrow> uint (word_of_int port :: u16) = port"
  by (simp add: unsigned_of_int take_bit_int_eq_self)

lemma ReadAddr_exact:
  assumes "de_view d (addr_wire a @ w) r" "wire_addr a"
  shows "\<exists>d'. ReadAddr d = (a, d') \<and> de_loaded d' w r"
proof -
  obtain proto ip port where a: "addr_wire a = proto # data_wire ip @ put_le16 (word_of_int port)"
    "length ip < 65536" "0 \<le> port" "port < 65536"
    "(if uint proto = 6 then Some (TCPAddr ip port) else if uint proto = 17 then Some (UDPAddr ip port) else None) = a"
    using assms(2) by (cases a rule: wire_addr.cases) (auto simp: data_wire_def)
  obtain d1 where d1: "ReadUint8 d = (uint proto, d1)" "de_loaded d1 (data_wire ip @ put_le16 (word_of_int port) @ w) r"
    using ReadUint8_exact [of d proto "data_wire ip @ put_le16 (word_of_int port) @ w" r] assms(1) a(1) by auto
  obtain d2 where d2: "ReadData d1 = (ip, d2)" "de_loaded d2 (put_le16 (word_of_int port) @ w) r"
    using ReadData_exact [OF _ a(2)] d1(2) de_loaded_view by blast
  obtain d3 where "ReadUint16 d2 = (port, d3)" "de_loaded d3 w r"
    using ReadUint16_exact [of d2 "word_of_int port" w r] de_loaded_view [OF d2(2)] uint_u16 [OF a(3,4)] by auto
  then show ?thesis
    using de_view_no_error [OF assms(1)] d1(1) d2(1) a(5) by (simp add: ReadAddr_def)
qed

lemma read_addrs_exact:
  assumes "de_loaded d (concat (map addr_wire as) @ w) r" "list_all wire_addr as"
  shows "\<exists>d'. read_addrs (length as) d = (as, d') \<and> de_loaded d' w r"
  using assms
proof (induction as arbitrary: d)
  case (Cons a as)
  obtain d1 where d1: "ReadAddr d = (a, d1)" "de_loaded d1 (concat (map addr_wire as) @ w) r"
    using ReadAddr_exact [of d a "concat (map addr_wire as) @ w" r] de_loaded_view [OF Cons.prems(1)] Cons.prems(2) by auto
  then show ?case using Cons.IH [OF d1(2)] Cons.prems(2) by auto
qed simp

lemma two_addrs:
  assumes "de_view d (addr_wire l @ addr_wire r @ w) t" "wire_addr l" "wire_addr r"
  obtains d1 d2 where "ReadAddr d = (l, d1)" "ReadAddr d1 = (r, d2)" "de_loaded d2 w t"
  using ReadAddr_exact [OF assms(1,2)] ReadAddr_exact [OF de_loaded_view assms(3)] that by blast

section \<open>Round trips\<close>

text \<open>The messages the agents exchange after the handshake.\<close>

fun sound_msg :: "agent_msg \<Rightarrow> bool" where
  "sound_msg (MHello l r) \<longleftrightarrow> wire_addr l \<and> wire_addr r"
| "sound_msg (MReadWrite l r p) \<longleftrightarrow> wire_addr l \<and> wire_addr r \<and> length p < 65536"
| "sound_msg (MHandshake hs) \<longleftrightarrow> False"
| "sound_msg (MHandshakeResponse addrs) \<longleftrightarrow> length addrs < 256 \<and> list_all wire_addr addrs"
| "sound_msg (MEOF l r) \<longleftrightarrow> wire_addr l \<and> wire_addr r"
| "sound_msg MPing \<longleftrightarrow> True"
| "sound_msg (MReadWriteUDP l r p) \<longleftrightarrow> wire_addr l \<and> wire_addr r \<and> length p < 65536"

lemma view_whole: "length data \<le> bufio_size \<Longrightarrow> de_view (NewDecoder data) data []"
  using de_view_New [of data] by simp

lemma read_two_addrs:
  assumes "length (addr_wire l @ addr_wire r @ w) \<le> bufio_size" "wire_addr l" "wire_addr r"
  obtains d1 d2 where "ReadAddr (NewDecoder (addr_wire l @ addr_wire r @ w)) = (l, d1)" "ReadAddr d1 = (r, d2)"
    "de_loaded d2 w []"
  by (rule two_addrs [OF view_whole [OF assms(1)] assms(2,3)]) (rule that)

lemma read_two_addrs_data:
  assumes "length (addr_wire l @ addr_wire r @ data_wire p) \<le> bufio_size" "wire_addr l" "wire_addr r" "length p < 65536"
  obtains d1 d2 d3 where "ReadAddr (NewDecoder (addr_wire l @ addr_wire r @ data_wire p)) = (l, d1)" "ReadAddr d1 = (r, d2)"
    "ReadData d2 = (p, d3)"
proof -
  obtain d1 d2 where d: "ReadAddr (NewDecoder (addr_wire l @ addr_wire r @ data_wire p)) = (l, d1)" "ReadAddr d1 = (r, d2)"
    "de_loaded d2 (data_wire p) []"
    by (rule read_two_addrs [OF assms(1-3)])
  obtain d3 where "ReadData d2 = (p, d3)"
    using ReadData_exact [of d2 p "[]" "[]"] de_loaded_view [OF d(3)] assms(4) by auto
  then show ?thesis by (rule that [OF d(1,2)])
qed

lemma Unmarshal_Marshal:
  assumes "sound_msg m" "length (MarshalBinary m) \<le> bufio_size"
  shows "\<exists>f. map_of unmarshalers (msg_type m) = Some f \<and> f (MarshalBinary m) = m"
proof (cases m)
  case (MHello l r)
  with assms have "length (addr_wire l @ addr_wire r @ []) \<le> bufio_size" "wire_addr l" "wire_addr r"
    by (simp_all add: Hello_MarshalBinary_def)
  then obtain d1 d2 where "ReadAddr (NewDecoder (addr_wire l @ addr_wire r @ [])) = (l, d1)" "ReadAddr d1 = (r, d2)"
    by (rule read_two_addrs)
  with MHello show ?thesis by (simp add: unmarshalers_def Hello_MarshalBinary_def Hello_UnmarshalBinary_def)
next
  case (MEOF l r)
  with assms have "length (addr_wire l @ addr_wire r @ []) \<le> bufio_size" "wire_addr l" "wire_addr r"
    by (simp_all add: EOF_MarshalBinary_def)
  then obtain d1 d2 where "ReadAddr (NewDecoder (addr_wire l @ addr_wire r @ [])) = (l, d1)" "ReadAddr d1 = (r, d2)"
    by (rule read_two_addrs)
  with MEOF show ?thesis by (simp add: unmarshalers_def EOF_MarshalBinary_def EOF_UnmarshalBinary_def)
next
  case (MReadWrite l r p)
  with assms have "length (addr_wire l @ addr_wire r @ data_wire p) \<le> bufio_size" "wire_addr l" "wire_addr r" "length p < 65536"
    by (simp_all add: ReadWrite_MarshalBinary_def)
  then obtain d1 d2 d3 where "ReadAddr (NewDecoder (addr_wire l @ addr_wire r @ data_wire p)) = (l, d1)"
    "ReadAddr d1 = (r, d2)" "ReadData d2 = (p, d3)"
    by (rule read_two_addrs_data)
  with MReadWrite show ?thesis
    by (simp add: unmarshalers_def ReadWrite_MarshalBinary_def ReadWrite_UnmarshalBinary_def)
next
  case (MReadWriteUDP l r p)
  with assms have "length (addr_wire l @ addr_wire r @ data_wire p) \<le> bufio_size" "wire_addr l" "wire_addr r" "length p < 65536"
    by (simp_all add: ReadWriteUDP_MarshalBinary_def)
  then obtain d1 d2 d3 where "ReadAddr (NewDecoder (addr_wire l @ addr_wire r @ data_wire p)) = (l, d1)"
    "ReadAddr d1 = (r, d2)" "ReadData d2 = (p, d3)"
    by (rule read_two_addrs_data)
  with MReadWriteUDP show ?thesis
    by (simp add: unmarshalers_def ReadWriteUDP_MarshalBinary_def ReadWriteUDP_UnmarshalBinary_def)
next
  case (MHandshakeResponse addrs)
  let ?n = "word_of_int (int (length addrs)) :: byte"
  let ?data = "?n # concat (map addr_wire addrs)"
  have m: "MarshalBinary m = ?data"
    using MHandshakeResponse by (simp add: HandshakeResponse_MarshalBinary_def en_all_WriteAddrs WriteUint8_def)
  have n: "nat (uint ?n) = length addrs"
    using assms(1) MHandshakeResponse by (simp add: unsigned_of_nat take_bit_nat_eq_self)
  obtain d1 where d1: "ReadUint8 (NewDecoder ?data) = (uint ?n, d1)" "de_loaded d1 (concat (map addr_wire addrs)) []"
    using ReadUint8_exact view_whole [OF assms(2)] unfolding m by blast
  obtain d2 where "read_addrs (length addrs) d1 = (addrs, d2)"
    using read_addrs_exact [of d1 addrs "[]" "[]"] d1(2) assms(1) MHandshakeResponse by auto
  then show ?thesis
    using m d1(1) n MHandshakeResponse by (simp add: unmarshalers_def HandshakeResponse_UnmarshalBinary_def)
qed (use assms in \<open>simp_all add: unmarshalers_def\<close>)

lemma conn2_roundtrip:
  assumes "sound_msg m" "length (MarshalBinary m) \<le> bufio_size"
  shows "conn2_receive (conn2_send m @ c) = Inr (m, c)"
proof -
  let ?data = "MarshalBinary m" and ?v = "of_nat (length (MarshalBinary m)) :: u16"
  obtain f where f: "map_of unmarshalers (msg_type m) = Some f" "f ?data = m" using Unmarshal_Marshal [OF assms] by blast
  have v: "unat ?v = length ?data"
    using assms(2) by (simp add: bufio_size_def unsigned_of_nat take_bit_nat_eq_self)
  have z: "le16 0 0 = 0" by (simp add: le16_def be16_def)
  show ?thesis
    using f v z by (cases "?data = []")
      (simp_all add: conn2_receive_def conn2_send_def conn_Read_def put_le16_def go_copy_def Let_def)
qed

text \<open>
  C12: what one side sends, the other receives. For every message after the handshake whose
  addresses are TCP or UDP addresses and whose encoding fits the 4096 bytes of the decoder's
  buffer, \<^verbatim>\<open>receive\<close> of what \<^verbatim>\<open>send\<close> wrote, followed by anything, gives the message back and
  leaves the stream at the next message.
\<close>

theorem agent_roundtrip:
  assumes "sound_msg m" "length (MarshalBinary m) \<le> bufio_size"
  shows "conn2_receive (conn2_send m @ c) = Inr (m, c)"
  using assms by (rule conn2_roundtrip)

text \<open>
  Larger messages are corrupted. When the encoding of a message exceeds the 4096-byte buffer of the
  decoder, the payload is read with a single short read: only the bytes inside the first
  4096 arrive, the rest of the payload is zeros, and no error is reported.
\<close>

theorem agent_large_payload_zeroed:
  assumes "wire_addr l" "wire_addr r" "length p < 65536"
    and head: "h = length (addr_wire l @ addr_wire r) + 2" "h < bufio_size" "bufio_size < h + length p"
  shows "ReadWrite_UnmarshalBinary (ReadWrite_MarshalBinary l r p) =
    MReadWrite l r (take (bufio_size - h) p @ replicate (length p - (bufio_size - h)) 0)"
proof -
  let ?data = "addr_wire l @ addr_wire r @ data_wire p" and ?k = "bufio_size - h"
  have w: "take bufio_size ?data = addr_wire l @ addr_wire r @ put_le16 (of_nat (length p)) @ take ?k p"
    using head by (simp add: data_wire_def)
  obtain d1 d2 where d: "ReadAddr (NewDecoder ?data) = (l, d1)" "ReadAddr d1 = (r, d2)"
    "de_loaded d2 (put_le16 (of_nat (length p)) @ take ?k p) (drop bufio_size ?data)"
    by (rule two_addrs [OF de_view_New [of ?data, unfolded w] assms(1,2)])
  have "take ?k p \<noteq> []" "length (take ?k p) = ?k" "?k \<le> length p" using head by auto
  then obtain d3 where "ReadData d2 = (take ?k p @ replicate (length p - ?k) 0, d3)"
    using ReadData_short [OF de_loaded_view [OF d(3)] assms(3)] by auto
  then show ?thesis
    using d(1,2) by (simp add: ReadWrite_MarshalBinary_def ReadWrite_UnmarshalBinary_def)
qed

lemma en_Write_fits:
  "length (en_pending e) + length p \<le> bufio_size \<Longrightarrow> en_Write e p = e\<lparr>en_pending := en_pending e @ p\<rparr>"
  by (simp add: en_Write_def Let_def)

lemma WriteUint16_fits:
  assumes "length (en_pending e) + 2 \<le> bufio_size"
  shows "en_flushed (WriteUint16 e v) = en_flushed e \<and> length (en_pending (WriteUint16 e v)) = length (en_pending e) + 2"
  using assms en_Write_fits [of e "put_le16 (word_of_int v)"] by (simp add: WriteUint16_def put_le16_def)

lemma WriteString_fits:
  assumes "length (en_pending e) + 2 + length s \<le> bufio_size"
  shows "en_flushed (WriteString e s) = en_flushed e \<and>
    length (en_pending (WriteString e s)) = length (en_pending e) + 2 + length s"
proof -
  let ?e = "WriteUint16 e (int (length s))"
  have "en_flushed ?e = en_flushed e \<and> length (en_pending ?e) = length (en_pending e) + 2"
    using WriteUint16_fits assms by simp
  then show ?thesis
    using en_Write_fits [of ?e "bytes_of_string s"] assms
    by (simp add: WriteString_def WriteData_def bytes_of_string_def)
qed

text \<open>
  \<^verbatim>\<open>Handshake.MarshalBinary\<close> does not flush its encoder. Every handshake of up to 4096
  bytes is marshalled to nothing, so it cannot be sent with this package.
\<close>

theorem handshake_marshal_empty:
  assumes "10 + length (hs_Version hs) + length (hs_ShortCommitID hs) + length (hs_CommitID hs) + length (hs_Token hs) \<le> bufio_size"
  shows "Handshake_MarshalBinary hs = []"
proof -
  let ?e0 = "WriteUint16 NewEncoder (hs_ProtocolVersion hs)"
  have e0: "en_flushed ?e0 = [] \<and> length (en_pending ?e0) = 2"
    using WriteUint16_fits [of NewEncoder] by (simp add: NewEncoder_def bufio_size_def)
  define e1 where "e1 = WriteString ?e0 (hs_Version hs)"
  define e2 where "e2 = WriteString e1 (hs_ShortCommitID hs)"
  define e3 where "e3 = WriteString e2 (hs_CommitID hs)"
  have "en_flushed e1 = [] \<and> length (en_pending e1) = 4 + length (hs_Version hs)"
    using WriteString_fits [of ?e0 "hs_Version hs"] e0 assms by (simp add: e1_def)
  then have "en_flushed e2 = [] \<and> length (en_pending e2) = 6 + length (hs_Version hs) + length (hs_ShortCommitID hs)"
    using WriteString_fits [of e1 "hs_ShortCommitID hs"] assms by (simp add: e2_def)
  then have "en_flushed e3 = [] \<and>
    length (en_pending e3) = 8 + length (hs_Version hs) + length (hs_ShortCommitID hs) + length (hs_CommitID hs)"
    using WriteString_fits [of e2 "hs_CommitID hs"] assms by (simp add: e3_def)
  then show ?thesis
    using WriteString_fits [of e3 "hs_Token hs"] assms by (simp add: Handshake_MarshalBinary_def e1_def e2_def e3_def)
qed

section \<open>Instances\<close>

theorem agent_roundtrip_witness:
  "conn2_receive (conn2_send (MReadWrite (Some (TCPAddr [127, 0, 0, 1] 80)) (Some (UDPAddr [10, 0, 0, 1] 53)) [1, 2, 3])) =
     Inr (MReadWrite (Some (TCPAddr [127, 0, 0, 1] 80)) (Some (UDPAddr [10, 0, 0, 1] 53)) [1, 2, 3], [])"
  using agent_roundtrip [of "MReadWrite (Some (TCPAddr [127, 0, 0, 1] 80)) (Some (UDPAddr [10, 0, 0, 1] 53)) [1, 2, 3]" "[]"]
  by (simp add: ReadWrite_MarshalBinary_def data_wire_def put_le16_def bufio_size_def)

theorem agent_large_payload_zeroed_witness:
  "let a = Some (TCPAddr [127, 0, 0, 1] 80) in
   ReadWrite_UnmarshalBinary (ReadWrite_MarshalBinary a a (replicate 5000 7)) = MReadWrite a a (replicate 4076 7 @ replicate 924 0)"
  using agent_large_payload_zeroed [of "Some (TCPAddr [127, 0, 0, 1] 80)" "Some (TCPAddr [127, 0, 0, 1] 80)" "replicate 5000 7" 20]
  by (simp add: put_le16_def bufio_size_def)

theorem handshake_marshal_empty_witness:
  "Handshake_MarshalBinary \<lparr>hs_ProtocolVersion = 1, hs_CommitID = ''c'', hs_ShortCommitID = ''s'', hs_Version = ''v'', hs_Token = ''t''\<rparr> = []"
  using handshake_marshal_empty
    [of "\<lparr>hs_ProtocolVersion = 1, hs_CommitID = ''c'', hs_ShortCommitID = ''s'', hs_Version = ''v'', hs_Token = ''t''\<rparr>"]
  by (simp add: bufio_size_def)

end
