(* ===== verification/Agent_Server.thy ===== *)
theory Agent_Server
  imports Agent_Codec
begin

text \<open>
  The server side of an agent session (\<^verbatim>\<open>listener/agent\<close>): the connections an agent
  forwards, and the loop that serves one agent. Connections are cells of a heap, named by their
  index. The goroutines (the loop and the services that read, write and close connections) interleave;
  a \<^verbatim>\<open>Read\<close> that finds no data runs in several steps, because it gives
  up the mutex before it waits. One goroutine reads a connection. The unbuffered channels are
  modelled at the moment of the hand-over; the network write behind them succeeds.
\<close>

section \<open>Connections\<close>

text \<open>\<^verbatim>\<open>Addr.String\<close> panics on a nil address.\<close>

fun addr_str :: "net_addr option \<Rightarrow> string result" where
  "addr_str None = Inl (Panic NilDereference)"
| "addr_str (Some a) = Inr (addr_String a)"

text \<open>Where a \<^verbatim>\<open>Read\<close> into a slice of \<open>n\<close> bytes is.\<close>

datatype reader = Idle | Checked nat | Waiting nat | Woken nat

record agentConnection =
  ac_Laddr :: "net_addr option"
  ac_Raddr :: "net_addr option"
  ac_buff :: bytes
  ac_closed :: bool
  ac_readTimeout :: "int option"
  ac_reader :: reader

definition ac_New :: "net_addr option \<Rightarrow> net_addr option \<Rightarrow> agentConnection" where
  "ac_New l r = \<lparr>ac_Laddr = l, ac_Raddr = r, ac_buff = [], ac_closed = False, ac_readTimeout = None, ac_reader = Idle\<rparr>"

text \<open>The wake-up is a non-blocking send: it reaches only a reader that already waits.\<close>

definition ac_receive :: "agentConnection \<Rightarrow> bytes \<Rightarrow> agentConnection" where
  "ac_receive dc data =
     (if ac_closed dc then dc
      else dc\<lparr>ac_buff := ac_buff dc @ data,
              ac_reader := (case ac_reader dc of Waiting n \<Rightarrow> Woken n | pc \<Rightarrow> pc)\<rparr>)"

text \<open>
  \<^verbatim>\<open>Read\<close>: the first look at the buffer, the entry into the \<^verbatim>\<open>select\<close>, and its
  outcomes: woken by \<^verbatim>\<open>receive\<close>, the closed channel, and the deadline.
\<close>

definition ac_Read :: "agentConnection \<Rightarrow> nat \<Rightarrow> bytes option \<times> agentConnection" where
  "ac_Read dc n =
     (if ac_buff dc \<noteq> [] then (Some (take n (ac_buff dc)), dc\<lparr>ac_buff := drop n (ac_buff dc)\<rparr>)
      else (None, dc\<lparr>ac_reader := Checked n\<rparr>))"

definition ac_Read_select :: "agentConnection \<Rightarrow> agentConnection" where
  "ac_Read_select dc = dc\<lparr>ac_reader := (case ac_reader dc of Checked n \<Rightarrow> Waiting n | pc \<Rightarrow> pc)\<rparr>"

definition ac_Read_woken :: "agentConnection \<Rightarrow> nat \<Rightarrow> bytes \<times> agentConnection" where
  "ac_Read_woken dc n = (take n (ac_buff dc), dc\<lparr>ac_buff := drop n (ac_buff dc), ac_reader := Idle\<rparr>)"

definition ac_Read_fails :: "agentConnection \<Rightarrow> bool" where
  "ac_Read_fails dc = (case ac_reader dc of Waiting n \<Rightarrow> ac_closed dc \<or> ac_readTimeout dc \<noteq> None | _ \<Rightarrow> False)"

definition ac_SetReadDeadline :: "agentConnection \<Rightarrow> int option \<Rightarrow> agentConnection" where
  "ac_SetReadDeadline dc t = dc\<lparr>ac_readTimeout := t\<rparr>"

text \<open>The \<^verbatim>\<open>Connections\<close> of a session, as addresses into the heap.\<close>

definition conns_Add :: "nat list \<Rightarrow> nat \<Rightarrow> nat list" where
  "conns_Add conns ac = conns @ [ac]"

fun conns_Each :: "(agentConnection \<Rightarrow> agentConnection) \<Rightarrow> nat list \<Rightarrow> agentConnection list \<Rightarrow> agentConnection list" where
  "conns_Each fn [] heap = heap"
| "conns_Each fn (a # conns) heap = conns_Each fn conns (heap[a := fn (heap ! a)])"

fun conns_Delete :: "nat list \<Rightarrow> nat \<Rightarrow> nat list" where
  "conns_Delete [] ac = []"
| "conns_Delete (a # conns) ac = (if a = ac then conns else a # conns_Delete conns ac)"

fun conns_Get :: "agentConnection list \<Rightarrow> nat list \<Rightarrow> net_addr option \<Rightarrow> net_addr option \<Rightarrow> nat option result" where
  "conns_Get heap [] laddr raddr = Inr None"
| "conns_Get heap (a # conns) laddr raddr =
     bindR (addr_str (ac_Laddr (heap ! a))) (\<lambda>cl. bindR (addr_str laddr) (\<lambda>l.
       if cl \<noteq> l then conns_Get heap conns laddr raddr
       else bindR (addr_str (ac_Raddr (heap ! a))) (\<lambda>cr. bindR (addr_str raddr) (\<lambda>r.
         if cr \<noteq> r then conns_Get heap conns laddr raddr else Inr (Some a)))))"

section \<open>UDP datagrams\<close>

record DummyUDPConn =
  du_Buffer :: bytes
  du_Laddr :: net_addr
  du_Raddr :: net_addr

definition du_Read :: "DummyUDPConn \<Rightarrow> nat \<Rightarrow> bytes \<times> DummyUDPConn" where
  "du_Read dc n = (take n (du_Buffer dc), dc\<lparr>du_Buffer := drop n (du_Buffer dc)\<rparr>)"

section \<open>A session\<close>

text \<open>
  \<open>se_accepted\<close> is what went into the channel of \<^verbatim>\<open>Accept\<close>, \<open>se_sent\<close> what was sent to the
  agent, and \<open>se_open\<close> says that the loop runs and the channel \<^verbatim>\<open>out\<close> is open.
\<close>

datatype accepted = AcceptTCP nat | AcceptUDP DummyUDPConn

record session =
  se_stream :: conn2
  se_heap :: "agentConnection list"
  se_conns :: "nat list"
  se_accepted :: "accepted list"
  se_sent :: "agent_msg list"
  se_open :: bool

definition conn_at :: "session \<Rightarrow> nat \<Rightarrow> agentConnection" where
  "conn_at s a = se_heap s ! a"

definition upd_conn :: "session \<Rightarrow> nat \<Rightarrow> (agentConnection \<Rightarrow> agentConnection) \<Rightarrow> session" where
  "upd_conn s a f = s\<lparr>se_heap := (se_heap s)[a := f (conn_at s a)]\<rparr>"

definition send_out :: "session \<Rightarrow> agent_msg \<Rightarrow> session result" where
  "send_out s m =
     (if se_open s then Inr (s\<lparr>se_sent := se_sent s @ [m]\<rparr>)
      else Inl (Panic (ExplicitPanic ''send on closed channel'')))"

definition ac_Write :: "session \<Rightarrow> nat \<Rightarrow> bytes \<Rightarrow> session result" where
  "ac_Write s a b = send_out s (MReadWrite (ac_Laddr (conn_at s a)) (ac_Raddr (conn_at s a)) b)"

definition ac_Close :: "session \<Rightarrow> nat \<Rightarrow> session result" where
  "ac_Close s a =
     (if ac_closed (conn_at s a) then Inr s
      else bindR (send_out s (MEOF (ac_Laddr (conn_at s a)) (ac_Raddr (conn_at s a))))
             (\<lambda>s1. Inr (upd_conn s1 a (\<lambda>dc. dc\<lparr>ac_closed := True\<rparr>))))"

text \<open>The reply of a UDP service; it carries the addresses of the datagram.\<close>

definition du_Write :: "session \<Rightarrow> DummyUDPConn \<Rightarrow> bytes \<Rightarrow> session result" where
  "du_Write s dc b = send_out s (MReadWriteUDP (Some (du_Laddr dc)) (Some (du_Raddr dc)) b)"

fun udp_addr :: "net_addr option \<Rightarrow> net_addr result" where
  "udp_addr (Some (UDPAddr ip port)) = Inr (UDPAddr ip port)"
| "udp_addr _ = Inl (Panic TypeAssertion)"

fun serv_message :: "session \<Rightarrow> agent_msg \<Rightarrow> session result" where
  "serv_message s (MHello l r) =
     (let a = length (se_heap s) in
      Inr (s\<lparr>se_heap := se_heap s @ [ac_New l r], se_conns := conns_Add (se_conns s) a,
             se_accepted := se_accepted s @ [AcceptTCP a]\<rparr>))"
| "serv_message s (MReadWrite l r p) =
     bindR (conns_Get (se_heap s) (se_conns s) l r) (\<lambda>c. case c of
       None \<Rightarrow> Inr s
     | Some a \<Rightarrow> Inr (upd_conn s a (\<lambda>dc. ac_receive dc p)))"
| "serv_message s (MReadWriteUDP l r p) =
     bindR (udp_addr l) (\<lambda>la. bindR (udp_addr r) (\<lambda>ra.
       Inr (s\<lparr>se_accepted := se_accepted s @ [AcceptUDP \<lparr>du_Buffer = p, du_Laddr = la, du_Raddr = ra\<rparr>]\<rparr>)))"
| "serv_message s (MEOF l r) =
     bindR (conns_Get (se_heap s) (se_conns s) l r) (\<lambda>c. case c of
       None \<Rightarrow> Inr s
     | Some a \<Rightarrow> ac_Close (s\<lparr>se_conns := conns_Delete (se_conns s) a\<rparr>) a)"
| "serv_message s _ = Inr s"

text \<open>
  The deferred clean-up: every connection of the session is closed, its last message goes to the
  goroutine that drains \<^verbatim>\<open>out\<close>, and \<^verbatim>\<open>out\<close> is closed.
\<close>

definition serv_cleanup :: "session \<Rightarrow> session" where
  "serv_cleanup s =
     s\<lparr>se_heap := conns_Each (\<lambda>dc. dc\<lparr>ac_closed := True\<rparr>) (se_conns s) (se_heap s), se_open := False\<rparr>"

text \<open>The handshake. A session that does not begin with one ends at once.\<close>

definition serv_start :: "net_addr option list \<Rightarrow> conn2 \<Rightarrow> session option" where
  "serv_start addresses c =
     (case conn2_receive c of
        Inr (MHandshake h, c1) \<Rightarrow>
          Some \<lparr>se_stream = c1, se_heap = [], se_conns = [], se_accepted = [],
                se_sent = [MHandshakeResponse addresses], se_open = True\<rparr>
      | _ \<Rightarrow> None)"

text \<open>
  One iteration of the loop: the next message is handled, or the session is over (the end of the
  stream, a receive error, or a panic, which the deferred function recovers).
\<close>

definition serv_iteration :: "session \<Rightarrow> session" where
  "serv_iteration s =
     (case conn2_receive (se_stream s) of
        Inl e \<Rightarrow> serv_cleanup s
      | Inr (m, c) \<Rightarrow>
          (case serv_message (s\<lparr>se_stream := c\<rparr>) m of
             Inl e \<Rightarrow> serv_cleanup (s\<lparr>se_stream := c\<rparr>)
           | Inr s1 \<Rightarrow> s1))"

section \<open>Interleavings\<close>

text \<open>
  What happens in a session: an iteration of the loop, and the calls of the services. \<open>Got\<close> marks the
  bytes a read returned, \<open>Put\<close> the bytes the loop handed to a connection.
\<close>

datatype action = Put nat bytes | Loop | Got nat bytes | Quiet

definition loop_action :: "session \<Rightarrow> action" where
  "loop_action s =
     (case conn2_receive (se_stream s) of
        Inr (MReadWrite l r p, c) \<Rightarrow>
          (case conns_Get (se_heap s) (se_conns s) l r of
             Inr (Some a) \<Rightarrow> if ac_closed (conn_at s a) then Loop else Put a p
           | _ \<Rightarrow> Loop)
      | _ \<Rightarrow> Loop)"

inductive session_step :: "session \<Rightarrow> action \<Rightarrow> session \<Rightarrow> bool" where
  loop: "se_open s \<Longrightarrow> session_step s (loop_action s) (serv_iteration s)"
| read_now: "a < length (se_heap s) \<Longrightarrow> ac_reader (conn_at s a) = Idle \<Longrightarrow> ac_Read (conn_at s a) n = (Some bs, dc) \<Longrightarrow>
    session_step s (Got a bs) (upd_conn s a (\<lambda>_. dc))"
| read_checked: "a < length (se_heap s) \<Longrightarrow> ac_reader (conn_at s a) = Idle \<Longrightarrow> ac_Read (conn_at s a) n = (None, dc) \<Longrightarrow>
    session_step s Quiet (upd_conn s a (\<lambda>_. dc))"
| read_select: "a < length (se_heap s) \<Longrightarrow> session_step s Quiet (upd_conn s a ac_Read_select)"
| read_woken: "a < length (se_heap s) \<Longrightarrow> ac_reader (conn_at s a) = Woken n \<Longrightarrow> ac_Read_woken (conn_at s a) n = (bs, dc) \<Longrightarrow>
    session_step s (Got a bs) (upd_conn s a (\<lambda>_. dc))"
| read_fails: "a < length (se_heap s) \<Longrightarrow> ac_Read_fails (conn_at s a) \<Longrightarrow>
    session_step s Quiet (upd_conn s a (\<lambda>dc. dc\<lparr>ac_reader := Idle\<rparr>))"
| deadline: "a < length (se_heap s) \<Longrightarrow> session_step s Quiet (upd_conn s a (\<lambda>dc. ac_SetReadDeadline dc t))"
| writes: "a < length (se_heap s) \<Longrightarrow> ac_Write s a b = Inr s' \<Longrightarrow> session_step s Quiet s'"
| closes: "a < length (se_heap s) \<Longrightarrow> ac_Close s a = Inr s' \<Longrightarrow> session_step s Quiet s'"
| replies: "AcceptUDP dc \<in> set (se_accepted s) \<Longrightarrow> du_Write s dc b = Inr s' \<Longrightarrow> session_step s Quiet s'"

inductive session_run :: "session \<Rightarrow> action list \<Rightarrow> session \<Rightarrow> bool" where
  start: "session_run s [] s"
| step: "session_run s acts s1 \<Longrightarrow> session_step s1 act s2 \<Longrightarrow> session_run s (acts @ [act]) s2"

inductive_cases session_stepE: "session_step s act s'"

section \<open>The connections as readers\<close>

interpretation ac: io_reader ac_Read ac_buff
  by unfold_locales (auto simp: ac_Read_def split: if_splits)

interpretation du: io_reader "\<lambda>dc n. map_prod Some id (du_Read dc n)" du_Buffer
  by unfold_locales (auto simp: du_Read_def)

section \<open>Lookup\<close>

lemma bindR_split: "P (bindR m f) \<longleftrightarrow> (\<forall>e. m = Inl e \<longrightarrow> P (Inl e)) \<and> (\<forall>x. m = Inr x \<longrightarrow> P (f x))"
  by (cases m) auto

definition same_addrs :: "agentConnection \<Rightarrow> net_addr option \<Rightarrow> net_addr option \<Rightarrow> bool" where
  "same_addrs dc l r \<longleftrightarrow> addr_str (ac_Laddr dc) = addr_str l \<and> addr_str (ac_Raddr dc) = addr_str r"

lemma conns_Get_Some:
  "conns_Get heap conns l r = Inr (Some a) \<Longrightarrow> a \<in> set conns \<and> same_addrs (heap ! a) l r"
  by (induction conns) (auto simp: same_addrs_def bindR_Inr_iff split: if_splits)

lemma conns_Get_snoc: "conns_Get heap conns l r = Inr (Some a) \<Longrightarrow> conns_Get heap (conns @ xs) l r = Inr (Some a)"
  by (induction conns) (auto simp: bindR_Inr_iff split: if_splits)

lemma conns_Get_addrs:
  "\<forall>b \<in> set conns. ac_Laddr (heap ! b) = ac_Laddr (heap' ! b) \<and> ac_Raddr (heap ! b) = ac_Raddr (heap' ! b) \<Longrightarrow>
   conns_Get heap conns l r = conns_Get heap' conns l r"
  by (induction conns) (simp_all cong: if_cong)

lemma conns_Get_grow:
  "set conns \<subseteq> {..<length heap} \<Longrightarrow> conns_Get (heap @ cells) conns l r = conns_Get heap conns l r"
  by (rule conns_Get_addrs) (auto simp: nth_append)

lemma conns_Delete_eq: "conns_Delete conns a = remove1 a conns"
  by (induction conns) auto

lemma conns_Each_length [simp]: "length (conns_Each fn conns heap) = length heap"
  by (induction fn conns heap rule: conns_Each.induct) auto

lemma conns_Each_closed:
  "set conns \<subseteq> {..<length heap} \<Longrightarrow> a < length heap \<Longrightarrow>
   conns_Each (\<lambda>dc. dc\<lparr>ac_closed := True\<rparr>) conns heap ! a =
     (if a \<in> set conns then (heap ! a)\<lparr>ac_closed := True\<rparr> else heap ! a)"
  by (induction "\<lambda>dc. dc\<lparr>ac_closed := True\<rparr> :: agentConnection" conns heap rule: conns_Each.induct) (auto simp: nth_list_update)

section \<open>The invariant of a session\<close>

definition session_inv :: "session \<Rightarrow> bool" where
  "session_inv s \<longleftrightarrow> distinct (se_conns s) \<and> set (se_conns s) \<subseteq> {..<length (se_heap s)} \<and>
     (\<forall>a < length (se_heap s). \<not> ac_closed (conn_at s a) \<longrightarrow> a \<in> set (se_conns s) \<and> se_open s)"

lemma upd_conn_simps [simp]:
  "se_stream (upd_conn s a f) = se_stream s" "se_conns (upd_conn s a f) = se_conns s"
  "se_accepted (upd_conn s a f) = se_accepted s" "se_sent (upd_conn s a f) = se_sent s"
  "se_open (upd_conn s a f) = se_open s" "length (se_heap (upd_conn s a f)) = length (se_heap s)"
  "a < length (se_heap s) \<Longrightarrow> conn_at (upd_conn s a f) b = (if b = a then f (conn_at s a) else conn_at s b)"
  by (simp_all add: upd_conn_def conn_at_def nth_list_update)

lemma conn_at_updates [simp]:
  "conn_at (s\<lparr>se_stream := c\<rparr>) = conn_at s" "conn_at (s\<lparr>se_conns := cs\<rparr>) = conn_at s"
  "conn_at (s\<lparr>se_accepted := acc\<rparr>) = conn_at s" "conn_at (s\<lparr>se_sent := ms\<rparr>) = conn_at s"
  by (simp_all add: conn_at_def fun_eq_iff)

lemma session_inv_upd:
  assumes "session_inv s" "a < length (se_heap s)" "ac_closed (conn_at s a) \<Longrightarrow> ac_closed (f (conn_at s a))"
  shows "session_inv (upd_conn s a f)"
  using assms by (auto simp: session_inv_def)

lemma session_inv_updates [simp]:
  "session_inv (s\<lparr>se_stream := c\<rparr>) = session_inv s" "session_inv (s\<lparr>se_accepted := acc\<rparr>) = session_inv s"
  "session_inv (s\<lparr>se_sent := ms\<rparr>) = session_inv s"
  by (simp_all add: session_inv_def)

lemma ac_receive_closed [simp]: "ac_closed (ac_receive dc p) = ac_closed dc"
  by (simp add: ac_receive_def)

lemma ac_Close_ok:
  assumes "session_inv s" "a < length (se_heap s)"
  shows "ac_Close s a = Inr (if ac_closed (conn_at s a) then s
    else upd_conn (s\<lparr>se_sent := se_sent s @ [MEOF (ac_Laddr (conn_at s a)) (ac_Raddr (conn_at s a))]\<rparr>) a
           (\<lambda>dc. dc\<lparr>ac_closed := True\<rparr>))"
  using assms by (auto simp: ac_Close_def send_out_def session_inv_def)

lemma ac_Close_inv: "session_inv s \<Longrightarrow> a < length (se_heap s) \<Longrightarrow> ac_Close s a = Inr s' \<Longrightarrow> session_inv s'"
  using session_inv_upd by (auto simp: ac_Close_ok split: if_splits)

lemma send_out_inv: "session_inv s \<Longrightarrow> send_out s m = Inr s' \<Longrightarrow> session_inv s'"
  by (auto simp: send_out_def split: if_splits)

lemma serv_cleanup_inv: "session_inv s \<Longrightarrow> session_inv (serv_cleanup s)"
  by (auto simp: session_inv_def serv_cleanup_def conn_at_def conns_Each_closed split: if_splits)

lemma conns_Get_bound:
  "session_inv s \<Longrightarrow> conns_Get (se_heap s) (se_conns s) l r = Inr (Some a) \<Longrightarrow> a < length (se_heap s)"
  using conns_Get_Some by (fastforce simp: session_inv_def)

lemma get_cases:
  assumes "session_inv s" "bindR (conns_Get (se_heap s) (se_conns s) l r) f = Inr s'"
  obtains "conns_Get (se_heap s) (se_conns s) l r = Inr None" "f None = Inr s'"
  | b where "conns_Get (se_heap s) (se_conns s) l r = Inr (Some b)" "b < length (se_heap s)" "b \<in> set (se_conns s)" "f (Some b) = Inr s'"
  using assms conns_Get_bound conns_Get_Some
  by (cases "conns_Get (se_heap s) (se_conns s) l r"; cases "projr (conns_Get (se_heap s) (se_conns s) l r)") force+

lemma serv_message_inv:
  assumes "session_inv s" "serv_message s m = Inr s'" "se_open s"
  shows "session_inv s'"
proof (cases m)
  case (MHello l r)
  then show ?thesis
    using assms by (auto simp: session_inv_def conn_at_def conns_Add_def Let_def nth_append less_Suc_eq)
next
  case (MReadWrite l r p)
  from assms(2) [unfolded MReadWrite serv_message.simps] show ?thesis
    by (rule get_cases [OF assms(1)]) (use assms(1) in \<open>auto intro!: session_inv_upd\<close>)
next
  case (MEOF l r)
  from assms(2) [unfolded MEOF serv_message.simps] show ?thesis
    by (rule get_cases [OF assms(1)])
      (use assms(1) in \<open>auto simp: ac_Close_def send_out_def session_inv_def conns_Delete_eq split: if_splits\<close>)
qed (use assms in \<open>auto simp: bindR_Inr_iff\<close>)

lemma serv_iteration_inv: "session_inv s \<Longrightarrow> se_open s \<Longrightarrow> session_inv (serv_iteration s)"
  using serv_message_inv [of "s\<lparr>se_stream := c\<rparr>" for c] serv_cleanup_inv
  by (auto simp: serv_iteration_def split: sum.split prod.split)

lemma session_step_inv: "session_step s act s' \<Longrightarrow> session_inv s \<Longrightarrow> session_inv s'"
  by (induction rule: session_step.induct)
    (auto simp: ac_Read_def ac_Read_select_def ac_Read_woken_def ac_SetReadDeadline_def ac_Write_def du_Write_def
      intro: serv_iteration_inv session_inv_upd ac_Close_inv send_out_inv split: if_splits)

lemma serv_start_inv: "serv_start addresses c = Some s \<Longrightarrow> session_inv s"
  by (auto simp: serv_start_def session_inv_def split: sum.splits prod.splits agent_msg.splits)

lemma session_run_inv: "session_run s acts s' \<Longrightarrow> session_inv s \<Longrightarrow> session_inv s'"
  by (induction rule: session_run.induct) (auto intro: session_step_inv)

section \<open>Every byte arrives once and in order\<close>



definition pending :: "session \<Rightarrow> nat \<Rightarrow> bytes" where
  "pending s a = (if a < length (se_heap s) then ac_buff (conn_at s a) else [])"

lemma pending_upd:
  "a < length (se_heap s) \<Longrightarrow> pending (upd_conn s a f) b = (if b = a then ac_buff (f (conn_at s a)) else pending s b)"
  by (simp add: pending_def)

lemma pending_updates [simp]:
  "pending (s\<lparr>se_stream := c\<rparr>) = pending s" "pending (s\<lparr>se_conns := cs\<rparr>) = pending s"
  "pending (s\<lparr>se_accepted := acc\<rparr>) = pending s" "pending (s\<lparr>se_sent := ms\<rparr>) = pending s"
  by (simp_all add: pending_def fun_eq_iff)







section \<open>Progress\<close>

lemma serv_message_reader:
  assumes "session_inv s" "serv_message s m = Inr s'" "a < length (se_heap s)"
  shows "ac_reader (conn_at s' a) = ac_reader (conn_at s a) \<or>
    (\<exists>l r p. m = MReadWrite l r p \<and> conns_Get (se_heap s) (se_conns s) l r = Inr (Some a) \<and> \<not> ac_closed (conn_at s a))"
proof (cases m)
  case (MHello l r)
  then show ?thesis using assms by (auto simp: conn_at_def Let_def nth_append)
next
  case (MReadWrite l r p)
  from assms(2) [unfolded MReadWrite serv_message.simps] show ?thesis
    by (rule get_cases [OF assms(1)]) (auto simp: MReadWrite ac_receive_def split: if_splits)
next
  case (MEOF l r)
  from assms(2) [unfolded MEOF serv_message.simps] show ?thesis
    by (rule get_cases [OF assms(1)]) (auto simp: ac_Close_def send_out_def split: if_splits)
qed (use assms in \<open>auto simp: bindR_Inr_iff\<close>)

lemma cleanup_reader:
  "session_inv s \<Longrightarrow> a < length (se_heap s) \<Longrightarrow> ac_reader (conn_at (serv_cleanup s) a) = ac_reader (conn_at s a)"
  by (auto simp: serv_cleanup_def conn_at_def session_inv_def conns_Each_closed)

lemma loop_reader:
  assumes "session_inv s" "a < length (se_heap s)"
  shows "ac_reader (conn_at (serv_iteration s) a) = ac_reader (conn_at s a) \<or> (\<exists>q. loop_action s = Put a q)"
proof (cases "conn2_receive (se_stream s)")
  case (Inl e)
  then show ?thesis using assms cleanup_reader by (simp add: serv_iteration_def)
next
  case (Inr mc)
  obtain m c where m: "conn2_receive (se_stream s) = Inr (m, c)" using Inr by (cases mc) simp
  show ?thesis
  proof (cases "serv_message (s\<lparr>se_stream := c\<rparr>) m")
    case (Inl e)
    then show ?thesis using assms m cleanup_reader [of "s\<lparr>se_stream := c\<rparr>" a] by (simp add: serv_iteration_def)
  next
    case (Inr s1)
    then show ?thesis
      using serv_message_reader [OF _ Inr, of a] assms m by (auto simp: serv_iteration_def loop_action_def)
  qed
qed

lemma step_waiting:
  assumes "session_step s act s'" "session_inv s" "a < length (se_heap s)"
    and "ac_reader (conn_at s a) = Waiting n" "\<not> ac_Read_fails (conn_at s a)"
  shows "ac_reader (conn_at s' a) = Waiting n \<or> (\<exists>q. act = Put a q)"
  using assms
proof (induction rule: session_step.induct)
  case (loop s)
  then show ?case using loop_reader by metis
qed (auto simp: ac_Read_def ac_Read_select_def ac_Read_woken_def ac_SetReadDeadline_def ac_Write_def du_Write_def
    send_out_def ac_Close_def split: if_splits)

definition stream_size :: "conn2 \<Rightarrow> nat" where
  "stream_size c = length c + length (concat c)"

lemma conn_Read_size:
  "conn_Read c n = (Some x, c') \<Longrightarrow> stream_size c' \<le> stream_size c \<and> (0 < n \<longrightarrow> stream_size c' < stream_size c)"
  by (cases c) (auto simp: conn_Read_def stream_size_def split: if_splits)

lemma conn2_receive_size:
  assumes "conn2_receive c = Inr (m, c')"
  shows "stream_size c' < stream_size c"
proof -
  obtain t c1 where 1: "conn_Read c 1 = (Some t, c1)"
    using assms by (cases "conn_Read c 1"; cases "fst (conn_Read c 1)") (auto simp: conn2_receive_def)
  obtain sz c2 where 2: "conn_Read c1 2 = (Some sz, c2)"
    using assms 1 by (cases "conn_Read c1 2"; cases "fst (conn_Read c1 2)") (auto simp: conn2_receive_def Let_def)
  obtain n where "c' = c2 \<or> (\<exists>x. conn_Read c2 n = (Some x, c'))"
    using assms 1 2 by (auto simp: conn2_receive_def Let_def split: prod.splits option.splits if_splits)
  then show ?thesis using conn_Read_size [OF 1] conn_Read_size [OF 2] conn_Read_size [of c2 n _ c'] by fastforce
qed

definition iterations :: "action list \<Rightarrow> nat" where
  "iterations acts = length (filter (\<lambda>x. case x of Put a p \<Rightarrow> True | Loop \<Rightarrow> True | _ \<Rightarrow> False) acts)"

lemma ac_Close_stream: "ac_Close s a = Inr s' \<Longrightarrow> se_stream s' = se_stream s \<and> se_open s' = se_open s"
  by (auto simp: ac_Close_def send_out_def split: if_splits)

lemma serv_message_stream:
  assumes "serv_message s m = Inr s'"
  shows "se_stream s' = se_stream s \<and> se_open s' = se_open s"
proof (cases m)
  case (MEOF l r)
  then obtain c where "(case c of None \<Rightarrow> Inr s | Some a \<Rightarrow> ac_Close (s\<lparr>se_conns := conns_Delete (se_conns s) a\<rparr>) a) = Inr s'"
    using assms by (auto simp: bindR_Inr_iff)
  then show ?thesis using ac_Close_stream by (cases c) fastforce+
qed (use assms in \<open>auto simp: bindR_Inr_iff Let_def split: option.splits\<close>)

lemma serv_cleanup_simps [simp]: "se_stream (serv_cleanup s) = se_stream s" "se_open (serv_cleanup s) = False"
  by (simp_all add: serv_cleanup_def)

lemma loop_progress:
  "se_open s \<Longrightarrow> Suc (stream_size (se_stream (serv_iteration s))) \<le>
     stream_size (se_stream s) + (if se_open (serv_iteration s) then 0 else 1)"
  using conn2_receive_size [of "se_stream s"] serv_message_stream
  by (fastforce simp: serv_iteration_def split: sum.splits prod.splits)

lemma step_progress:
  assumes "session_step s act s'"
  shows "iterations [act] + stream_size (se_stream s') + (if se_open s then 0 else 1) \<le>
    stream_size (se_stream s) + (if se_open s' then 0 else 1)"
  using assms
proof (induction rule: session_step.induct)
  case (loop s)
  then show ?case using loop_progress [OF loop] by (auto simp: iterations_def split: action.splits if_splits)
qed (auto simp: iterations_def ac_Write_def du_Write_def send_out_def ac_Close_def split: if_splits)

lemma run_progress:
  assumes "session_run s acts s'" "se_open s"
  shows "iterations acts + stream_size (se_stream s') \<le> stream_size (se_stream s) + (if se_open s' then 0 else 1)"
  using assms
proof (induction rule: session_run.induct)
  case (step s acts s1 act s2)
  then show ?case using step_progress [OF step.hyps(2)] by (simp add: iterations_def)
qed (simp add: iterations_def)

section \<open>Properties\<close>


text \<open>
  Closing is safe, writing late is not. In every reachable state of a session a connection that is
  not closed is still registered and the session is running, so \<^verbatim>\<open>Close\<close> never panics and
  leaves the connection closed. Once the session has ended every connection is closed, and a
  \<^verbatim>\<open>Write\<close> on it panics: it sends on the closed channel \<^verbatim>\<open>out\<close>.
\<close>

theorem agent_close_safe:
  assumes "serv_start addresses c = Some s0" "session_run s0 acts s" "a < length (se_heap s)"
  shows "(\<exists>s'. ac_Close s a = Inr s' \<and> ac_closed (conn_at s' a)) \<and>
    (ac_closed (conn_at s a) \<or> a \<in> set (se_conns s) \<and> se_open s) \<and>
    (\<not> se_open s \<longrightarrow> ac_closed (conn_at s a) \<and> is_panic (ac_Write s a b))"
proof -
  have inv: "session_inv s" using session_run_inv assms serv_start_inv by blast
  then show ?thesis
    using assms(3) ac_Close_ok [OF inv assms(3)] by (auto simp: session_inv_def ac_Write_def send_out_def)
qed

text \<open>
  A wake-up can be lost. \<^verbatim>\<open>Read\<close> gives up the mutex between looking at the buffer and waiting on the
  channel. Data that arrives in between is buffered, but its wake-up goes to nobody: the reader then
  waits although its buffer is not empty, and no step of the session wakes it but
  the arrival of more data (or a close or deadline, which it reports as an error).
\<close>

theorem agent_lost_wakeup:
  assumes "session_inv s" "se_open s" "a < length (se_heap s)" "ac_reader (conn_at s a) = Checked n"
    and "\<not> ac_closed (conn_at s a)" "ac_readTimeout (conn_at s a) = None"
    and "conn2_receive (se_stream s) = Inr (MReadWrite l r p, c)" "p \<noteq> []"
    and "conns_Get (se_heap s) (se_conns s) l r = Inr (Some a)"
  shows "\<exists>s'. session_run s [Put a p, Quiet] s' \<and> ac_reader (conn_at s' a) = Waiting n \<and> ac_buff (conn_at s' a) \<noteq> [] \<and>
    (\<forall>act s''. session_step s' act s'' \<longrightarrow> ac_reader (conn_at s'' a) = Waiting n \<or> (\<exists>q. act = Put a q))"
proof -
  let ?s1 = "upd_conn (s\<lparr>se_stream := c\<rparr>) a (\<lambda>dc. ac_receive dc p)" and ?s2 = "upd_conn (serv_iteration s) a ac_Read_select"
  have s1: "serv_iteration s = ?s1" "loop_action s = Put a p"
    using assms(3,5,7,9) by (simp_all add: serv_iteration_def loop_action_def)
  have a: "a < length (se_heap (serv_iteration s))" using assms(3) by (simp add: s1)
  have first: "session_step s (Put a p) (serv_iteration s)" using session_step.loop [OF assms(2)] by (simp add: s1(2))
  then have "session_run s ([Put a p] @ [Quiet]) ?s2"
    using session_run.step [OF session_run.step [OF session_run.start first]] session_step.read_select [OF a] by simp
  moreover have conn: "conn_at ?s2 a = (conn_at s a)\<lparr>ac_buff := ac_buff (conn_at s a) @ p, ac_reader := Waiting n\<rparr>"
    using assms(3-5) by (simp add: s1 ac_receive_def ac_Read_select_def)
  moreover have "session_inv ?s2"
    using session_step_inv [OF first assms(1)] session_inv_upd [OF _ a] by (simp add: ac_Read_select_def)
  then have "ac_reader (conn_at s'' a) = Waiting n \<or> (\<exists>q. act = Put a q)" if "session_step ?s2 act s''" for act s''
    using step_waiting [OF that] assms(5,6) a conn by (simp add: ac_Read_fails_def)
  ultimately show ?thesis using assms(8) by (intro exI [of _ ?s2]) simp
qed

text \<open>
  A connection that is opened again is starved. A service that closes its connection leaves it
  registered until the agent reports the end. When the agent opens a connection with the same
  addresses before that, the new connection is accepted, but the payload for it goes to the closed
  one in front of it and is dropped.
\<close>

theorem agent_reopened_starved:
  assumes "serv_start addresses c = Some s0" "session_run s0 acts s" "se_open s"
    and "conns_Get (se_heap s) (se_conns s) l r = Inr (Some a)" "ac_Close s a = Inr s1" "serv_message s1 (MHello l r) = Inr s2"
  shows "se_accepted s2 = se_accepted s @ [AcceptTCP (length (se_heap s))] \<and> serv_message s2 (MReadWrite l r p) = Inr s2"
proof -
  have inv: "session_inv s" using session_run_inv assms(1,2) serv_start_inv by blast
  have a: "a < length (se_heap s)" using conns_Get_bound [OF inv assms(4)] .
  have cl: "ac_closed (conn_at s1 a)" "se_conns s1 = se_conns s" "length (se_heap s1) = length (se_heap s)"
      "se_accepted s1 = se_accepted s"
    using assms(5) a ac_Close_ok [OF inv a] by (auto split: if_splits)
  have "conns_Get (se_heap s1) (se_conns s) l r = conns_Get (se_heap s) (se_conns s) l r"
    using assms(5) a ac_Close_ok [OF inv a]
    by (intro conns_Get_addrs) (auto simp: upd_conn_def conn_at_def nth_list_update split: if_splits)
  moreover have "set (se_conns s) \<subseteq> {..<length (se_heap s1)}" using inv cl(3) by (simp add: session_inv_def)
  moreover have s2: "se_heap s2 = se_heap s1 @ [ac_New l r]" "se_conns s2 = se_conns s @ [length (se_heap s)]"
      "se_accepted s2 = se_accepted s @ [AcceptTCP (length (se_heap s))]"
    using assms(6) cl(2-4) by (auto simp: Let_def conns_Add_def)
  ultimately have "conns_Get (se_heap s2) (se_conns s2) l r = Inr (Some a)"
    using assms(4) conns_Get_grow conns_Get_snoc by metis
  moreover have "ac_closed (conn_at s2 a)" "a < length (se_heap s2)"
    using cl(1,3) a s2(1) by (simp_all add: conn_at_def nth_append)
  then have "upd_conn s2 a (\<lambda>dc. ac_receive dc p) = s2" by (simp add: upd_conn_def ac_receive_def conn_at_def)
  ultimately show ?thesis using s2(3) by simp
qed

text \<open>
  A session ends with its stream. Every message takes at least one byte or chunk from the connection,
  so a session handles no more messages than its stream has bytes and chunks, whatever
  its services do.
\<close>

theorem agent_session_bounded:
  assumes "serv_start addresses c = Some s0" "session_run s0 acts s"
  shows "iterations acts \<le> stream_size (se_stream s0) + 1"
proof -
  have "se_open s0" using assms(1) by (auto simp: serv_start_def split: sum.splits prod.splits agent_msg.splits)
  then show ?thesis using run_progress [OF assms(2)] by (simp split: if_splits)
qed

section \<open>Instances\<close>

text \<open>An agent that shakes hands, opens a connection and sends two bytes on it.\<close>

definition sample_addr :: "net_addr option" where
  "sample_addr = Some (TCPAddr [127, 0, 0, 1] 80)"

definition sample_hello :: conn2 where
  "sample_hello = conn2_send (MHello sample_addr sample_addr)"

definition sample_data :: conn2 where
  "sample_data = conn2_send (MReadWrite sample_addr sample_addr [1, 2])"

definition sample_conns :: "agentConnection list \<Rightarrow> conn2 \<Rightarrow> session" where
  "sample_conns heap c =
     \<lparr>se_stream = c, se_heap = heap, se_conns = [0..<length heap], se_accepted = map AcceptTCP [0..<length heap],
      se_sent = [MHandshakeResponse []], se_open = True\<rparr>"

definition sample_handshake :: conn2 where
  "sample_handshake = [[2], [10, 0], replicate 10 0]"

definition sample_conn :: "bytes \<Rightarrow> reader \<Rightarrow> agentConnection" where
  "sample_conn buff pc = (ac_New sample_addr sample_addr)\<lparr>ac_buff := buff, ac_reader := pc\<rparr>"

lemma sample_handshake_received: "\<exists>h. conn2_receive (sample_handshake @ c) = Inr (MHandshake h, c)"
  by (simp add: sample_handshake_def conn2_receive_def conn_Read_def go_copy_def Let_def unmarshalers_def le16_def be16_def
      Handshake_UnmarshalBinary_def split: prod.split)

lemma sample_messages_fit:
  "length (MarshalBinary (MHello sample_addr sample_addr)) \<le> bufio_size"
  "length (MarshalBinary (MReadWrite sample_addr sample_addr [1, 2])) \<le> bufio_size"
  by (simp_all add: Hello_MarshalBinary_def ReadWrite_MarshalBinary_def sample_addr_def data_wire_def put_le16_def bufio_size_def)

lemma sample_received:
  "conn2_receive (sample_hello @ c) = Inr (MHello sample_addr sample_addr, c)"
  "conn2_receive sample_data = Inr (MReadWrite sample_addr sample_addr [1, 2], [])"
  using conn2_roundtrip [of "MHello sample_addr sample_addr" c] conn2_roundtrip [of "MReadWrite sample_addr sample_addr [1, 2]" "[]"]
    sample_messages_fit by (simp_all add: sample_hello_def sample_data_def sample_addr_def)

lemma sample_start: "serv_start [] (sample_handshake @ sample_hello @ sample_data) = Some (sample_conns [] (sample_hello @ sample_data))"
  using sample_handshake_received [of "sample_hello @ sample_data"] by (auto simp: serv_start_def sample_conns_def)

lemma sample_opened: "serv_iteration (sample_conns [] (sample_hello @ sample_data)) = sample_conns [sample_conn [] Idle] sample_data"
  by (simp add: serv_iteration_def sample_conns_def sample_received sample_conn_def ac_New_def conns_Add_def)

lemma sample_found: "conns_Get [sample_conn buff pc] [0] sample_addr sample_addr = Inr (Some 0)"
  by (simp add: sample_conn_def ac_New_def sample_addr_def)

lemma sample_actions:
  "loop_action (sample_conns [] (sample_hello @ sample_data)) = Loop"
  "loop_action (sample_conns [sample_conn [] Idle] sample_data) = Put 0 [1, 2]"
proof -
  show "loop_action (sample_conns [] (sample_hello @ sample_data)) = Loop"
    by (simp add: loop_action_def sample_conns_def sample_received)
  show "loop_action (sample_conns [sample_conn [] Idle] sample_data) = Put 0 [1, 2]"
    by (simp add: loop_action_def sample_conns_def sample_received sample_found conn_at_def del: conns_Get.simps)
      (simp add: sample_conn_def ac_New_def)
qed

lemma sample_put: "serv_iteration (sample_conns [sample_conn [] Idle] sample_data) = sample_conns [sample_conn [1, 2] Idle] []"
  by (simp add: serv_iteration_def sample_conns_def sample_received sample_found upd_conn_def conn_at_def del: conns_Get.simps)
    (simp add: sample_conn_def ac_New_def ac_receive_def)

lemma sample_run1: "session_run (sample_conns [] (sample_hello @ sample_data)) [Loop] (sample_conns [sample_conn [] Idle] sample_data)"
  using session_run.step [OF session_run.start session_step.loop [of "sample_conns [] (sample_hello @ sample_data)"]]
  by (simp add: sample_opened sample_actions) (simp add: sample_conns_def)

lemma sample_run:
  "session_run (sample_conns [] (sample_hello @ sample_data)) [Loop, Put 0 [1, 2], Got 0 [1]] (sample_conns [sample_conn [2] Idle] [])"
proof -
  have "session_run (sample_conns [] (sample_hello @ sample_data)) [Loop, Put 0 [1, 2]] (sample_conns [sample_conn [1, 2] Idle] [])"
    using session_run.step [OF sample_run1 session_step.loop] by (simp add: sample_put sample_actions) (simp add: sample_conns_def)
  moreover have "session_step (sample_conns [sample_conn [1, 2] Idle] []) (Got 0 [1]) (sample_conns [sample_conn [2] Idle] [])"
    using session_step.read_now [of 0 "sample_conns [sample_conn [1, 2] Idle] []" 1 "[1]" "sample_conn [2] Idle"]
    by (simp add: sample_conns_def sample_conn_def conn_at_def upd_conn_def ac_Read_def)
  ultimately show ?thesis using session_run.step by fastforce
qed


theorem agent_close_safe_witness:
  "\<exists>s'. ac_Close (sample_conns [sample_conn [2] Idle] []) 0 = Inr s' \<and> ac_closed (conn_at s' 0)"
  using agent_close_safe [OF sample_start sample_run, of 0] by (simp add: sample_conns_def)

theorem agent_lost_wakeup_witness:
  "\<exists>s'. session_run (sample_conns [sample_conn [] (Checked 8)] sample_data) [Put 0 [1, 2], Quiet] s' \<and>
     ac_reader (conn_at s' 0) = Waiting 8 \<and> ac_buff (conn_at s' 0) \<noteq> []"
proof -
  let ?s = "sample_conns [sample_conn [] (Checked 8)] sample_data"
  have "session_inv ?s" "se_open ?s" "0 < length (se_heap ?s)" "ac_reader (conn_at ?s 0) = Checked 8"
      "\<not> ac_closed (conn_at ?s 0)" "ac_readTimeout (conn_at ?s 0) = None"
    by (simp_all add: sample_conns_def sample_conn_def session_inv_def conn_at_def ac_New_def)
  moreover have "conn2_receive (se_stream ?s) = Inr (MReadWrite sample_addr sample_addr [1, 2], [])"
    "conns_Get (se_heap ?s) (se_conns ?s) sample_addr sample_addr = Inr (Some 0)"
    by (simp_all add: sample_conns_def sample_received sample_found del: conns_Get.simps)
  ultimately show ?thesis using agent_lost_wakeup [of ?s 0 8 sample_addr sample_addr "[1, 2]" "[]"] by auto
qed

theorem agent_reopened_starved_witness:
  "\<exists>s1 s2. ac_Close (sample_conns [sample_conn [] Idle] sample_data) 0 = Inr s1 \<and>
     serv_message s1 (MHello sample_addr sample_addr) = Inr s2 \<and>
     serv_message s2 (MReadWrite sample_addr sample_addr [7]) = Inr s2"
proof -
  let ?s = "sample_conns [sample_conn [] Idle] sample_data"
  have o: "se_open ?s" by (simp add: sample_conns_def)
  have g: "conns_Get (se_heap ?s) (se_conns ?s) sample_addr sample_addr = Inr (Some 0)"
    by (simp add: sample_conns_def sample_found del: conns_Get.simps)
  have "session_inv ?s" using session_run_inv [OF sample_run1 serv_start_inv [OF sample_start]] .
  then obtain s1 where s1: "ac_Close ?s 0 = Inr s1" using ac_Close_ok [of ?s 0] by (simp add: sample_conns_def)
  obtain s2 where s2: "serv_message s1 (MHello sample_addr sample_addr) = Inr s2" by (simp add: Let_def)
  show ?thesis using agent_reopened_starved [OF sample_start sample_run1 o g s1 s2] s1 s2 by blast
qed

theorem agent_session_bounded_witness:
  "iterations [Loop, Put 0 [1, 2], Got 0 [1]] \<le> stream_size (sample_hello @ sample_data) + 1"
  using agent_session_bounded [OF sample_start sample_run] by (simp add: sample_conns_def)

end
