(* ===== verification/Channels.thy ===== *)
theory Channels
  imports Events
begin

text \<open>
  Delivery of events: the channels of \<^verbatim>\<open>pushers/filters.go\<close> and
  \<^verbatim>\<open>pushers/dummy.go\<close>, the registry of \<^verbatim>\<open>pushers/channel.go\<close>, the
  event bus and the part of \<^verbatim>\<open>server/honeytrap.go\<close> that builds the subscribers
  from the filter configuration. An event is a reference to one map, so what
  a channel stores into it is seen by the channels behind it: \<open>ch_Send\<close> returns the event beside
  the deliveries. Regular expressions are matched by the parameter \<open>matches\<close>.
\<close>

section \<open>Channels\<close>

type_synonym FilterFunc = "event \<Rightarrow> bool"

datatype channel =
    Backend nat
  | DummyChannel
  | FilterChannel channel FilterFunc
  | TokenChannel channel string

type_synonym delivery = "nat \<times> event"

fun ch_Send :: "channel \<Rightarrow> event \<Rightarrow> event \<times> delivery list" where
  "ch_Send (Backend i) e = (e, [(i, e)])"
| "ch_Send DummyChannel e = (e, [])"
| "ch_Send (FilterChannel ch fn) e = (if \<not> fn e then (e, []) else ch_Send ch e)"
| "ch_Send (TokenChannel ch token) e = ch_Send ch (ev_Apply e [ev_Token token])"

definition RegexFilterFunc :: "(string \<Rightarrow> string \<Rightarrow> bool) \<Rightarrow> string \<Rightarrow> string list \<Rightarrow> FilterFunc" where
  "RegexFilterFunc matches field expressions = (\<lambda>e. list_ex (\<lambda>rx. matches rx (ev_Get e field)) expressions)"

text \<open>The registry: the constructor of a type, or the dummy and false.\<close>

definition pushers_Register :: "(string \<Rightarrow> 'f option) \<Rightarrow> string \<Rightarrow> 'f \<Rightarrow> (string \<Rightarrow> 'f option)" where
  "pushers_Register channels key fn = channels(key \<mapsto> fn)"

definition pushers_Get :: "'f \<Rightarrow> (string \<Rightarrow> 'f option) \<Rightarrow> string \<Rightarrow> 'f \<times> bool" where
  "pushers_Get dummy channels key = (case channels key of Some fn \<Rightarrow> (fn, True) | None \<Rightarrow> (dummy, False))"

section \<open>The event bus\<close>

type_synonym EventBus = "channel list"

definition bus_Subscribe :: "EventBus \<Rightarrow> channel \<Rightarrow> EventBus" where
  "bus_Subscribe bus ch = bus @ [ch]"

fun bus_Send :: "EventBus \<Rightarrow> event \<Rightarrow> event \<times> delivery list" where
  "bus_Send [] e = (e, [])"
| "bus_Send (ch # chs) e =
     (let (e1, ds1) = ch_Send ch e; (e2, ds2) = bus_Send chs e1 in (e2, ds1 @ ds2))"

section \<open>Filters of the configuration\<close>

record filter_config =
  fc_Channels :: "string list"
  fc_Services :: "string list"
  fc_Categories :: "string list"

definition wrap_channel :: "(string \<Rightarrow> string \<Rightarrow> bool) \<Rightarrow> string \<Rightarrow> filter_config \<Rightarrow> channel \<Rightarrow> channel" where
  "wrap_channel matches token x ch =
     (let ch1 = TokenChannel ch token;
          ch2 = (if fc_Categories x \<noteq> [] then FilterChannel ch1 (RegexFilterFunc matches ''category'' (fc_Categories x)) else ch1)
      in if fc_Services x \<noteq> [] then FilterChannel ch2 (RegexFilterFunc matches ''service'' (fc_Services x)) else ch2)"

fun subscribe_names ::
  "(string \<Rightarrow> string \<Rightarrow> bool) \<Rightarrow> string \<Rightarrow> (string \<Rightarrow> channel option) \<Rightarrow> filter_config \<Rightarrow> string list \<Rightarrow> EventBus \<Rightarrow> EventBus" where
  "subscribe_names matches token channels x [] bus = bus"
| "subscribe_names matches token channels x (name # names) bus =
     (case channels name of
        None \<Rightarrow> subscribe_names matches token channels x names bus
      | Some ch \<Rightarrow> subscribe_names matches token channels x names (bus_Subscribe bus (wrap_channel matches token x ch)))"

fun subscribe_filters ::
  "(string \<Rightarrow> string \<Rightarrow> bool) \<Rightarrow> string \<Rightarrow> (string \<Rightarrow> channel option) \<Rightarrow> filter_config list \<Rightarrow> EventBus \<Rightarrow> EventBus" where
  "subscribe_filters matches token channels [] bus = bus"
| "subscribe_filters matches token channels (x # xs) bus =
     subscribe_filters matches token channels xs (subscribe_names matches token channels x (fc_Channels x) bus)"

section \<open>What is delivered\<close>

text \<open>The specification: the conditions of a filter, read off the event alone.\<close>

definition passes :: "(string \<Rightarrow> string \<Rightarrow> bool) \<Rightarrow> filter_config \<Rightarrow> event \<Rightarrow> bool" where
  "passes matches x e \<longleftrightarrow>
     (fc_Categories x = [] \<or> list_ex (\<lambda>rx. matches rx (ev_Get e ''category'')) (fc_Categories x)) \<and>
     (fc_Services x = [] \<or> list_ex (\<lambda>rx. matches rx (ev_Get e ''service'')) (fc_Services x))"

definition reached :: "(string \<Rightarrow> string \<Rightarrow> bool) \<Rightarrow> string \<Rightarrow> (string \<Rightarrow> nat option) \<Rightarrow> filter_config \<Rightarrow> event \<Rightarrow> string \<Rightarrow> delivery list" where
  "reached matches token backends x e name =
     (case backends name of None \<Rightarrow> [] | Some i \<Rightarrow> if passes matches x e then [(i, ev_Token token e)] else [])"

definition routed :: "(string \<Rightarrow> string \<Rightarrow> bool) \<Rightarrow> string \<Rightarrow> (string \<Rightarrow> nat option) \<Rightarrow> filter_config \<Rightarrow> event \<Rightarrow> delivery list" where
  "routed matches token backends x e = concat (map (reached matches token backends x e) (fc_Channels x))"

lemma bus_Send_append:
  "bus_Send (xs @ ys) e = (let (e1, ds1) = bus_Send xs e; (e2, ds2) = bus_Send ys e1 in (e2, ds1 @ ds2))"
  by (induction xs arbitrary: e) (simp_all add: split_def Let_def)

lemma token_get [simp]:
  "ev_Get (ev_Token t e) ''category'' = ev_Get e ''category''" "ev_Get (ev_Token t e) ''service'' = ev_Get e ''service''"
  by (simp_all add: ev_Get_def ev_defs)

lemma token_idem [simp]: "ev_Token t (ev_Token t e) = ev_Token t e"
  by (simp add: ev_defs)

lemma passes_token [simp]: "passes matches x (ev_Token t e) = passes matches x e"
  by (simp add: passes_def)

lemma wrap_channel_send:
  "ch_Send (wrap_channel matches token x (Backend i)) e =
     (if passes matches x e then (ev_Token token e, [(i, ev_Token token e)]) else (e, []))"
  by (auto simp: wrap_channel_def Let_def RegexFilterFunc_def passes_def)

text \<open>The event as the bus passes it on is the original one, with or without the token.\<close>

definition same_event :: "string \<Rightarrow> event \<Rightarrow> event \<Rightarrow> bool" where
  "same_event token e e' \<longleftrightarrow> e' = e \<or> e' = ev_Token token e"

lemma same_event_token: "same_event token e e' \<Longrightarrow> ev_Token token e' = ev_Token token e"
  by (auto simp: same_event_def)

lemma same_event_passes: "same_event token e e' \<Longrightarrow> passes matches x e' = passes matches x e"
  by (auto simp: same_event_def)

lemma subscribe_names_append:
  "subscribe_names matches token channels x names bus =
     bus @ concat (map (\<lambda>name. case channels name of None \<Rightarrow> [] | Some ch \<Rightarrow> [wrap_channel matches token x ch]) names)"
  by (induction names arbitrary: bus) (simp_all add: bus_Subscribe_def split: option.splits)

lemma subscribe_filters_append:
  "subscribe_filters matches token channels xs bus =
     bus @ concat (map (\<lambda>x. subscribe_names matches token channels x (fc_Channels x) []) xs)"
  by (induction xs arbitrary: bus) (simp_all add: subscribe_names_append)

lemma names_send:
  assumes "same_event token e e'"
  shows "\<exists>e''. bus_Send (subscribe_names matches token (\<lambda>n. map_option Backend (backends n)) x names []) e' =
    (e'', concat (map (reached matches token backends x e) names)) \<and> same_event token e e''"
  using assms
proof (induction names arbitrary: e')
  case (Cons name names)
  show ?case
  proof (cases "backends name")
    case None
    then show ?thesis using Cons.IH [OF Cons.prems] by (simp add: reached_def [of _ _ _ _ _ name])
  next
    case (Some i)
    let ?e1 = "if passes matches x e then ev_Token token e else e'"
    have e1: "same_event token e ?e1" using Cons.prems by (auto simp: same_event_def)
    obtain e'' where e'': "bus_Send (subscribe_names matches token (\<lambda>n. map_option Backend (backends n)) x names []) ?e1 =
      (e'', concat (map (reached matches token backends x e) names))" "same_event token e e''"
      using Cons.IH [OF e1] by blast
    have "ch_Send (wrap_channel matches token x (Backend i)) e' = (?e1, reached matches token backends x e name)"
      using Cons.prems Some by (simp add: wrap_channel_send same_event_passes same_event_token reached_def)
    then show ?thesis
      using Some e'' by (simp add: subscribe_names_append bus_Subscribe_def split del: if_split)
  qed
qed simp

lemma filters_send:
  assumes "same_event token e e'"
  shows "\<exists>e''. bus_Send (subscribe_filters matches token (\<lambda>n. map_option Backend (backends n)) xs []) e' =
    (e'', concat (map (\<lambda>x. routed matches token backends x e) xs)) \<and> same_event token e e''"
  using assms
proof (induction xs arbitrary: e')
  case (Cons x xs)
  obtain e1 where e1: "bus_Send (subscribe_names matches token (\<lambda>n. map_option Backend (backends n)) x (fc_Channels x) []) e' =
      (e1, routed matches token backends x e)" "same_event token e e1"
    using names_send [OF Cons.prems, of matches backends x "fc_Channels x"] by (auto simp: routed_def)
  obtain e2 where "bus_Send (subscribe_filters matches token (\<lambda>n. map_option Backend (backends n)) xs []) e1 =
      (e2, concat (map (\<lambda>x. routed matches token backends x e) xs))" "same_event token e e2"
    using Cons.IH [OF e1(2)] by blast
  then show ?case using e1 by (simp add: subscribe_filters_append bus_Send_append)
qed simp

text \<open>
  C25: the configured filters route events as specified. On a bus built
  from the filter configuration, an event reaches the named channels of exactly those filters whose
  category and service expressions it satisfies, in the order of the configuration; names
  that denote no channel are skipped. Every delivered event carries the sensor's token and is otherwise
  the event that was sent, although all subscribers share and modify one event.
\<close>

theorem filters_route_events:
  "snd (bus_Send (subscribe_filters matches token (\<lambda>n. map_option Backend (backends n)) xs []) e) =
     concat (map (\<lambda>x. routed matches token backends x e) xs)"
proof -
  have "same_event token e e" by (simp add: same_event_def)
  from filters_send [OF this] show ?thesis by (metis snd_conv)
qed

end
