(* ===== verification/Server_Dispatch.thy ===== *)
theory Server_Dispatch
  imports Channels Go_IO
begin

text \<open>
  The server (\<^verbatim>\<open>server/honeytrap.go\<close>, \<^verbatim>\<open>utils/peek-connection.go\<close>): how the configuration
  becomes channels, services and ports, and how a connection finds its service. What the
  configured components do is outside: their constructors are the registries of \<open>registries\<close>, a
  service is its \<^verbatim>\<open>CanHandle\<close> method, if it has one, and the parameter \<open>serve\<close> of
  \<open>handle\<close>. A table of the configuration is decoded by the TOML library: an option, with
  \<open>None\<close> for a decoding error.
\<close>

section \<open>Connections that can be peeked\<close>

record PeekConn =
  pc_conn :: stream
  pc_buffer :: bytes

definition PeekConnection :: "stream \<Rightarrow> PeekConn" where
  "PeekConnection c = \<lparr>pc_conn = c, pc_buffer = []\<rparr>"

definition pc_Peek :: "PeekConn \<Rightarrow> nat \<Rightarrow> bytes option \<times> PeekConn" where
  "pc_Peek pc n =
     (case conn_Read (pc_conn pc) n of
        (None, c) \<Rightarrow> (None, pc\<lparr>pc_conn := c\<rparr>)
      | (Some p, c) \<Rightarrow> (Some p, pc\<lparr>pc_conn := c, pc_buffer := pc_buffer pc @ p\<rparr>))"

definition pc_Read :: "PeekConn \<Rightarrow> nat \<Rightarrow> bytes option \<times> PeekConn" where
  "pc_Read pc n =
     (if pc_buffer pc \<noteq> [] then (Some (take n (pc_buffer pc)), pc\<lparr>pc_buffer := drop n (pc_buffer pc)\<rparr>)
      else case conn_Read (pc_conn pc) n of (r, c) \<Rightarrow> (r, pc\<lparr>pc_conn := c\<rparr>))"

definition pc_content :: "PeekConn \<Rightarrow> bytes" where
  "pc_content pc = pc_buffer pc @ concat (pc_conn pc)"

section \<open>Services and ports\<close>

record ServiceMap =
  sm_Name :: string
  sm_Type :: string
  sm_CanHandle :: "(bytes \<Rightarrow> bool) option"

text \<open>
  The port tables. A port is mapped to pointers to services; the pointer of a service name that is
  not configured is nil.
\<close>

record Honeytrap =
  hc_bus :: EventBus
  hc_tcpPorts :: "int \<Rightarrow> ServiceMap option list option"
  hc_udpPorts :: "int \<Rightarrow> ServiceMap option list option"
  hc_used :: "string \<Rightarrow> bool option"
  hc_addresses :: "net_addr list"

text \<open>\<^verbatim>\<open>ToAddr\<close>: address, protocol and port. Resolving \<^verbatim>\<open>:port\<close> gives the address without IP.\<close>

definition ToAddr :: "string \<Rightarrow> (net_addr \<times> string \<times> int) result" where
  "ToAddr input = (case split_on (CHR ''/'') input of
     [proto, portStr] \<Rightarrow>
       (case ParseUint portStr 16 of
          NumOk port \<Rightarrow>
            if proto = ''tcp'' then Inr (TCPAddr [] (int port), proto, int port)
            else if proto = ''udp'' then Inr (UDPAddr [] (int port), proto, int port)
            else Inl (Error (''unknown protocol '' @ proto))
        | _ \<Rightarrow> Inl (Error ''error parsing port value''))
   | _ \<Rightarrow> Inl (Error ''wrong format (needs to be \"protocol/port\")''))"

record port_config =
  pt_Port :: string
  pt_Ports :: "string list option"
  pt_Services :: "string list"

definition port_strings :: "port_config \<Rightarrow> string list" where
  "port_strings x = (case pt_Ports x of Some ps \<Rightarrow> ps | None \<Rightarrow> []) @ (if pt_Port x \<noteq> [] then [pt_Port x] else [])"

definition add_port :: "(string \<Rightarrow> ServiceMap option) \<Rightarrow> bool \<Rightarrow> port_config \<Rightarrow> string \<Rightarrow> Honeytrap \<Rightarrow> Honeytrap" where
  "add_port serviceList addresser x portStr hc =
     (case ToAddr portStr of
        Inl e \<Rightarrow> hc
      | Inr (addr, proto, port) \<Rightarrow>
          let servicePtrs = map serviceList (pt_Services x);
              hc1 = hc\<lparr>hc_used := fold (\<lambda>name used. used(name \<mapsto> True)) (pt_Services x) (hc_used hc)\<rparr>;
              add = (\<lambda>h. if addresser then h\<lparr>hc_addresses := hc_addresses h @ [addr]\<rparr> else h)
          in if proto = ''tcp''
             then (if hc_tcpPorts hc port \<noteq> None then hc1 else add (hc1\<lparr>hc_tcpPorts := (hc_tcpPorts hc)(port \<mapsto> servicePtrs)\<rparr>))
             else (if hc_udpPorts hc port \<noteq> None then hc1 else add (hc1\<lparr>hc_udpPorts := (hc_udpPorts hc)(port \<mapsto> servicePtrs)\<rparr>)))"

fun configure_ports :: "(string \<Rightarrow> ServiceMap option) \<Rightarrow> bool \<Rightarrow> port_config option list \<Rightarrow> Honeytrap \<Rightarrow> Honeytrap" where
  "configure_ports serviceList addresser [] hc = hc"
| "configure_ports serviceList addresser (None # xs) hc = configure_ports serviceList addresser xs hc"
| "configure_ports serviceList addresser (Some x # xs) hc =
     configure_ports serviceList addresser xs
       (if pt_Port x = [] \<and> pt_Ports x = None then hc
        else fold (add_port serviceList addresser x) (port_strings x) hc)"

section \<open>Components from the configuration\<close>

type_synonym toml = string

text \<open>
  The loops over channels, directors and scripters have the same form. A table without type or of
  an unknown type is skipped; a constructor that fails ends the program.
\<close>

fun load_plugins ::
  "(string \<Rightarrow> (string \<Rightarrow> toml \<Rightarrow> 'p result) option) \<Rightarrow> (string \<times> string option \<times> toml) list \<Rightarrow> (string \<Rightarrow> 'p option) \<Rightarrow> (string \<Rightarrow> 'p option) result" where
  "load_plugins registry [] m = Inr m"
| "load_plugins registry ((key, ty, s) # xs) m =
     (case ty of
        None \<Rightarrow> load_plugins registry xs m
      | Some t \<Rightarrow>
          if t = [] then load_plugins registry xs m
          else case registry t of
            None \<Rightarrow> load_plugins registry xs m
          | Some fn \<Rightarrow> bindR (fn key s) (\<lambda>d. load_plugins registry xs (m(key \<mapsto> d))))"

record service_config =
  sc_Type :: string
  sc_Director :: string
  sc_Scripter :: string
  sc_Port :: string

record ('d, 's) registries =
  rg_channels :: "string \<Rightarrow> (string \<Rightarrow> toml \<Rightarrow> channel result) option"
  rg_directors :: "string \<Rightarrow> (string \<Rightarrow> toml \<Rightarrow> 'd result) option"
  rg_scripters :: "string \<Rightarrow> (string \<Rightarrow> toml \<Rightarrow> 's result) option"
  rg_services :: "string \<Rightarrow> (toml \<Rightarrow> 'd option \<Rightarrow> 's option \<Rightarrow> (bytes \<Rightarrow> bool) option) option"
  rg_listeners :: "string \<Rightarrow> (EventBus \<Rightarrow> bool result) option"
  rg_web :: EventBus

definition load_channels :: "('d, 's) registries \<Rightarrow> (string \<times> string option \<times> toml) list \<Rightarrow> (string \<Rightarrow> channel option) result" where
  "load_channels rg cfg = load_plugins (rg_channels rg) cfg Map.empty"

definition load_directors :: "('d, 's) registries \<Rightarrow> (string \<times> string option \<times> toml) list \<Rightarrow> (string \<Rightarrow> 'd option) result" where
  "load_directors rg cfg = load_plugins (rg_directors rg) cfg Map.empty"

definition load_scripters :: "('d, 's) registries \<Rightarrow> (string \<times> string option \<times> toml) list \<Rightarrow> (string \<Rightarrow> 's option) result" where
  "load_scripters rg cfg = load_plugins (rg_scripters rg) cfg Map.empty"

text \<open>A component that is named must exist; the empty name asks for none.\<close>

definition named :: "(string \<Rightarrow> 'p option) \<Rightarrow> string \<Rightarrow> 'p option option" where
  "named m name = (if name = [] then Some None else case m name of None \<Rightarrow> None | Some p \<Rightarrow> Some (Some p))"

fun load_services ::
  "('d, 's) registries \<Rightarrow> (string \<Rightarrow> 'd option) \<Rightarrow> (string \<Rightarrow> 's option) \<Rightarrow> (string \<times> service_config option \<times> toml) list
   \<Rightarrow> (string \<Rightarrow> ServiceMap option) \<Rightarrow> (string \<Rightarrow> ServiceMap option)" where
  "load_services rg directors scripters [] m = m"
| "load_services rg directors scripters ((key, None, s) # xs) m = load_services rg directors scripters xs m"
| "load_services rg directors scripters ((key, Some x, s) # xs) m =
     load_services rg directors scripters xs
       (if sc_Port x \<noteq> [] then m
        else case named directors (sc_Director x) of
          None \<Rightarrow> m
        | Some d \<Rightarrow>
            (case named scripters (sc_Scripter x) of
               None \<Rightarrow> m
             | Some scr \<Rightarrow>
                 (case rg_services rg (sc_Type x) of
                    None \<Rightarrow> m
                  | Some fn \<Rightarrow> m(key \<mapsto> \<lparr>sm_Name = key, sm_Type = sc_Type x, sm_CanHandle = fn s d scr\<rparr>))))"

record honeytrap_config =
  cf_Channels :: "(string \<times> string option \<times> toml) list"
  cf_Filters :: "filter_config option list"
  cf_Directors :: "(string \<times> string option \<times> toml) list"
  cf_Scripters :: "(string \<times> string option \<times> toml) list"
  cf_Listener :: "string option"
  cf_Services :: "(string \<times> service_config option \<times> toml) list"
  cf_Ports :: "port_config option list"

text \<open>
  \<^verbatim>\<open>Run\<close> up to the start of the listener. \<open>Error\<close> is an end of the program or of \<^verbatim>\<open>Run\<close>. A listener
  constructor says whether the listener takes addresses; \<open>rg_web\<close> is the bus after the web interface has
  subscribed to it.
\<close>

definition run_setup ::
  "('d, 's) registries \<Rightarrow> (string \<Rightarrow> string \<Rightarrow> bool) \<Rightarrow> string \<Rightarrow> honeytrap_config \<Rightarrow> Honeytrap result" where
  "run_setup rg matches token cfg =
     bindR (load_channels rg (cf_Channels cfg)) (\<lambda>channels.
     let bus = subscribe_filters matches token channels (List.map_filter id (cf_Filters cfg)) (rg_web rg) in
     bindR (load_directors rg (cf_Directors cfg)) (\<lambda>directors.
     bindR (load_scripters rg (cf_Scripters cfg)) (\<lambda>scripters.
     case cf_Listener cfg of
       None \<Rightarrow> Inl (Error ''Error parsing configuration of listener'')
     | Some ty \<Rightarrow>
         let serviceList = load_services rg directors scripters (cf_Services cfg) Map.empty in
         (case rg_listeners rg ty of
            None \<Rightarrow> Inl (Error ''Listener not support on platform'')
          | Some fn \<Rightarrow> bindR (fn bus) (\<lambda>addresser.
              Inr (configure_ports serviceList addresser (cf_Ports cfg)
                \<lparr>hc_bus = bus, hc_tcpPorts = Map.empty, hc_udpPorts = Map.empty,
                 hc_used = (\<lambda>n. map_option (\<lambda>_. False) (serviceList n)), hc_addresses = []\<rparr>))))))"

section \<open>A connection finds its service\<close>

record net_conn =
  nc_Local :: net_addr
  nc_Remote :: net_addr
  nc_stream :: stream

datatype server_conn = PlainConn stream | PeekedConn PeekConn

fun sc_content :: "server_conn \<Rightarrow> bytes" where
  "sc_content (PlainConn c) = concat c"
| "sc_content (PeekedConn pc) = pc_content pc"

text \<open>
  The loop over the candidates. \<open>conn\<close> is the connection itself: once it has been peeked, its next
  bytes are those behind the peeked ones. \<open>peeked\<close> is the peeked connection and its data.
\<close>

fun find_loop :: "ServiceMap option list \<Rightarrow> stream \<Rightarrow> (PeekConn \<times> bytes) option \<Rightarrow> (ServiceMap \<times> server_conn) result" where
  "find_loop [] conn peeked = Inl (Error ''No suitable service for the given port'')"
| "find_loop (None # ss) conn peeked = Inl (Panic NilDereference)"
| "find_loop (Some sm # ss) conn peeked =
     (case sm_CanHandle sm of
        None \<Rightarrow> Inr (sm, PlainConn (case peeked of None \<Rightarrow> conn | Some (pc, data) \<Rightarrow> pc_conn pc))
      | Some ch \<Rightarrow>
          (case (case peeked of
                   Some p \<Rightarrow> Some p
                 | None \<Rightarrow> (case pc_Peek (PeekConnection conn) 1024 of
                              (None, pc) \<Rightarrow> None | (Some data, pc) \<Rightarrow> Some (pc, data))) of
             None \<Rightarrow> Inl (Error ''could not peek bytes'')
           | Some (pc, data) \<Rightarrow>
               if ch data then Inr (sm, PeekedConn pc) else find_loop ss conn (Some (pc, data))))"

definition findService :: "Honeytrap \<Rightarrow> net_conn \<Rightarrow> (ServiceMap option \<times> server_conn) result" where
  "findService hc conn =
     (let candidates = (case nc_Local conn of
            TCPAddr ip port \<Rightarrow> (case hc_tcpPorts hc port of None \<Rightarrow> Inl (Error ''no services for the given port'') | Some ss \<Rightarrow> Inr ss)
          | UDPAddr ip port \<Rightarrow> (case hc_udpPorts hc port of None \<Rightarrow> Inl (Error ''no services for the given port'') | Some ss \<Rightarrow> Inr ss)
          | OtherAddr t \<Rightarrow> Inl (Error (''unknown address type '' @ t)))
      in bindR candidates (\<lambda>ss.
           if length ss = 1 then Inr (ss ! 0, PlainConn (nc_stream conn))
           else bindR (find_loop ss (nc_stream conn) None) (\<lambda>(sm, c). Inr (Some sm, c))))"

text \<open>
  \<^verbatim>\<open>handle\<close>: what it does, in order. A panic, also one of the service, is reported on the bus;
  the connection is closed in every case. With no service and no error, the message of the
  missing error is asked for, which panics.
\<close>

datatype handle_effect = Served ServiceMap server_conn | Reported event | ConnClosed

definition panic_event :: "int \<Rightarrow> string \<Rightarrow> (panic \<Rightarrow> string) \<Rightarrow> net_conn \<Rightarrow> panic \<Rightarrow> event" where
  "panic_event now stack message conn p =
     ev_New now [ev_Type ''fatal'', ev_SourceAddr (nc_Remote conn), ev_DestinationAddr (nc_Local conn), ev_Stack stack, ev_Message (message p)]"

definition handle ::
  "Honeytrap \<Rightarrow> (ServiceMap \<Rightarrow> server_conn \<Rightarrow> unit result) \<Rightarrow> int \<Rightarrow> string \<Rightarrow> (panic \<Rightarrow> string) \<Rightarrow> net_conn \<Rightarrow> handle_effect list" where
  "handle hc serve now stack message conn =
     (let report = (\<lambda>p. Reported (panic_event now stack message conn p)) in
      (case findService hc conn of
         Inl (Panic p) \<Rightarrow> [report p]
       | Inl (Error e) \<Rightarrow> []
       | Inr (None, c) \<Rightarrow> [report NilDereference]
       | Inr (Some sm, c) \<Rightarrow> Served sm c # (case serve sm c of Inl (Panic p) \<Rightarrow> [report p] | _ \<Rightarrow> []))
      @ [ConnClosed])"

definition heartbeat :: "int \<Rightarrow> nat \<Rightarrow> event" where
  "heartbeat now count = ev_New now [ev_Sensor ''honeytrap'', ev_Category ''heartbeat'', ev_Type ''info'', ev_Custom ''sequence'' (VInt (int count))]"

definition EventServiceStarted :: "int \<Rightarrow> string \<Rightarrow> event" where
  "EventServiceStarted now service = ev_New now [ev_Category service, ev_Sensor ''SERVICE'', ev_Type ''SERVICE:STARTED'']"

section \<open>Peeking\<close>

interpretation pk: io_peeker pc_Read pc_content pc_Peek
proof unfold_locales
  fix s n bs s'
  show "pc_Read s n = (Some bs, s') \<Longrightarrow> pc_content s = bs @ pc_content s' \<and> length bs \<le> n"
    using conn_Read_concat [of "pc_conn s" n] by (auto simp: pc_Read_def pc_content_def split: if_splits prod.splits)
  show "pc_Read s n = (None, s') \<Longrightarrow> pc_content s' = pc_content s"
    using conn.read_none [of "pc_conn s" n] by (auto simp: pc_Read_def pc_content_def split: if_splits prod.splits)
  show "pc_Peek s n = (Some bs, s') \<Longrightarrow> pc_content s' = pc_content s \<and> length bs \<le> n"
    using conn_Read_concat [of "pc_conn s" n] by (auto simp: pc_Peek_def pc_content_def split: prod.splits option.splits)
  show "pc_Peek s n = (None, s') \<Longrightarrow> pc_content s' = pc_content s"
    using conn.read_none [of "pc_conn s" n] by (auto simp: pc_Peek_def pc_content_def split: prod.splits option.splits)
qed

section \<open>Dispatch\<close>

text \<open>The reference: the first candidate that accepts the data.\<close>

definition accepts :: "bytes \<Rightarrow> ServiceMap \<Rightarrow> bool" where
  "accepts data sm = (case sm_CanHandle sm of None \<Rightarrow> True | Some ch \<Rightarrow> ch data)"

lemma find_loop_peeked:
  "find_loop (map Some ss) conn (Some (pc, data)) =
     (case find (accepts data) ss of
        None \<Rightarrow> Inl (Error ''No suitable service for the given port'')
      | Some sm \<Rightarrow> Inr (sm, if sm_CanHandle sm = None then PlainConn (pc_conn pc) else PeekedConn pc))"
  by (induction ss) (auto simp: accepts_def split: option.splits)

lemma find_loop_first:
  assumes "sm_CanHandle sm = Some ch" "pc_Peek (PeekConnection conn) 1024 = (Some data, pc)"
  shows "find_loop (map Some (sm # ss)) conn None = find_loop (map Some (sm # ss)) conn (Some (pc, data))"
  using assms by simp

lemma find_loop_reads:
  assumes "conn = x # xs" "sm_CanHandle (hd ss) \<noteq> None" "ss \<noteq> []"
  shows "\<exists>pc. find_loop (map Some ss) conn None = find_loop (map Some ss) conn (Some (pc, take 1024 x)) \<and>
    pc_content pc = concat conn \<and> concat conn = take 1024 x @ concat (pc_conn pc)"
proof -
  obtain data pc where p: "pc_Peek (PeekConnection conn) 1024 = (Some data, pc)" "data = take 1024 x"
    "concat conn = take 1024 x @ concat (pc_conn pc)"
    using assms(1) by (simp add: pc_Peek_def PeekConnection_def conn_Read_def)
  have "pc_content pc = concat conn"
    using pk.peek_some [OF p(1)] by (simp add: pc_content_def PeekConnection_def)
  moreover obtain sm rest ch where "ss = sm # rest" "sm_CanHandle sm = Some ch" using assms(2,3) by (cases ss) auto
  ultimately show ?thesis using p find_loop_first [of sm ch conn data pc rest] by auto
qed

lemma findService_candidates:
  assumes "nc_Local conn = TCPAddr ip port \<and> hc_tcpPorts hc port = Some (map Some ss) \<or>
      nc_Local conn = UDPAddr ip port \<and> hc_udpPorts hc port = Some (map Some ss)" "length ss \<noteq> 1"
  shows "findService hc conn = bindR (find_loop (map Some ss) (nc_stream conn) None) (\<lambda>(sm, c). Inr (Some sm, c))"
  using assms by (auto simp: findService_def Let_def)

text \<open>
  C7: dispatch picks the first service that accepts the connection. For a port with several services, all
  of them configured, and a client that has sent something, the service is the first in the order of the
  configuration that has no \<^verbatim>\<open>CanHandle\<close> or whose \<^verbatim>\<open>CanHandle\<close> accepts the first read of up
  to 1024 bytes, and if there is none the connection is refused. A service with \<^verbatim>\<open>CanHandle\<close>,
  or one that is first in the list, then reads everything the client has sent, from the first byte on.
\<close>

theorem findService_first_match:
  assumes "nc_Local conn = TCPAddr ip port \<and> hc_tcpPorts hc port = Some (map Some ss) \<or>
      nc_Local conn = UDPAddr ip port \<and> hc_udpPorts hc port = Some (map Some ss)"
    and "length ss \<noteq> 1" "ss \<noteq> []" "nc_stream conn = x # xs"
  shows "case find (accepts (take 1024 x)) ss of
      None \<Rightarrow> findService hc conn = Inl (Error ''No suitable service for the given port'')
    | Some sm \<Rightarrow> (\<exists>c. findService hc conn = Inr (Some sm, c) \<and>
        (sm_CanHandle sm \<noteq> None \<or> sm = hd ss \<longrightarrow> sc_content c = concat (nc_stream conn)))"
proof (cases "sm_CanHandle (hd ss)")
  case None
  then show ?thesis
    using assms findService_candidates [OF assms(1,2)] by (cases ss) (auto simp: accepts_def)
next
  case (Some ch)
  then obtain pc where "find_loop (map Some ss) (nc_stream conn) None = find_loop (map Some ss) (nc_stream conn) (Some (pc, take 1024 x))"
      "pc_content pc = concat (nc_stream conn)"
    using find_loop_reads [OF assms(4) _ assms(3)] by auto
  then show ?thesis
    using Some findService_candidates [OF assms(1,2)] by (auto simp: find_loop_peeked split: option.split)
qed

text \<open>
  A service without \<^verbatim>\<open>CanHandle\<close> behind one with it loses the peeked data. When the first service of a port
  has a \<^verbatim>\<open>CanHandle\<close> and the connection goes to a later one without, that service gets the bare
  connection, from which the peeked bytes are gone: it reads what the client sent after them.
\<close>

theorem findService_loses_peeked:
  assumes "nc_Local conn = TCPAddr ip port \<and> hc_tcpPorts hc port = Some (map Some ss) \<or>
      nc_Local conn = UDPAddr ip port \<and> hc_udpPorts hc port = Some (map Some ss)"
    and "length ss \<noteq> 1" "ss \<noteq> []" "nc_stream conn = x # xs" "sm_CanHandle (hd ss) \<noteq> None"
    and "find (accepts (take 1024 x)) ss = Some sm" "sm_CanHandle sm = None"
  shows "\<exists>c. findService hc conn = Inr (Some sm, c) \<and> concat (nc_stream conn) = take 1024 x @ sc_content c"
proof -
  obtain pc where "find_loop (map Some ss) (nc_stream conn) None = find_loop (map Some ss) (nc_stream conn) (Some (pc, take 1024 x))"
      "concat (nc_stream conn) = take 1024 x @ concat (pc_conn pc)"
    using find_loop_reads [OF assms(4,5,3)] by blast
  then show ?thesis using assms(6,7) findService_candidates [OF assms(1,2)] by (simp add: find_loop_peeked)
qed

section \<open>Ports\<close>

text \<open>
  The definitions a configuration makes, in order: address, protocol, port and service pointers of every port
  string that can be parsed.
\<close>

definition port_defs ::
  "(string \<Rightarrow> ServiceMap option) \<Rightarrow> port_config option list \<Rightarrow> (net_addr \<times> string \<times> int \<times> ServiceMap option list) list" where
  "port_defs serviceList cfgs =
     concat (map (\<lambda>y. case y of None \<Rightarrow> [] | Some x \<Rightarrow>
       concat (map (\<lambda>p. case ToAddr p of
           Inl e \<Rightarrow> [] | Inr (addr, proto, port) \<Rightarrow> [(addr, proto, port, map serviceList (pt_Services x))]) (port_strings x))) cfgs)"

definition defs_of :: "string \<Rightarrow> (net_addr \<times> string \<times> int \<times> 'a) list \<Rightarrow> (int \<times> 'a) list" where
  "defs_of proto ds = List.map_filter (\<lambda>(addr, p, port, x). if p = proto then Some (port, x) else None) ds"

lemma ToAddr_cases:
  "ToAddr p = Inr (addr, proto, port) \<Longrightarrow> proto = ''tcp'' \<and> addr = TCPAddr [] port \<or> proto = ''udp'' \<and> addr = UDPAddr [] port"
  by (auto simp: ToAddr_def split: list.splits parsed.splits if_splits)

lemma defs_of_simps [simp]:
  "defs_of proto [] = []" "defs_of proto (xs @ ys) = defs_of proto xs @ defs_of proto ys"
  "defs_of proto ((addr, p, port, x) # ds) = (if p = proto then (port, x) # defs_of proto ds else defs_of proto ds)"
  by (simp_all add: defs_of_def map_filter_simps map_filter_def)

text \<open>What holds of the tables while the definitions \<open>ds\<close> have been read.\<close>

definition ports_inv :: "bool \<Rightarrow> (net_addr \<times> string \<times> int \<times> ServiceMap option list) list \<Rightarrow> Honeytrap \<Rightarrow> bool" where
  "ports_inv addresser ds hc \<longleftrightarrow>
     hc_tcpPorts hc = map_of (defs_of ''tcp'' ds) \<and> hc_udpPorts hc = map_of (defs_of ''udp'' ds) \<and>
     distinct (hc_addresses hc) \<and>
     set (hc_addresses hc) = (if addresser then TCPAddr [] ` dom (hc_tcpPorts hc) \<union> UDPAddr [] ` dom (hc_udpPorts hc) else {})"

lemma single_map_add: "[k \<mapsto> v] ++ m = (if m k = None then m(k \<mapsto> v) else m)"
  by (auto simp: map_add_def fun_eq_iff split: option.splits)

lemma add_port_inv:
  assumes "ports_inv addresser ds hc"
  shows "ports_inv addresser (ds @ (case ToAddr p of
      Inl e \<Rightarrow> [] | Inr (addr, proto, port) \<Rightarrow> [(addr, proto, port, map serviceList (pt_Services x))]))
    (add_port serviceList addresser x p hc)"
proof (cases "ToAddr p")
  case (Inl e)
  then show ?thesis using assms by (simp add: add_port_def)
next
  case (Inr r)
  obtain addr proto port where r: "ToAddr p = Inr (addr, proto, port)" using Inr by (cases r) simp
  then have a: "proto = ''tcp'' \<and> addr = TCPAddr [] port \<or> proto = ''udp'' \<and> addr = UDPAddr [] port"
    by (rule ToAddr_cases)
  let ?ptrs = "map serviceList (pt_Services x)"
  let ?hc = "add_port serviceList addresser x p hc" and ?ds = "ds @ [(addr, proto, port, ?ptrs)]"
  have inv: "hc_tcpPorts hc = map_of (defs_of ''tcp'' ds)" "hc_udpPorts hc = map_of (defs_of ''udp'' ds)" "distinct (hc_addresses hc)"
    "set (hc_addresses hc) = (if addresser then TCPAddr [] ` dom (hc_tcpPorts hc) \<union> UDPAddr [] ` dom (hc_udpPorts hc) else {})"
    using assms by (simp_all add: ports_inv_def)
  from a consider (tcp) "proto = ''tcp''" "addr = TCPAddr [] port" | (udp) "proto = ''udp''" "addr = UDPAddr [] port" by blast
  then have "ports_inv addresser ?ds ?hc"
  proof cases
    case tcp
    show ?thesis
    proof (cases "hc_tcpPorts hc port")
      case None
      then have "TCPAddr [] port \<notin> set (hc_addresses hc)" using inv(4) by auto
      then show ?thesis
        using None inv r tcp by (cases addresser) (simp_all add: ports_inv_def add_port_def single_map_add)
    next
      case (Some ss)
      then show ?thesis using inv r tcp by (simp add: ports_inv_def add_port_def single_map_add)
    qed
  next
    case udp
    show ?thesis
    proof (cases "hc_udpPorts hc port")
      case None
      then have "UDPAddr [] port \<notin> set (hc_addresses hc)" using inv(4) by auto
      then show ?thesis
        using None inv r udp by (cases addresser) (simp_all add: ports_inv_def add_port_def single_map_add)
    next
      case (Some ss)
      then show ?thesis using inv r udp by (simp add: ports_inv_def add_port_def single_map_add)
    qed
  qed
  then show ?thesis using r by simp
qed

lemma add_ports_inv:
  "ports_inv addresser ds hc \<Longrightarrow>
   ports_inv addresser (ds @ concat (map (\<lambda>p. case ToAddr p of
      Inl e \<Rightarrow> [] | Inr (addr, proto, port) \<Rightarrow> [(addr, proto, port, map serviceList (pt_Services x))]) ps))
    (fold (add_port serviceList addresser x) ps hc)"
proof (induction ps arbitrary: ds hc)
  case (Cons p ps)
  then show ?case using Cons.IH [OF add_port_inv [where p = p and serviceList = serviceList and x = x, OF Cons.prems]] by simp
qed simp

lemma configure_ports_inv:
  "ports_inv addresser ds hc \<Longrightarrow> ports_inv addresser (ds @ port_defs serviceList cfgs) (configure_ports serviceList addresser cfgs hc)"
proof (induction cfgs arbitrary: ds hc)
  case (Cons y cfgs)
  show ?case
  proof (cases y)
    case None
    then show ?thesis using Cons by (simp add: port_defs_def)
  next
    case (Some x)
    show ?thesis
    proof (cases "pt_Port x = [] \<and> pt_Ports x = None")
      case True
      then show ?thesis using Cons Some by (simp add: port_defs_def port_strings_def)
    next
      case False
      then show ?thesis
        using Cons.IH [OF add_ports_inv [where serviceList = serviceList and x = x and ps = "port_strings x", OF Cons.prems]] Some
        by (simp only: configure_ports.simps) (simp add: port_defs_def)
    qed
  qed
qed (simp add: port_defs_def)

definition no_ports :: "Honeytrap \<Rightarrow> bool" where
  "no_ports hc \<longleftrightarrow> hc_tcpPorts hc = Map.empty \<and> hc_udpPorts hc = Map.empty \<and> hc_addresses hc = []"

lemma no_ports_inv: "no_ports hc \<Longrightarrow> ports_inv addresser [] hc"
  by (simp add: no_ports_def ports_inv_def)

text \<open>
  The first definition of a port wins. After the port configuration is read, a TCP or UDP port is served by the
  services of the first entry that defines it and by nothing else, TCP and UDP ports do not interfere, and
  the listener is asked to listen once on each configured address and on no other.
\<close>

theorem ports_first_wins:
  assumes "no_ports hc0" "hc = configure_ports serviceList addresser cfgs hc0"
  shows "hc_tcpPorts hc port = map_of (defs_of ''tcp'' (port_defs serviceList cfgs)) port \<and>
    hc_udpPorts hc port = map_of (defs_of ''udp'' (port_defs serviceList cfgs)) port \<and> distinct (hc_addresses hc) \<and>
    set (hc_addresses hc) = (if addresser then TCPAddr [] ` dom (hc_tcpPorts hc) \<union> UDPAddr [] ` dom (hc_udpPorts hc) else {})"
  using configure_ports_inv [OF no_ports_inv [OF assms(1)], of addresser serviceList cfgs] assms(2) by (simp add: ports_inv_def)

section \<open>Handling\<close>


text \<open>
  A port with an unknown service panics on every connection. The configuration accepts a port whose only service is
  not configured (it logs an error and stores a nil pointer). A connection to that port is then
  reported as a fatal nil dereference instead of being refused.
\<close>

theorem unknown_service_panics:
  assumes "no_ports hc0" "hc = configure_ports serviceList addresser (Some x # cfgs) hc0"
    and "pt_Ports x = None" "ToAddr (pt_Port x) = Inr (addr, ''tcp'', port)" "pt_Services x = [name]" "serviceList name = None"
    and "nc_Local conn = TCPAddr ip port"
  shows "handle hc serve now stack message conn = [Reported (panic_event now stack message conn NilDereference), ConnClosed]"
proof -
  have "pt_Port x \<noteq> []" using assms(4) by (auto simp: ToAddr_def)
  then have "port_defs serviceList (Some x # cfgs) = (addr, ''tcp'', port, [None]) # port_defs serviceList cfgs"
    using assms(3-6) by (simp add: port_defs_def port_strings_def)
  then have "hc_tcpPorts hc port = Some [None]"
    using configure_ports_inv [OF no_ports_inv [OF assms(1)], of addresser serviceList "Some x # cfgs"] assms(2)
    by (simp add: ports_inv_def)
  then show ?thesis using assms(7) by (simp add: handle_def findService_def Let_def)
qed

section \<open>The configured server\<close>

lemma find_loop_mem: "find_loop ss conn peeked = Inr (sm, c) \<Longrightarrow> Some sm \<in> set ss"
  by (induction ss conn peeked rule: find_loop.induct) (auto split: option.splits prod.splits if_splits)

lemma findService_mem:
  assumes "findService hc conn = Inr (Some sm, c)"
  obtains ip port ss where "nc_Local conn = TCPAddr ip port" "hc_tcpPorts hc port = Some ss" "Some sm \<in> set ss"
  | ip port ss where "nc_Local conn = UDPAddr ip port" "hc_udpPorts hc port = Some ss" "Some sm \<in> set ss"
proof -
  have mem: "Some sm \<in> set ss"
    if "(if length ss = 1 then Inr (ss ! 0, PlainConn (nc_stream conn))
         else bindR (find_loop ss (nc_stream conn) None) (\<lambda>(sm, c). Inr (Some sm, c))) = Inr (Some sm, c)" for ss
    using that find_loop_mem [of ss "nc_stream conn" None sm c]
    by (cases ss) (auto simp: bindR_Inr_iff split: if_splits)
  show thesis
    using assms that mem
    by (cases "nc_Local conn") (auto simp: findService_def Let_def bindR_Inr_iff split: option.splits)
qed

lemma load_services_mem:
  "load_services rg directors scripters xs m name = Some sm \<Longrightarrow>
   m name = Some sm \<or> (\<exists>sc s. (name, Some sc, s) \<in> set xs \<and> sm_Name sm = name \<and> sc_Type sc = sm_Type sm \<and> sc_Port sc = [])"
proof (induction xs arbitrary: m)
  case (Cons x xs)
  obtain key y s where x: "x = (key, y, s)" by (cases x) auto
  show ?case
  proof (cases y)
    case None
    then show ?thesis using Cons x by fastforce
  next
    case (Some sc)
    then obtain m' where "load_services rg directors scripters xs m' name = Some sm"
      "m' = m \<or> sc_Port sc = [] \<and> (\<exists>ch. m' = m(key \<mapsto> \<lparr>sm_Name = key, sm_Type = sc_Type sc, sm_CanHandle = ch\<rparr>))"
      using Cons.prems x by (auto split: if_splits option.splits)
    then show ?thesis using Cons.IH [of m'] x Some by (fastforce split: if_splits)
  qed
qed simp

lemma port_defs_mem:
  assumes "map_of (defs_of proto (port_defs serviceList cfgs)) port = Some ss"
  shows "\<exists>x p addr. Some x \<in> set cfgs \<and> p \<in> set (port_strings x) \<and> ToAddr p = Inr (addr, proto, port) \<and>
    ss = map serviceList (pt_Services x)"
proof -
  have "(port, ss) \<in> set (defs_of proto (port_defs serviceList cfgs))" using assms by (rule map_of_SomeD)
  then obtain addr where "(addr, proto, port, ss) \<in> set (port_defs serviceList cfgs)"
    by (auto simp: defs_of_def map_filter_def split: if_splits)
  then obtain x p where "Some x \<in> set cfgs" "p \<in> set (port_strings x)"
    "(addr, proto, port, ss) \<in> set (case ToAddr p of Inl e \<Rightarrow> [] | Inr (addr, proto, port) \<Rightarrow> [(addr, proto, port, map serviceList (pt_Services x))])"
    by (auto simp: port_defs_def split: option.splits)
  then show ?thesis by (cases "ToAddr p") auto
qed

lemma run_setup_Inr:
  assumes "run_setup rg matches token cfg = Inr hc"
  obtains directors scripters addresser hc0 where "no_ports hc0"
    "hc = configure_ports (load_services rg directors scripters (cf_Services cfg) Map.empty) addresser (cf_Ports cfg) hc0"
proof -
  obtain ty fn where "cf_Listener cfg = Some ty" "rg_listeners rg ty = Some fn"
    using assms by (cases "cf_Listener cfg"; cases "rg_listeners rg (the (cf_Listener cfg))")
      (auto simp: run_setup_def Let_def bindR_Inr_iff)
  then obtain directors scripters addresser bus used where
    hc: "hc = configure_ports (load_services rg directors scripters (cf_Services cfg) Map.empty) addresser (cf_Ports cfg)
      \<lparr>hc_bus = bus, hc_tcpPorts = Map.empty, hc_udpPorts = Map.empty, hc_used = used, hc_addresses = []\<rparr>"
    using assms by (auto simp: run_setup_def Let_def bindR_Inr_iff)
  show ?thesis by (rule that [OF _ hc]) (simp add: no_ports_def)
qed

text \<open>
  C19: only configured services are served. When \<^verbatim>\<open>Run\<close> has set the server up and a connection is given to a service,
  then the configuration has a service entry of that name and type, and a port entry that names the service and
  the port and protocol of the connection.
\<close>

theorem configured_service_served:
  assumes "run_setup rg matches token cfg = Inr hc" "findService hc conn = Inr (Some sm, c)"
  shows "\<exists>x p addr proto port sc s. Some x \<in> set (cf_Ports cfg) \<and> p \<in> set (port_strings x) \<and> ToAddr p = Inr (addr, proto, port) \<and>
    sm_Name sm \<in> set (pt_Services x) \<and> (sm_Name sm, Some sc, s) \<in> set (cf_Services cfg) \<and> sc_Type sc = sm_Type sm \<and>
    (\<exists>ip. nc_Local conn = TCPAddr ip port \<and> proto = ''tcp'' \<or> nc_Local conn = UDPAddr ip port \<and> proto = ''udp'')"
proof -
  obtain directors scripters addresser hc0 where hc: "no_ports hc0"
    "hc = configure_ports (load_services rg directors scripters (cf_Services cfg) Map.empty) addresser (cf_Ports cfg) hc0"
    by (rule run_setup_Inr [OF assms(1)])
  let ?sl = "load_services rg directors scripters (cf_Services cfg) Map.empty"
  have inv: "hc_tcpPorts hc = map_of (defs_of ''tcp'' (port_defs ?sl (cf_Ports cfg)))"
    "hc_udpPorts hc = map_of (defs_of ''udp'' (port_defs ?sl (cf_Ports cfg)))"
    using configure_ports_inv [OF no_ports_inv [OF hc(1)], of addresser ?sl "cf_Ports cfg"] hc(2) by (simp_all add: ports_inv_def)
  obtain proto port ip ss where s: "map_of (defs_of proto (port_defs ?sl (cf_Ports cfg))) port = Some ss" "Some sm \<in> set ss"
    "nc_Local conn = TCPAddr ip port \<and> proto = ''tcp'' \<or> nc_Local conn = UDPAddr ip port \<and> proto = ''udp''"
    by (rule findService_mem [OF assms(2)]) (use inv in auto)
  obtain x p addr where x: "Some x \<in> set (cf_Ports cfg)" "p \<in> set (port_strings x)" "ToAddr p = Inr (addr, proto, port)"
    "ss = map ?sl (pt_Services x)"
    using port_defs_mem [OF s(1)] by blast
  obtain name where name: "name \<in> set (pt_Services x)" "?sl name = Some sm" using s(2) x(4) by auto
  then obtain sc t where "(name, Some sc, t) \<in> set (cf_Services cfg)" "sm_Name sm = name" "sc_Type sc = sm_Type sm"
    using load_services_mem [OF name(2)] by auto
  then show ?thesis using s(3) x(1-3) name(1) by blast
qed

section \<open>Instances\<close>

definition sample_services :: "string \<Rightarrow> ServiceMap option" where
  "sample_services =
     [''http'' \<mapsto> \<lparr>sm_Name = ''http'', sm_Type = ''http'', sm_CanHandle = Some (\<lambda>p. take 3 p = [71, 69, 84])\<rparr>,
      ''echo'' \<mapsto> \<lparr>sm_Name = ''echo'', sm_Type = ''echo'', sm_CanHandle = None\<rparr>]"

definition sample_ports :: "port_config option list" where
  "sample_ports = [Some \<lparr>pt_Port = ''tcp/80'', pt_Ports = None, pt_Services = [''http'', ''echo'']\<rparr>,
     Some \<lparr>pt_Port = ''tcp/81'', pt_Ports = None, pt_Services = [''smtp'']\<rparr>]"

definition empty_server :: Honeytrap where
  "empty_server = \<lparr>hc_bus = [], hc_tcpPorts = Map.empty, hc_udpPorts = Map.empty, hc_used = Map.empty, hc_addresses = []\<rparr>"

definition sample_server :: Honeytrap where
  "sample_server = configure_ports sample_services True sample_ports empty_server"

definition sample_client :: "int \<Rightarrow> bytes \<Rightarrow> net_conn" where
  "sample_client port x = \<lparr>nc_Local = TCPAddr [10, 0, 0, 1] port, nc_Remote = TCPAddr [10, 0, 0, 2] 40000, nc_stream = [x, [1]]\<rparr>"

lemma sample_ToAddr: "ToAddr ''tcp/80'' = Inr (TCPAddr [] 80, ''tcp'', 80)" "ToAddr ''tcp/81'' = Inr (TCPAddr [] 81, ''tcp'', 81)"
  by (simp_all add: ToAddr_def ParseUint_def digit_val_def)

lemma sample_candidates: "hc_tcpPorts sample_server 80 = Some (map Some (map (the \<circ> sample_services) [''http'', ''echo'']))"
  by (simp add: sample_server_def sample_ports_def empty_server_def add_port_def port_strings_def sample_ToAddr sample_services_def)

theorem findService_first_match_witness:
  "\<exists>sm c. findService sample_server (sample_client 80 [71, 69, 84, 32]) = Inr (Some sm, c) \<and> sm_Name sm = ''http'' \<and>
     sc_content c = [71, 69, 84, 32, 1]"
  using findService_first_match [of "sample_client 80 [71, 69, 84, 32]" "[10, 0, 0, 1]" 80 sample_server
      "map (the \<circ> sample_services) [''http'', ''echo'']" "[71, 69, 84, 32]" "[[1]]"] sample_candidates
  by (auto simp: sample_client_def accepts_def sample_services_def)

theorem findService_loses_peeked_witness:
  "\<exists>sm c. findService sample_server (sample_client 80 [80, 79]) = Inr (Some sm, c) \<and> sc_content c = [1]"
  using findService_loses_peeked [of "sample_client 80 [80, 79]" "[10, 0, 0, 1]" 80 sample_server
      "map (the \<circ> sample_services) [''http'', ''echo'']" "[80, 79]" "[[1]]" "the (sample_services ''echo'')"] sample_candidates
  by (auto simp: sample_client_def accepts_def sample_services_def)

theorem ports_first_wins_witness:
  "hc_tcpPorts sample_server 443 = None \<and> distinct (hc_addresses sample_server)"
proof -
  have "no_ports empty_server" by (simp add: no_ports_def empty_server_def)
  then show ?thesis
    using ports_first_wins [of empty_server sample_server sample_services True sample_ports 443]
    by (simp add: sample_server_def sample_ports_def port_defs_def port_strings_def sample_ToAddr)
qed

theorem unknown_service_panics_witness:
  "handle (configure_ports sample_services True (tl sample_ports) empty_server) (\<lambda>sm c. Inr ()) 0 [] (\<lambda>p. []) (sample_client 81 []) =
     [Reported (panic_event 0 [] (\<lambda>p. []) (sample_client 81 []) NilDereference), ConnClosed]"
  using unknown_service_panics [of empty_server _ sample_services True
      "\<lparr>pt_Port = ''tcp/81'', pt_Ports = None, pt_Services = [''smtp'']\<rparr>" "[]" "TCPAddr [] 81" 81 "''smtp''" "sample_client 81 []" "[10, 0, 0, 1]"]
  by (simp add: sample_ports_def no_ports_def empty_server_def sample_ToAddr sample_services_def sample_client_def)

text \<open>A configuration with one echo service on port 7.\<close>

definition sample_registries :: "(unit, unit) registries" where
  "sample_registries = \<lparr>rg_channels = Map.empty, rg_directors = Map.empty, rg_scripters = Map.empty,
     rg_services = [''echo'' \<mapsto> (\<lambda>s d scr. None)], rg_listeners = [''socket'' \<mapsto> (\<lambda>bus. Inr True)], rg_web = []\<rparr>"

definition sample_config :: honeytrap_config where
  "sample_config = \<lparr>cf_Channels = [], cf_Filters = [], cf_Directors = [], cf_Scripters = [], cf_Listener = Some ''socket'',
     cf_Services = [(''echo'', Some \<lparr>sc_Type = ''echo'', sc_Director = [], sc_Scripter = [], sc_Port = []\<rparr>, [])],
     cf_Ports = [Some \<lparr>pt_Port = ''tcp/80'', pt_Ports = None, pt_Services = [''echo'']\<rparr>]\<rparr>"


theorem configured_service_served_witness:
  "\<exists>hc sm c. run_setup sample_registries (\<lambda>rx x. True) [] sample_config = Inr hc \<and>
     findService hc (sample_client 80 [1]) = Inr (Some sm, c) \<and>
     (\<exists>x p addr proto port sc s. Some x \<in> set (cf_Ports sample_config) \<and> p \<in> set (port_strings x) \<and> ToAddr p = Inr (addr, proto, port) \<and>
       sm_Name sm \<in> set (pt_Services x) \<and> (sm_Name sm, Some sc, s) \<in> set (cf_Services sample_config))"
proof -
  obtain hc where hc: "run_setup sample_registries (\<lambda>rx x. True) [] sample_config = Inr hc"
      "hc_tcpPorts hc 80 = Some [Some \<lparr>sm_Name = ''echo'', sm_Type = ''echo'', sm_CanHandle = None\<rparr>]"
    by (simp add: run_setup_def sample_registries_def sample_config_def load_channels_def load_directors_def load_scripters_def
        Let_def named_def add_port_def port_strings_def sample_ToAddr)
  then have f: "findService hc (sample_client 80 [1]) =
      Inr (Some \<lparr>sm_Name = ''echo'', sm_Type = ''echo'', sm_CanHandle = None\<rparr>, PlainConn [[1], [1]])"
    by (simp add: findService_def sample_client_def)
  show ?thesis using configured_service_served [OF hc(1) f] hc(1) f by blast
qed

end
