(* ===== verification/Go_Text.thy ===== *)
theory Go_Text
  imports Go_Strings "HOL-Library.Sublist"
begin

text \<open>
  The functions of Go's \<^verbatim>\<open>strings\<close>, \<^verbatim>\<open>path/filepath\<close> and \<^verbatim>\<open>fmt\<close> packages that the
  text protocols and the file system use. Letter case and white space are those of ASCII, paths are those
  of Unix.
\<close>

section \<open>strings\<close>

definition upper_char :: "char \<Rightarrow> char" where
  "upper_char c = (let n = of_char c :: nat in if 97 \<le> n \<and> n \<le> 122 then char_of (n - 32) else c)"

definition lower_char :: "char \<Rightarrow> char" where
  "lower_char c = (let n = of_char c :: nat in if 65 \<le> n \<and> n \<le> 90 then char_of (n + 32) else c)"

definition ToUpper :: "string \<Rightarrow> string" where
  "ToUpper s = map upper_char s"

definition ToLower :: "string \<Rightarrow> string" where
  "ToLower s = map lower_char s"

definition is_space :: "char \<Rightarrow> bool" where
  "is_space c = (let n = of_char c :: nat in n = 32 \<or> 9 \<le> n \<and> n \<le> 13)"

definition trim :: "(char \<Rightarrow> bool) \<Rightarrow> string \<Rightarrow> string" where
  "trim p s = rev (dropWhile p (rev (dropWhile p s)))"

definition TrimSpace :: "string \<Rightarrow> string" where
  "TrimSpace s = trim is_space s"

definition TrimCRLF :: "string \<Rightarrow> string" where
  "TrimCRLF s = trim (\<lambda>c. c = CHR 0x0D \<or> c = CHR 0x0A) s"

text \<open>\<^verbatim>\<open>SplitN(s, sep, 2)\<close> for a separator of one byte.\<close>

definition split_first :: "char \<Rightarrow> string \<Rightarrow> string list" where
  "split_first c s =
     (if c \<in> set s then [takeWhile (\<lambda>x. x \<noteq> c) s, tl (dropWhile (\<lambda>x. x \<noteq> c) s)] else [s])"

text \<open>\<^verbatim>\<open>Fields\<close>: the maximal runs of characters that are no white space.\<close>

definition Fields :: "string \<Rightarrow> string list" where
  "Fields s = filter (\<lambda>w. w \<noteq> []) (split_on (CHR '' '') (map (\<lambda>c. if is_space c then CHR '' '' else c) s))"

definition HasPrefix :: "string \<Rightarrow> string \<Rightarrow> bool" where
  "HasPrefix s p = (take (length p) s = p)"

fun join_with :: "string \<Rightarrow> string list \<Rightarrow> string" where
  "join_with sep [] = []"
| "join_with sep [x] = x"
| "join_with sep (x # y # xs) = x @ sep @ join_with sep (y # xs)"

text \<open>The position of the last occurrence of a byte, -1 if there is none.\<close>

definition LastIndex :: "char \<Rightarrow> string \<Rightarrow> int" where
  "LastIndex c s = (if c \<in> set s then int (length s) - 1 - int (length (takeWhile (\<lambda>x. x \<noteq> c) (rev s))) else - 1)"

abbreviation CRLF :: string where
  "CRLF \<equiv> [CHR 0x0D, CHR 0x0A]"

text \<open>\<^verbatim>\<open>fmt.Sprintln\<close> of strings.\<close>

definition Sprintln :: "string list \<Rightarrow> string" where
  "Sprintln ss = join_with '' '' ss @ [CHR 0x0A]"

section \<open>path/filepath\<close>

text \<open>
  \<^verbatim>\<open>Clean\<close> drops empty elements and dots, and resolves each \<open>..\<close> against the element before
  it; at the root it is dropped, at the start of a relative path it stays. The stack holds the result
  so far, last element first.
\<close>

definition path_elems :: "string \<Rightarrow> string list" where
  "path_elems p = filter (\<lambda>e. e \<noteq> [] \<and> e \<noteq> ''.'') (split_on (CHR ''/'') p)"

definition IsAbs :: "string \<Rightarrow> bool" where
  "IsAbs p = HasPrefix p ''/''"

fun clean_step :: "bool \<Rightarrow> string list \<Rightarrow> string \<Rightarrow> string list" where
  "clean_step rooted st e =
     (if e = ''..''
      then (case st of [] \<Rightarrow> if rooted then [] else [''..''] | x # xs \<Rightarrow> if x = ''..'' then ''..'' # st else xs)
      else e # st)"

definition clean_elems :: "string \<Rightarrow> string list" where
  "clean_elems p = rev (foldl (clean_step (IsAbs p)) [] (path_elems p))"

definition path_of :: "bool \<Rightarrow> string list \<Rightarrow> string" where
  "path_of rooted es =
     (if rooted then ''/'' @ join_with ''/'' es else if es = [] then ''.'' else join_with ''/'' es)"

definition Clean :: "string \<Rightarrow> string" where
  "Clean p = path_of (IsAbs p) (clean_elems p)"

definition Join :: "string list \<Rightarrow> string" where
  "Join elems = (case dropWhile (\<lambda>e. e = []) elems of [] \<Rightarrow> [] | es \<Rightarrow> Clean (join_with ''/'' es))"

text \<open>\<^verbatim>\<open>Rel\<close>: the elements after the common ones, with a \<open>..\<close> for each that is left in the base.\<close>

fun strip_common :: "string list \<Rightarrow> string list \<Rightarrow> string list \<times> string list" where
  "strip_common (b # bs) (t # ts) = (if b = t then strip_common bs ts else (b # bs, t # ts))"
| "strip_common bs ts = (bs, ts)"

definition Rel :: "string \<Rightarrow> string \<Rightarrow> string result" where
  "Rel base targ =
     (if IsAbs base \<noteq> IsAbs targ then Inl (Error ''Rel: can't make relative'')
      else case strip_common (clean_elems base) (clean_elems targ) of
        (''..'' # bs, ts) \<Rightarrow> Inl (Error ''Rel: can't make relative'')
      | (bs, ts) \<Rightarrow> Inr (path_of False (replicate (length bs) ''..'' @ ts)))"

section \<open>Lemmas\<close>

lemma split_on_append: "split_on c (a @ c # b) = split_on c a @ split_on c b"
  by (induction a) (auto split: list.split)

lemma split_on_no_sep_elem: "e \<in> set (split_on c s) \<Longrightarrow> c \<notin> set e"
proof (induction s arbitrary: e)
  case (Cons x xs)
  then show ?case by (cases "split_on c xs") (auto split: if_splits)
qed simp

definition elem_ok :: "string \<Rightarrow> bool" where
  "elem_ok e \<longleftrightarrow> e \<noteq> [] \<and> e \<noteq> ''.'' \<and> CHR ''/'' \<notin> set e"

lemma path_elems_ok: "e \<in> set (path_elems p) \<Longrightarrow> elem_ok e"
  using split_on_no_sep_elem by (auto simp: path_elems_def elem_ok_def)

lemma path_elems_append: "path_elems (a @ CHR ''/'' # b) = path_elems a @ path_elems b"
  by (simp add: path_elems_def split_on_append)

lemma path_elems_single: "elem_ok e \<Longrightarrow> path_elems e = [e]"
  by (simp add: path_elems_def split_on_no_sep elem_ok_def)

lemma path_elems_join: "list_all elem_ok es \<Longrightarrow> path_elems (join_with ''/'' es) = es"
proof (induction es rule: induct_list012)
  case (2 x)
  then show ?case by (simp add: path_elems_single)
next
  case (3 x y zs)
  then show ?case by (simp add: path_elems_append path_elems_single)
qed (simp add: path_elems_def)

lemma path_elems_path_of: "list_all elem_ok es \<Longrightarrow> path_elems (path_of rooted es) = es"
  using path_elems_append [of "[]" "join_with ''/'' es"] path_elems_join [of es]
  by (simp add: path_of_def path_elems_def)

lemma IsAbs_join: "list_all elem_ok es \<Longrightarrow> \<not> IsAbs (join_with ''/'' es)"
  by (induction es rule: induct_list012) (auto simp: IsAbs_def HasPrefix_def elem_ok_def neq_Nil_conv)

lemma IsAbs_path_of: "list_all elem_ok es \<Longrightarrow> IsAbs (path_of rooted es) = rooted"
  using IsAbs_join [of es] by (auto simp: path_of_def IsAbs_def HasPrefix_def)

lemma IsAbs_append: "a \<noteq> [] \<Longrightarrow> IsAbs (a @ b) = IsAbs a"
  by (cases a) (simp_all add: IsAbs_def HasPrefix_def)

lemma clean_step_ok: "list_all elem_ok st \<Longrightarrow> elem_ok e \<Longrightarrow> list_all elem_ok (clean_step rooted st e)"
  by (auto split: list.splits)

lemma clean_foldl_ok:
  "list_all elem_ok st \<Longrightarrow> list_all elem_ok es \<Longrightarrow> list_all elem_ok (foldl (clean_step rooted) st es)"
  by (induction es arbitrary: st) (auto simp del: clean_step.simps simp: clean_step_ok)

lemma clean_elems_ok: "list_all elem_ok (clean_elems p)"
  using clean_foldl_ok [of "[]" "path_elems p" "IsAbs p"] path_elems_ok by (auto simp: clean_elems_def list_all_iff)

lemma clean_step_rooted: "''..'' \<notin> set st \<Longrightarrow> ''..'' \<notin> set (clean_step True st e)"
  by (cases st) auto

lemma clean_foldl_rooted: "''..'' \<notin> set st \<Longrightarrow> ''..'' \<notin> set (foldl (clean_step True) st es)"
  by (induction es arbitrary: st) (simp_all del: clean_step.simps add: clean_step_rooted)

lemma clean_elems_rooted: "IsAbs p \<Longrightarrow> ''..'' \<notin> set (clean_elems p)"
  using clean_foldl_rooted [of "[]" "path_elems p"] by (simp add: clean_elems_def)

lemma clean_foldl_plain: "''..'' \<notin> set es \<Longrightarrow> foldl (clean_step rooted) st es = rev es @ st"
  by (induction es arbitrary: st) auto

lemma clean_elems_append:
  assumes "a \<noteq> []" "''..'' \<notin> set (path_elems b)"
  shows "clean_elems (a @ CHR ''/'' # b) = clean_elems a @ path_elems b"
  using assms by (simp add: clean_elems_def path_elems_append IsAbs_append clean_foldl_plain)

lemma Clean_elems: "path_elems (Clean p) = clean_elems p" "IsAbs (Clean p) = IsAbs p"
  using clean_elems_ok by (simp_all add: Clean_def path_elems_path_of IsAbs_path_of)

lemma Join2: "a \<noteq> [] \<Longrightarrow> Join [a, b] = Clean (a @ CHR ''/'' # b)"
  by (simp add: Join_def)

lemma strip_common_append: "strip_common bs (bs @ ts) = ([], ts)"
  by (induction bs) (cases ts; simp)+

text \<open>A cleaned path begins with its \<open>..\<close> elements, and cleaning it again changes nothing.\<close>

definition up_form :: "string list \<Rightarrow> bool" where
  "up_form st \<longleftrightarrow> (\<exists>es k. st = es @ replicate k ''..'' \<and> ''..'' \<notin> set es)"

lemma up_form_step: "up_form st \<Longrightarrow> up_form (clean_step False st e)"
proof -
  assume "up_form st"
  then obtain es k where st: "st = es @ replicate k ''..''" "''..'' \<notin> set es" by (auto simp: up_form_def)
  show ?thesis
  proof (cases "e = ''..''")
    case False
    then show ?thesis using st by (auto simp: up_form_def intro: exI [of _ "e # es"])
  next
    case True
    show ?thesis
    proof (cases es)
      case Nil
      then have "clean_step False st e = [] @ replicate (Suc k) ''..''" using True st by (cases k) auto
      then show ?thesis unfolding up_form_def by (metis empty_iff list.set(1))
    next
      case (Cons x xs)
      then have "clean_step False st e = xs @ replicate k ''..''" using True st by auto
      then show ?thesis using st Cons by (auto simp: up_form_def)
    qed
  qed
qed

lemma up_form_foldl: "up_form st \<Longrightarrow> up_form (foldl (clean_step False) st es)"
  by (induction es arbitrary: st) (simp_all del: clean_step.simps add: up_form_step)

lemma clean_foldl_ups: "foldl (clean_step False) (replicate j ''..'') (replicate k ''..'') = replicate (k + j) ''..''"
proof (induction k arbitrary: j)
  case (Suc k)
  have "clean_step False (replicate j ''..'') ''..'' = replicate (Suc j) ''..''" by (cases j) auto
  then show ?case using Suc [of "Suc j"] by simp
qed simp

lemma clean_elems_idem: "clean_elems (Clean p) = clean_elems p"
proof (cases "IsAbs p")
  case True
  then show ?thesis
    using clean_elems_rooted by (simp add: clean_elems_def [of "Clean p"] Clean_elems clean_foldl_plain)
next
  case False
  have "up_form (foldl (clean_step False) [] (path_elems p))"
    by (rule up_form_foldl) (simp add: up_form_def)
  then obtain es k where e: "clean_elems p = replicate k ''..'' @ es" "''..'' \<notin> set es"
    using False by (fastforce simp: up_form_def clean_elems_def)
  have "foldl (clean_step False) [] (replicate k ''..'' @ es) = rev es @ replicate k ''..''"
    using clean_foldl_ups [of 0 k] e(2) by (simp add: clean_foldl_plain)
  then show ?thesis using False e(1) by (simp add: clean_elems_def [of "Clean p"] Clean_elems)
qed

end
