(* ===== verification/Htfs.thy ===== *)
theory Htfs
  imports Go_Text
begin

text \<open>
  The sandboxed file system of the services (\<^verbatim>\<open>services/filesystem\<close>): a root directory of the host and
  a current directory below it. The calls of the operating system are parameters. What clients
  of the file system rely on is the locale \<open>file_system\<close>.
\<close>

section \<open>Htfs\<close>

record file_info =
  fi_Name :: string
  fi_Size :: int
  fi_IsDir :: bool
  fi_Mode :: string
  fi_ModTime :: int

record Htfs =
  fs_root :: string
  fs_cwd :: string

definition RealPath :: "Htfs \<Rightarrow> string \<Rightarrow> string" where
  "RealPath f path =
     (let abspath = (if \<not> IsAbs path then Join [fs_cwd f, path] else Clean path) in Join [fs_root f, abspath])"

definition Cwd :: "Htfs \<Rightarrow> string" where
  "Cwd f = fs_cwd f"

definition ChangeDir :: "(string \<Rightarrow> file_info result) \<Rightarrow> Htfs \<Rightarrow> string \<Rightarrow> Htfs result" where
  "ChangeDir lstat f path =
     (let rpath = RealPath f path in
      bindR (lstat rpath) (\<lambda>d.
        if fi_IsDir d then bindR (Rel (fs_root f) rpath) (\<lambda>rel. Inr (f\<lparr>fs_cwd := Join [''/'', rel]\<rparr>))
        else Inl (Error (''Not a directory: '' @ path))))"

text \<open>
  What \<^verbatim>\<open>New\<close> asks the system: the directory of the executable, fifteen random hexadecimal digits, to
  create directories, and whether a path exists.
\<close>

record new_calls =
  nw_exe_dir :: "string result"
  nw_unique :: "string result"
  nw_MkdirAll :: "string \<Rightarrow> unit result"
  nw_exists :: "string \<Rightarrow> bool"

definition makeRoot :: "new_calls \<Rightarrow> string \<Rightarrow> string result" where
  "makeRoot os base =
     bindR (nw_unique os) (\<lambda>u. let realpath = Join [base, u] in bindR (nw_MkdirAll os realpath) (\<lambda>_. Inr realpath))"

definition htfs_New :: "new_calls \<Rightarrow> string \<Rightarrow> string \<Rightarrow> string \<Rightarrow> Htfs result" where
  "htfs_New os base serviceName serviceRoot =
     (if serviceName = [] then Inl (Error ''New: No service name'')
      else bindR (if Clean base = ''.'' then nw_exe_dir os else Inr base) (\<lambda>base.
        bindR (if serviceRoot = [] then makeRoot os (Join [base, serviceName])
               else Inr (Join [base, serviceName, serviceRoot])) (\<lambda>root.
          if \<not> nw_exists os root then Inl (Error (''Bad root path: '' @ root))
          else Inr \<lparr>fs_root = root, fs_cwd = ''/''\<rparr>)))"

section \<open>Confinement\<close>

text \<open>
  A path is inside a root if its elements are those of the root, resolved, followed by elements none of
  which leads upwards.
\<close>

definition inside :: "string \<Rightarrow> string \<Rightarrow> bool" where
  "inside root p \<longleftrightarrow> IsAbs p = IsAbs root \<and> take (length (clean_elems root)) (path_elems p) = clean_elems root \<and>
     ''..'' \<notin> set (drop (length (clean_elems root)) (path_elems p))"

text \<open>The interface: paths are confined to the root, and changing the directory keeps it that way.\<close>

locale file_system =
  fixes realpath :: "'f \<Rightarrow> string \<Rightarrow> string" and chdir :: "'f \<Rightarrow> string \<Rightarrow> 'f result"
    and rootdir :: "'f \<Rightarrow> string" and fs_inv :: "'f \<Rightarrow> bool"
  assumes confined: "fs_inv f \<Longrightarrow> inside (rootdir f) (realpath f p)"
    and chdir_inv: "fs_inv f \<Longrightarrow> chdir f p = Inr f' \<Longrightarrow> fs_inv f' \<and> rootdir f' = rootdir f"
    and chdir_dir: "fs_inv f \<Longrightarrow> chdir f p = Inr f' \<Longrightarrow> realpath f' [] = realpath f p"
begin

text \<open>A client that changes directories as it likes; a directory that does not exist is skipped.\<close>

lemma chdirs_inv:
  "fs_inv f \<Longrightarrow> fs_inv (foldl (\<lambda>g d. case chdir g d of Inl e \<Rightarrow> g | Inr h \<Rightarrow> h) f ds) \<and>
   rootdir (foldl (\<lambda>g d. case chdir g d of Inl e \<Rightarrow> g | Inr h \<Rightarrow> h) f ds) = rootdir f"
proof (induction ds arbitrary: f)
  case (Cons d ds)
  then show ?case using chdir_inv [of f d] by (cases "chdir f d") auto
qed simp

lemma chdirs_confined:
  "fs_inv f \<Longrightarrow> inside (rootdir f) (realpath (foldl (\<lambda>g d. case chdir g d of Inl e \<Rightarrow> g | Inr h \<Rightarrow> h) f ds) p)"
  using chdirs_inv [of f ds] confined [of "foldl (\<lambda>g d. case chdir g d of Inl e \<Rightarrow> g | Inr h \<Rightarrow> h) f ds" p] by simp

end

definition htfs_inv :: "Htfs \<Rightarrow> bool" where
  "htfs_inv f \<longleftrightarrow> fs_root f \<noteq> [] \<and> IsAbs (fs_cwd f)"

text \<open>The path of the client below the root, resolved.\<close>

definition below :: "Htfs \<Rightarrow> string \<Rightarrow> string list" where
  "below f path = clean_elems (if IsAbs path then path else fs_cwd f @ CHR ''/'' # path)"

lemma IsAbs_nonempty: "IsAbs p \<Longrightarrow> p \<noteq> []"
  by (auto simp: IsAbs_def HasPrefix_def)

lemma below_plain: "htfs_inv f \<Longrightarrow> ''..'' \<notin> set (below f path) \<and> list_all elem_ok (below f path)"
  using clean_elems_rooted clean_elems_ok IsAbs_nonempty by (auto simp: below_def htfs_inv_def IsAbs_append)

lemma RealPath_Clean:
  assumes "htfs_inv f"
  obtains q where "RealPath f path = Clean q" "clean_elems q = clean_elems (fs_root f) @ below f path" "IsAbs q = IsAbs (fs_root f)"
proof -
  define q where "q = (if IsAbs path then path else fs_cwd f @ CHR ''/'' # path)"
  have "RealPath f path = Clean (fs_root f @ CHR ''/'' # Clean q)"
    using assms IsAbs_nonempty by (auto simp: RealPath_def q_def htfs_inv_def Join2)
  moreover have "path_elems (Clean q) = below f path" by (simp add: Clean_elems below_def q_def)
  then have "clean_elems (fs_root f @ CHR ''/'' # Clean q) = clean_elems (fs_root f) @ below f path"
    using assms below_plain [OF assms, of path] clean_elems_append [of "fs_root f" "Clean q"] by (simp add: htfs_inv_def)
  moreover have "IsAbs (fs_root f @ CHR ''/'' # Clean q) = IsAbs (fs_root f)"
    using assms by (simp add: IsAbs_append htfs_inv_def)
  ultimately show ?thesis by (rule that)
qed

lemma RealPath_below:
  assumes "htfs_inv f"
  shows "RealPath f path = path_of (IsAbs (fs_root f)) (clean_elems (fs_root f) @ below f path)"
proof -
  obtain q where "RealPath f path = Clean q" "clean_elems q = clean_elems (fs_root f) @ below f path" "IsAbs q = IsAbs (fs_root f)"
    by (rule RealPath_Clean [OF assms])
  then show ?thesis by (simp add: Clean_def)
qed

lemma list_all_root: "htfs_inv f \<Longrightarrow> list_all elem_ok (clean_elems (fs_root f) @ below f path)"
  using below_plain clean_elems_ok by simp

lemma RealPath_inside: "htfs_inv f \<Longrightarrow> inside (fs_root f) (RealPath f path)"
  using list_all_root [of f path] below_plain [of f path]
  by (simp add: RealPath_below inside_def path_elems_path_of IsAbs_path_of)

lemma ChangeDir_cwd:
  assumes "htfs_inv f" "ChangeDir lstat f path = Inr f'"
  shows "f' = f\<lparr>fs_cwd := path_of True (below f path)\<rparr>"
proof -
  let ?r = "RealPath f path" and ?es = "below f path"
  have abs: "IsAbs ?r = IsAbs (fs_root f)"
    using list_all_root [OF assms(1)] by (simp add: RealPath_below [OF assms(1)] IsAbs_path_of)
  have el: "clean_elems ?r = clean_elems (fs_root f) @ ?es"
    by (rule RealPath_Clean [OF assms(1), of path]) (simp add: clean_elems_idem)
  have rel: "Rel (fs_root f) ?r = Inr (path_of False ?es)"
    by (simp add: Rel_def abs el strip_common_append)
  have "Join [''/'', path_of False ?es] = path_of True ?es"
  proof -
    have "Join [''/'', path_of False ?es] = Clean (''/'' @ CHR ''/'' # path_of False ?es)" by (simp add: Join2)
    moreover have "clean_elems (''/'' @ CHR ''/'' # path_of False ?es) = clean_elems ''/'' @ ?es"
      using below_plain [OF assms(1), of path] by (subst clean_elems_append) (simp_all add: path_elems_path_of)
    moreover have "clean_elems ''/'' = []" by (simp add: clean_elems_def path_elems_def)
    ultimately show ?thesis by (simp add: Clean_def IsAbs_def HasPrefix_def)
  qed
  then show ?thesis using assms(2) rel by (auto simp: ChangeDir_def Let_def bindR_Inr_iff split: if_splits)
qed

lemma ChangeDir_inv:
  assumes "htfs_inv f" "ChangeDir lstat f path = Inr f'"
  shows "htfs_inv f' \<and> fs_root f' = fs_root f"
  using ChangeDir_cwd [OF assms] assms(1) below_plain [OF assms(1), of path] by (simp add: htfs_inv_def IsAbs_path_of)

lemma ChangeDir_dir:
  assumes "htfs_inv f" "ChangeDir lstat f path = Inr f'"
  shows "below f' sub = (if IsAbs sub then clean_elems sub else rev (foldl (clean_step True) (rev (below f path)) (path_elems sub)))"
proof -
  let ?es = "below f path"
  have plain: "''..'' \<notin> set ?es" "list_all elem_ok ?es" using below_plain [OF assms(1)] by auto
  have abs: "IsAbs (path_of True ?es)" using plain by (simp add: IsAbs_path_of)
  have "below f' sub = clean_elems (if IsAbs sub then sub else path_of True ?es @ CHR ''/'' # sub)"
    by (simp add: ChangeDir_cwd [OF assms] below_def [of "f\<lparr>fs_cwd := path_of True ?es\<rparr>"])
  moreover have "clean_elems (path_of True ?es @ CHR ''/'' # sub) = rev (foldl (clean_step True) (rev ?es) (path_elems sub))"
    using plain abs IsAbs_nonempty [OF abs]
    by (simp add: clean_elems_def path_elems_append path_elems_path_of IsAbs_append clean_foldl_plain)
  ultimately show ?thesis by simp
qed

interpretation ht: file_system RealPath "ChangeDir lstat" fs_root htfs_inv for lstat
proof unfold_locales
  fix f p f'
  show "htfs_inv f \<Longrightarrow> inside (fs_root f) (RealPath f p)" by (rule RealPath_inside)
  show "htfs_inv f \<Longrightarrow> ChangeDir lstat f p = Inr f' \<Longrightarrow> htfs_inv f' \<and> fs_root f' = fs_root f" by (rule ChangeDir_inv)
  show "htfs_inv f \<Longrightarrow> ChangeDir lstat f p = Inr f' \<Longrightarrow> RealPath f' [] = RealPath f p"
    using ChangeDir_inv [of f lstat p f'] ChangeDir_dir [of f lstat p f' "[]"]
    by (simp add: RealPath_below) (simp add: IsAbs_def HasPrefix_def path_elems_def)
qed

lemma Clean_nonempty: "Clean p \<noteq> []"
proof -
  have "list_all elem_ok es \<Longrightarrow> es \<noteq> [] \<Longrightarrow> join_with ''/'' es \<noteq> []" for es
    by (induction es rule: induct_list012) (auto simp: elem_ok_def)
  then show ?thesis using clean_elems_ok [of p] by (simp add: Clean_def path_of_def)
qed

lemma Join_nonempty: "e \<in> set es \<Longrightarrow> e \<noteq> [] \<Longrightarrow> Join es \<noteq> []"
  using Clean_nonempty by (auto simp: Join_def split: list.split)

lemma htfs_New_inv:
  assumes "htfs_New os base name sroot = Inr f"
  shows "htfs_inv f \<and> fs_cwd f = ''/''"
proof -
  have name: "name \<noteq> []" using assms by (auto simp: htfs_New_def)
  obtain b root where "(if sroot = [] then makeRoot os (Join [b, name]) else Inr (Join [b, name, sroot])) = Inr root"
    "(if \<not> nw_exists os root then Inl (Error (''Bad root path: '' @ root)) else Inr \<lparr>fs_root = root, fs_cwd = ''/''\<rparr>) = Inr f"
    using assms name unfolding htfs_New_def by (auto simp: bindR_Inr_iff split del: if_split)
  then show ?thesis
    using name Join_nonempty [of name "[b, name]"] Join_nonempty [of "Join [b, name]" "[Join [b, name], u]" for u]
      Join_nonempty [of name "[b, name, sroot]"]
    by (auto simp: htfs_inv_def makeRoot_def bindR_Inr_iff Let_def IsAbs_def HasPrefix_def split: if_splits)
qed

text \<open>
  The sandbox holds. For a file system that \<^verbatim>\<open>New\<close> has set up, after any sequence of directory changes and for
  any path a client sends, however many \<^verbatim>\<open>..\<close> it has and whether absolute or relative,
  \<^verbatim>\<open>RealPath\<close> is a path inside the root: the elements of the root followed by elements none of which leads
  upwards.
\<close>

theorem htfs_confined:
  assumes "htfs_New os base name sroot = Inr f"
  shows "inside (fs_root f) (RealPath (foldl (\<lambda>g d. case ChangeDir lstat g d of Inl e \<Rightarrow> g | Inr h \<Rightarrow> h) f ds) path)"
  using htfs_New_inv [OF assms] ht.chdirs_confined by blast

text \<open>
  Changing the directory means what it says. When \<^verbatim>\<open>ChangeDir\<close> succeeds, the empty path denotes the
  directory that was asked for, a relative path is resolved from there (with \<^verbatim>\<open>..\<close> stopping at the
  root), absolute paths and the root are as before.
\<close>

theorem htfs_chdir:
  assumes "htfs_inv f" "ChangeDir lstat f dir = Inr f'"
  shows "fs_root f' = fs_root f \<and> RealPath f' [] = RealPath f dir \<and>
    (\<not> IsAbs sub \<longrightarrow> below f' sub = rev (foldl (clean_step True) (rev (below f dir)) (path_elems sub))) \<and>
    (IsAbs sub \<longrightarrow> RealPath f' sub = RealPath f sub)"
proof -
  have "IsAbs sub \<longrightarrow> RealPath f' sub = RealPath f sub"
    using ChangeDir_inv [OF assms] by (simp add: RealPath_def)
  then show ?thesis
    using ht.chdir_inv [OF assms] ht.chdir_dir [OF assms] ChangeDir_dir [OF assms] by simp
qed

definition sample_new :: new_calls where
  "sample_new = \<lparr>nw_exe_dir = Inr ''/opt'', nw_unique = Inr ''u'', nw_MkdirAll = (\<lambda>p. Inr ()), nw_exists = (\<lambda>p. True)\<rparr>"

theorem htfs_confined_witness:
  "\<exists>f. htfs_New sample_new ''/srv'' ''ftp'' ''data'' = Inr f \<and> inside (fs_root f) (RealPath f ''../../etc/passwd'')"
proof -
  obtain f where f: "htfs_New sample_new ''/srv'' ''ftp'' ''data'' = Inr f"
    by (auto simp: htfs_New_def sample_new_def Clean_def path_of_def IsAbs_def HasPrefix_def)
  show ?thesis using htfs_confined [OF f, of "\<lambda>p. Inl (Error [])" "[]" "''../../etc/passwd''"] f by auto
qed

theorem htfs_chdir_witness:
  "\<exists>f'. ChangeDir (\<lambda>p. Inr \<lparr>fi_Name = [], fi_Size = 0, fi_IsDir = True, fi_Mode = [], fi_ModTime = 0\<rparr>)
       \<lparr>fs_root = ''/srv'', fs_cwd = ''/''\<rparr> ''pub'' = Inr f' \<and> RealPath f' [] = RealPath \<lparr>fs_root = ''/srv'', fs_cwd = ''/''\<rparr> ''pub''"
proof -
  let ?f = "\<lparr>fs_root = ''/srv'', fs_cwd = ''/''\<rparr>"
  let ?ls = "\<lambda>p :: string. Inr \<lparr>fi_Name = [], fi_Size = 0, fi_IsDir = True, fi_Mode = [], fi_ModTime = 0\<rparr> :: file_info result"
  have i: "htfs_inv ?f" by (simp add: htfs_inv_def IsAbs_def HasPrefix_def)
  have "Rel (fs_root ?f) (RealPath ?f ''pub'') = Inr ''pub''" by code_simp
  then obtain f' where f': "ChangeDir ?ls ?f ''pub'' = Inr f'" by (simp add: ChangeDir_def)
  show ?thesis using htfs_chdir [OF i f', of "[]"] f' by blast
qed

end
