(* ===== verification/Ftp_Driver.thy ===== *)
theory Ftp_Driver
  imports Htfs Go_Net
begin

text \<open>
  The file driver of the FTP service (\<^verbatim>\<open>services/ftp/ftpfs.go\<close>), its connection
  (\<^verbatim>\<open>conn.go\<close>) and data sockets (\<^verbatim>\<open>socket.go\<close>). The operating system is a function of the calls made so far
  and the next call, so what the driver did is the list of its calls. A command
  either is done, panics, or never returns.
\<close>

section \<open>Calls of the operating system\<close>

datatype os_call =
    Lstat string | OpenDir string | Readdir string | Remove string | Rename string string | Mkdir string
  | Open string | Create string | OpenAppend string | WriteFile string bytes

text \<open>
  The replies. \<open>OsFile\<close> is an opened file: its size, its content, and the error its reading ends with, if
  any.
\<close>

datatype os_reply =
    OsErr string | OsNotExist string | OsInfo file_info | OsList "file_info list" | OsFile int bytes "string option" | OsOk

type_synonym os = "os_call list \<Rightarrow> os_call \<Rightarrow> os_reply"

fun call_paths :: "os_call \<Rightarrow> string list" where
  "call_paths (Lstat p) = [p]"
| "call_paths (OpenDir p) = [p]"
| "call_paths (Readdir p) = [p]"
| "call_paths (Remove p) = [p]"
| "call_paths (Rename p q) = [p, q]"
| "call_paths (Mkdir p) = [p]"
| "call_paths (Open p) = [p]"
| "call_paths (Create p) = [p]"
| "call_paths (OpenAppend p) = [p]"
| "call_paths (WriteFile p bs) = [p]"

fun os_err :: "os_reply \<Rightarrow> string" where
  "os_err (OsErr e) = e"
| "os_err (OsNotExist e) = e"
| "os_err _ = ''unexpected reply''"

fun os_unit :: "os_reply \<Rightarrow> unit result" where
  "os_unit OsOk = Inr ()"
| "os_unit r = Inl (Error (os_err r))"

fun os_info :: "os_reply \<Rightarrow> file_info result" where
  "os_info (OsInfo i) = Inr i"
| "os_info r = Inl (Error (os_err r))"

section \<open>Data sockets\<close>

text \<open>What the client sends through the socket, how its stream ends, and whether writing to it succeeds.\<close>

record data_sock =
  ds_Port :: int
  ds_input :: bytes
  ds_readErr :: "string option"
  ds_writeOk :: bool

section \<open>The driver\<close>

definition fs_Stat :: "os \<Rightarrow> Htfs \<Rightarrow> os_call list \<Rightarrow> string \<Rightarrow> file_info result \<times> os_call list" where
  "fs_Stat os fs tr path = (let c = Lstat (RealPath fs path) in (os_info (os tr c), tr @ [c]))"

text \<open>\<^verbatim>\<open>ChangeDir\<close> calls itself, not the method of the embedded file system.\<close>

partial_function (option) fs_ChangeDir :: "Htfs \<Rightarrow> string \<Rightarrow> Htfs result option" where
  "fs_ChangeDir fs path = fs_ChangeDir fs path"

definition fs_ListDir :: "os \<Rightarrow> Htfs \<Rightarrow> os_call list \<Rightarrow> string \<Rightarrow> file_info list \<times> os_call list" where
  "fs_ListDir os fs tr path =
     (let p = RealPath fs path; tr1 = tr @ [OpenDir p] in
      case os tr (OpenDir p) of
        OsOk \<Rightarrow> (case os tr1 (Readdir p) of OsList fis \<Rightarrow> (fis, tr1 @ [Readdir p]) | _ \<Rightarrow> ([], tr1 @ [Readdir p]))
      | _ \<Rightarrow> ([], tr1))"

definition fs_DeleteDir :: "os \<Rightarrow> Htfs \<Rightarrow> os_call list \<Rightarrow> string \<Rightarrow> unit result \<times> os_call list" where
  "fs_DeleteDir os fs tr path =
     (let p = RealPath fs path; tr1 = tr @ [Lstat p] in
      case os_info (os tr (Lstat p)) of
        Inl e \<Rightarrow> (Inl e, tr1)
      | Inr info \<Rightarrow>
          if \<not> fi_IsDir info then (Inl (Error ''FtpFs: not a directory''), tr1)
          else (os_unit (os tr1 (Remove p)), tr1 @ [Remove p]))"

definition fs_DeleteFile :: "os \<Rightarrow> Htfs \<Rightarrow> os_call list \<Rightarrow> string \<Rightarrow> unit result \<times> os_call list" where
  "fs_DeleteFile os fs tr path = (let c = Remove (RealPath fs path) in (os_unit (os tr c), tr @ [c]))"

definition fs_Rename :: "os \<Rightarrow> Htfs \<Rightarrow> os_call list \<Rightarrow> string \<Rightarrow> string \<Rightarrow> unit result \<times> os_call list" where
  "fs_Rename os fs tr src dst = (let c = Rename (RealPath fs src) (RealPath fs dst) in (os_unit (os tr c), tr @ [c]))"

definition fs_MakeDir :: "os \<Rightarrow> Htfs \<Rightarrow> os_call list \<Rightarrow> string \<Rightarrow> unit result \<times> os_call list" where
  "fs_MakeDir os fs tr path = (let c = Mkdir (RealPath fs path) in (os_unit (os tr c), tr @ [c]))"

text \<open>
  \<^verbatim>\<open>of.Seek(offset, io.SeekEnd)\<close> moves to the end of the file plus the offset; a position before the start
  is an error, which is ignored, and the position stays at the start. The reader has
  what is behind the position.
\<close>

definition seek_end :: "int \<Rightarrow> bytes \<Rightarrow> bytes" where
  "seek_end offset content =
     (if int (length content) + offset < 0 then content else drop (nat (int (length content) + offset)) content)"

definition fs_GetFile :: "os \<Rightarrow> Htfs \<Rightarrow> os_call list \<Rightarrow> string \<Rightarrow> int \<Rightarrow> (int \<times> bytes \<times> string option) result \<times> os_call list" where
  "fs_GetFile os fs tr path offset =
     (let c = Open (RealPath fs path) in
      (case os tr c of
         OsFile sz content err \<Rightarrow> Inr (sz, seek_end offset content, err)
       | r \<Rightarrow> Inl (Error (os_err r)), tr @ [c]))"

text \<open>\<^verbatim>\<open>io.Copy\<close> from the data socket into an opened file. Without a socket the copy panics.\<close>

definition copy_to_file :: "os \<Rightarrow> os_call list \<Rightarrow> string \<Rightarrow> data_sock option \<Rightarrow> int result \<times> os_call list" where
  "copy_to_file os tr p data = (case data of
     None \<Rightarrow> (Inl (Panic NilDereference), tr)
   | Some ds \<Rightarrow>
       (let c = WriteFile p (ds_input ds) in
        (case os tr c of
           OsOk \<Rightarrow> (case ds_readErr ds of None \<Rightarrow> Inr (int (length (ds_input ds))) | Some e \<Rightarrow> Inl (Error e))
         | r \<Rightarrow> Inl (Error (os_err r)), tr @ [c])))"

definition create_and_copy :: "os \<Rightarrow> os_call list \<Rightarrow> string \<Rightarrow> data_sock option \<Rightarrow> int result \<times> os_call list" where
  "create_and_copy os tr p data =
     (case os tr (Create p) of OsOk \<Rightarrow> copy_to_file os (tr @ [Create p]) p data | r \<Rightarrow> (Inl (Error (os_err r)), tr @ [Create p]))"

definition fs_PutFile :: "os \<Rightarrow> Htfs \<Rightarrow> os_call list \<Rightarrow> string \<Rightarrow> data_sock option \<Rightarrow> bool \<Rightarrow> int result \<times> os_call list" where
  "fs_PutFile os fs tr path data appendData =
     (let p = RealPath fs path; tr1 = tr @ [Lstat p] in
      case os tr (Lstat p) of
        OsInfo f \<Rightarrow>
          if fi_IsDir f then (Inl (Error ''A dir has the same name''), tr1)
          else if \<not> appendData
          then (case os tr1 (Remove p) of
                  OsOk \<Rightarrow> create_and_copy os (tr1 @ [Remove p]) p data
                | r \<Rightarrow> (Inl (Error (os_err r)), tr1 @ [Remove p]))
          else (case os tr1 (OpenAppend p) of
                  OsOk \<Rightarrow> copy_to_file os (tr1 @ [OpenAppend p]) p data
                | r \<Rightarrow> (Inl (Error (os_err r)), tr1 @ [OpenAppend p]))
      | OsNotExist e \<Rightarrow> create_and_copy os tr1 p data
      | r \<Rightarrow> (Inl (Error (Sprintln [''Put File error:'', os_err r])), tr1))"

section \<open>The connection\<close>

datatype ftp_out =
    Reply nat string
  | MultiReply nat string
  | DataSent bytes
  | DataClosed
  | CmdLogged string

record ftp_Conn =
  fc_dataConn :: "data_sock option"
  fc_fs :: Htfs
  fc_reqUser :: string
  fc_user :: string
  fc_renameFrom :: string
  fc_lastFilePos :: int
  fc_appendData :: bool
  fc_closed :: bool
  fc_tls :: bool
  fc_tlsConfig :: bool
  fc_featCmds :: string
  fc_trace :: "os_call list"
  fc_out :: "ftp_out list"

datatype ftp_outcome = Done ftp_Conn | Panicked ftp_Conn panic | Diverges ftp_Conn

fun conn_of :: "ftp_outcome \<Rightarrow> ftp_Conn" where
  "conn_of (Done c) = c"
| "conn_of (Panicked c p) = c"
| "conn_of (Diverges c) = c"

text \<open>
  What surrounds the connection: the system, the users, how data connections to the client and listening
  sockets turn out, the configured and local addresses, random numbers, the TLS handshake, and the formats of
  times.
\<close>

record ftp_env =
  fe_os :: os
  fe_users :: "string \<Rightarrow> string option"
  fe_active :: "string \<Rightarrow> int \<Rightarrow> data_sock option"
  fe_passive :: "int \<Rightarrow> data_sock option"
  fe_PublicIP :: string
  fe_LocalAddr :: net_addr
  fe_PassivePorts :: string
  fe_Intn :: "int \<Rightarrow> int"
  fe_handshake :: bool
  fe_WelcomeMessage :: string
  fe_stamp :: "int \<Rightarrow> string"
  fe_listtime :: "int \<Rightarrow> string"

definition statusText :: "(nat \<times> string) list" where
  "statusText =
     [(200, ''OK.''), (202, ''Command not implemented, obsolete.''), (211, ''System status, or system help reply.''),
      (212, ''Directory status.''), (213, ''File status.''), (214, ''Help message.''), (215, ''''),
      (220, ''Service ready for new user.''), (221, ''Service closing control connection.''),
      (225, ''Data connection open; no transfer in progress.''),
      (226, ''Closing data connection. Requested file action successful.''), (227, ''Entering Passive Mode.''),
      (228, ''Entering Long Passive Mode.''), (229, ''Entering Extended Passive Mode.''), (230, ''User logged in, proceed.''),
      (231, ''User logged out; service terminated.''), (232, ''Logout command noted, will complete when transfer done.''),
      (250, ''Requested file action okay, completed.''), (257, ''Path created.''),
      (331, ''User name OK, need password.''), (332, ''Need account for login.''),
      (350, ''Requested file action pending further information.''),
      (421, ''Service not available, closing control connection.''), (425, ''Can't open data connection.''),
      (426, ''Connection closed; transfer aborted.''), (430, ''Invalid username or password.''),
      (434, ''Requested host unavailable.''), (450, ''Requested file action not taken.''),
      (451, ''Requested action aborted. Local error in processing.''), (452, ''Insufficient storage space in system.''),
      (500, ''Command not found.''), (501, ''Syntax error in parameters or arguments.''), (502, ''Command not implemented.''),
      (503, ''Bad sequence of commands.''), (504, ''Command not implemented for that parameter.''), (530, ''Not logged in.''),
      (532, ''Need account for storing files.''), (550, ''File unavailable.''), (551, ''Page type unknown.''),
      (552, ''Exceeded storage allocation.''), (553, ''File name not allowed.'')]"

definition writeMessage :: "ftp_Conn \<Rightarrow> nat \<Rightarrow> string \<Rightarrow> ftp_Conn" where
  "writeMessage conn code message =
     conn\<lparr>fc_out := fc_out conn @ [Reply code (if message = [] then (case map_of statusText code of None \<Rightarrow> [] | Some t \<Rightarrow> t) else message)]\<rparr>"

definition writeMessageMultiline :: "ftp_Conn \<Rightarrow> nat \<Rightarrow> string \<Rightarrow> ftp_Conn" where
  "writeMessageMultiline conn code message = conn\<lparr>fc_out := fc_out conn @ [MultiReply code message]\<rparr>"

definition put_out :: "ftp_Conn \<Rightarrow> ftp_out list \<Rightarrow> ftp_Conn" where
  "put_out conn os = conn\<lparr>fc_out := fc_out conn @ os\<rparr>"

definition close_data :: "ftp_Conn \<Rightarrow> ftp_Conn" where
  "close_data conn = (put_out conn [DataClosed])\<lparr>fc_dataConn := None\<rparr>"

definition conn_Close :: "ftp_Conn \<Rightarrow> ftp_Conn" where
  "conn_Close conn =
     (let c = conn\<lparr>fc_closed := True\<rparr> in if fc_dataConn c \<noteq> None then close_data c else c)"

definition passiveListenIP :: "ftp_env \<Rightarrow> string result" where
  "passiveListenIP env =
     (if fe_PublicIP env \<noteq> [] then Inr (fe_PublicIP env)
      else case fe_LocalAddr env of TCPAddr ip port \<Rightarrow> Inr (ip_String ip) | _ \<Rightarrow> Inl (Panic TypeAssertion))"

text \<open>\<^verbatim>\<open>rand.Intn\<close> panics for a range that is not positive.\<close>

definition PassivePort :: "ftp_env \<Rightarrow> int result" where
  "PassivePort env =
     (if fe_PassivePorts env \<noteq> []
      then case split_on (CHR ''-'') (fe_PassivePorts env) of
        [a, b] \<Rightarrow>
          (let minPort = parsed_val (Atoi (TrimSpace a)); maxPort = parsed_val (Atoi (TrimSpace b)) in
           if maxPort - minPort \<le> 0 then Inl (Panic (ExplicitPanic ''invalid argument to Intn''))
           else Inr (minPort + fe_Intn env (maxPort - minPort)))
      | _ \<Rightarrow> Inr 0
      else Inr 0)"

definition sendOutofbandData :: "ftp_Conn \<Rightarrow> bytes \<Rightarrow> ftp_Conn" where
  "sendOutofbandData conn data =
     (let c = (case fc_dataConn conn of None \<Rightarrow> conn | Some ds \<Rightarrow> close_data (put_out conn (if ds_writeOk ds then [DataSent data] else [])))
      in writeMessage c 226 (''Closing data connection, sent '' @ itoa (length data) @ '' bytes''))"

text \<open>
  \<^verbatim>\<open>sendOutofBandDataWriter\<close>. Without a data connection the first write panics, and if there is nothing to
  write, closing the connection does.
\<close>

definition sendOutofBandDataWriter :: "ftp_Conn \<Rightarrow> bytes \<Rightarrow> string option \<Rightarrow> ftp_Conn \<times> unit result" where
  "sendOutofBandDataWriter conn0 data err =
     (let conn = conn0\<lparr>fc_lastFilePos := 0\<rparr>;
          done_msg = ''Closing data connection, sent '' @ itoa (length data) @ '' bytes'' in
      case fc_dataConn conn of
        None \<Rightarrow> (if data = [] \<and> err = None then writeMessage conn 226 done_msg else conn, Inl (Panic NilDereference))
      | Some ds \<Rightarrow>
          if data \<noteq> [] \<and> \<not> ds_writeOk ds then (close_data conn, Inl (Error ''write error''))
          else case err of
            Some e \<Rightarrow> (close_data (put_out conn [DataSent data]), Inl (Error e))
          | None \<Rightarrow> (close_data (writeMessage (put_out conn [DataSent data]) 226 done_msg), Inr ()))"

definition parseLine :: "string \<Rightarrow> string \<times> string" where
  "parseLine line = (case split_first (CHR '' '') (TrimCRLF line) of
     [c, p] \<Rightarrow> (c, TrimSpace p) | ps \<Rightarrow> (hd ps, []))"

section \<open>Listings\<close>

definition lpad :: "string \<Rightarrow> nat \<Rightarrow> string" where
  "lpad input n = (if length input < n then replicate (n - length input) (CHR '' '') @ input else take n input)"

definition list_Short :: "file_info list \<Rightarrow> bytes" where
  "list_Short files = bytes_of_string (concat (map (\<lambda>f. fi_Name f @ CRLF) files) @ CRLF)"

text \<open>The mode, size and time of a file are format strings here; they have no verbs.\<close>

definition list_Detailed :: "(int \<Rightarrow> string) \<Rightarrow> file_info list \<Rightarrow> bytes" where
  "list_Detailed listtime files =
     bytes_of_string (concat (map (\<lambda>f. fi_Mode f @ lpad (itoa_int (fi_Size f)) 12 @ listtime (fi_ModTime f) @ fi_Name f @ CRLF) files) @ CRLF)"

lemma fs_ChangeDir_never: "fs_ChangeDir fs path = None"
proof (rule ccontr)
  assume "fs_ChangeDir fs path \<noteq> None"
  then obtain r where "fs_ChangeDir fs path = Some r" by blast
  then show False by (rule fs_ChangeDir.raw_induct [where P = "\<lambda>_ _ _. False", rotated]) blast
qed

end
