(* ===== verification/Ftp_Commands.thy ===== *)
theory Ftp_Commands
  imports Ftp_Driver Events
begin

text \<open>
  The commands of the FTP service (\<^verbatim>\<open>services/ftp/cmd.go\<close>): each is a record of its three
  flags and what it does, as the types of the source implement the interface \<^verbatim>\<open>Command\<close>, and the loop that reads and runs
  them (\<^verbatim>\<open>conn.go\<close>).
\<close>

section \<open>Commands\<close>

record Command =
  cmd_IsExtend :: bool
  cmd_RequireParam :: bool
  cmd_RequireAuth :: bool
  cmd_Execute :: "ftp_env \<Rightarrow> ftp_Conn \<Rightarrow> string \<Rightarrow> ftp_outcome"

text \<open>A panic ends the command with the connection as it is.\<close>

fun guarded :: "'a result \<Rightarrow> ftp_Conn \<Rightarrow> ('a \<Rightarrow> ftp_outcome) \<Rightarrow> ftp_outcome" where
  "guarded (Inr x) conn f = f x"
| "guarded (Inl (Panic p)) conn f = Panicked conn p"
| "guarded (Inl (Error e)) conn f = Done conn"

text \<open>The reply to an operation that succeeds or fails with an error.\<close>

fun finish :: "ftp_Conn \<Rightarrow> unit result \<Rightarrow> nat \<Rightarrow> string \<Rightarrow> nat \<Rightarrow> string \<Rightarrow> ftp_Conn" where
  "finish conn (Inr u) ok okmsg bad badmsg = writeMessage conn ok okmsg"
| "finish conn (Inl (Error e)) ok okmsg bad badmsg = writeMessage conn bad (Sprintln [badmsg, e])"
| "finish conn (Inl (Panic p)) ok okmsg bad badmsg = conn"

definition CheckPasswd :: "(string \<Rightarrow> string option) \<Rightarrow> string \<Rightarrow> string \<Rightarrow> bool" where
  "CheckPasswd users name password = (users name = Some password)"

text \<open>Integer division truncates towards zero.\<close>

definition go_div :: "int \<Rightarrow> int \<Rightarrow> int" where
  "go_div a b = sgn a * sgn b * (\<bar>a\<bar> div \<bar>b\<bar>)"

definition connect_active :: "ftp_env \<Rightarrow> ftp_Conn \<Rightarrow> string \<Rightarrow> int \<Rightarrow> ftp_outcome" where
  "connect_active env conn host port =
     (case fe_active env host port of
        None \<Rightarrow> Done (writeMessage conn 425 ''Data connection failed'')
      | Some ds \<Rightarrow> Done (writeMessage (conn\<lparr>fc_dataConn := Some ds\<rparr>) 200 (''Connection established ('' @ itoa_int port @ '')'')))"

definition commandAllo :: Command where
  "commandAllo = \<lparr>cmd_IsExtend = False, cmd_RequireParam = False, cmd_RequireAuth = False,
     cmd_Execute = (\<lambda>env conn param. Done (writeMessage conn 202 []))\<rparr>"

text \<open>\<^verbatim>\<open>APPE\<close> only remembers to append; it transfers nothing.\<close>

definition commandAppe :: Command where
  "commandAppe = \<lparr>cmd_IsExtend = False, cmd_RequireParam = False, cmd_RequireAuth = True,
     cmd_Execute = (\<lambda>env conn param. Done (writeMessage (conn\<lparr>fc_appendData := True\<rparr>) 202 []))\<rparr>"

definition commandOpts :: Command where
  "commandOpts = \<lparr>cmd_IsExtend = False, cmd_RequireParam = False, cmd_RequireAuth = False,
     cmd_Execute = (\<lambda>env conn param. 
       (case Fields param of
          [a, b] \<Rightarrow>
            if ToUpper a \<noteq> ''UTF8'' then Done (writeMessage conn 550 ''Unknow params'')
            else if ToUpper b = ''ON'' then Done (writeMessage conn 200 ''UTF8 mode enabled'')
            else Done (writeMessage conn 550 ''Unsupported non-utf8 mode'')
        | _ \<Rightarrow> Done (writeMessage conn 550 ''Unknow params'')))\<rparr>"

text \<open>The list of features is a global variable; with TLS every \<^verbatim>\<open>FEAT\<close> appends to it.\<close>

definition commandFeat :: Command where
  "commandFeat = \<lparr>cmd_IsExtend = False, cmd_RequireParam = False, cmd_RequireAuth = False,
     cmd_Execute = (\<lambda>env conn param. 
       (let conn = (if fc_tlsConfig conn
                    then conn\<lparr>fc_featCmds := fc_featCmds conn @ '' AUTH TLS'' @ [CHR 0x0A] @ '' PBSZ'' @ [CHR 0x0A] @ '' PROT'' @ [CHR 0x0A]\<rparr>
                    else conn)
        in Done (writeMessageMultiline conn 211 (''Extensions supported:'' @ [CHR 0x0A] @ fc_featCmds conn))))\<rparr>"

definition cwd_Execute :: "ftp_env \<Rightarrow> ftp_Conn \<Rightarrow> string \<Rightarrow> ftp_outcome" where
  "cwd_Execute env conn param =
     (case fs_ChangeDir (fc_fs conn) param of
        None \<Rightarrow> Diverges conn
      | Some (Inr fs) \<Rightarrow> Done (writeMessage (conn\<lparr>fc_fs := fs\<rparr>) 250 (''Directory changed to '' @ Cwd fs))
      | Some (Inl (Error e)) \<Rightarrow> Done (writeMessage conn 550 (Sprintln [''Directory change to'', Cwd (fc_fs conn), ''failed:'', e]))
      | Some (Inl (Panic p)) \<Rightarrow> Panicked conn p)"

definition commandCdup :: Command where
  "commandCdup = \<lparr>cmd_IsExtend = False, cmd_RequireParam = False, cmd_RequireAuth = True,
     cmd_Execute = (\<lambda>env conn param. cwd_Execute env conn ''..'')\<rparr>"

definition commandCwd :: Command where
  "commandCwd = \<lparr>cmd_IsExtend = False, cmd_RequireParam = True, cmd_RequireAuth = True,
     cmd_Execute = (\<lambda>env conn param. cwd_Execute env conn param)\<rparr>"

definition commandDele :: Command where
  "commandDele = \<lparr>cmd_IsExtend = False, cmd_RequireParam = True, cmd_RequireAuth = True,
     cmd_Execute = (\<lambda>env conn param. 
       (case fs_DeleteFile (fe_os env) (fc_fs conn) (fc_trace conn) param of
          (r, tr) \<Rightarrow> Done (finish (conn\<lparr>fc_trace := tr\<rparr>) r 250 ''File deleted'' 550 ''File delete failed: '')))\<rparr>"

definition commandEprt :: Command where
  "commandEprt = \<lparr>cmd_IsExtend = True, cmd_RequireParam = True, cmd_RequireAuth = True,
     cmd_Execute = (\<lambda>env conn param. 
       (let parts = split_on (hd param) param in
        guarded (go_at parts 1) conn (\<lambda>af.
          case Atoi af of
            NumOk addressFamily \<Rightarrow>
              guarded (go_at parts 2) conn (\<lambda>host. guarded (go_at parts 3) conn (\<lambda>p.
                case Atoi p of
                  NumOk port \<Rightarrow>
                    if addressFamily \<noteq> 1 \<and> addressFamily \<noteq> 2
                    then Done (writeMessage conn 522 ''Network protocol not supported, use (1,2)'')
                    else connect_active env conn host port
                | _ \<Rightarrow> Done (writeMessage conn 450 ''Invalid port'')))
          | _ \<Rightarrow> Done (writeMessage conn 450 ''Invalid addr''))))\<rparr>"

definition commandEpsv :: Command where
  "commandEpsv = \<lparr>cmd_IsExtend = True, cmd_RequireParam = False, cmd_RequireAuth = True,
     cmd_Execute = (\<lambda>env conn param. 
       guarded (passiveListenIP env) conn (\<lambda>addr.
         if LastIndex (CHR '':'') addr \<le> 0 then Done (writeMessage conn 425 ''Data connection failed'')
         else guarded (PassivePort env) conn (\<lambda>port.
           case fe_passive env port of
             None \<Rightarrow> Done (writeMessage conn 425 ''Data connection failed'')
           | Some ds \<Rightarrow> Done (writeMessage (conn\<lparr>fc_dataConn := Some ds\<rparr>) 229
               (''Entering Extended Passive Mode (|||'' @ itoa_int (ds_Port ds) @ ''|)'')))))\<rparr>"

text \<open>The driver never returns a nil list, so the error branch of the code is never taken.\<close>

definition commandList :: Command where
  "commandList = \<lparr>cmd_IsExtend = False, cmd_RequireParam = False, cmd_RequireAuth = True,
     cmd_Execute = (\<lambda>env conn param. 
       (let c = writeMessage conn 150 ''Opening ASCII mode data connection for file list'' in
        case fs_ListDir (fe_os env) (fc_fs c) (fc_trace c) param of
          (files, tr) \<Rightarrow> Done (sendOutofbandData (c\<lparr>fc_trace := tr\<rparr>) (list_Detailed (fe_listtime env) files))))\<rparr>"

definition commandNlst :: Command where
  "commandNlst = \<lparr>cmd_IsExtend = False, cmd_RequireParam = False, cmd_RequireAuth = True,
     cmd_Execute = (\<lambda>env conn param. 
       (let c = writeMessage conn 150 ''Opening ASCII mode data connection for file list'' in
        case fs_ListDir (fe_os env) (fc_fs c) (fc_trace c) param of
          (files, tr) \<Rightarrow> Done (sendOutofbandData (c\<lparr>fc_trace := tr\<rparr>) (list_Short files))))\<rparr>"

text \<open>There is no return after the success.\<close>

definition commandMdtm :: Command where
  "commandMdtm = \<lparr>cmd_IsExtend = False, cmd_RequireParam = True, cmd_RequireAuth = True,
     cmd_Execute = (\<lambda>env conn param. 
       (case fs_Stat (fe_os env) (fc_fs conn) (fc_trace conn) param of
          (r, tr) \<Rightarrow>
            let c = conn\<lparr>fc_trace := tr\<rparr>;
                c1 = (case r of Inr stat \<Rightarrow> writeMessage c 213 (fe_stamp env (fi_ModTime stat)) | Inl e \<Rightarrow> c)
            in Done (writeMessage c1 450 ''File not available'')))\<rparr>"

definition commandMkd :: Command where
  "commandMkd = \<lparr>cmd_IsExtend = False, cmd_RequireParam = True, cmd_RequireAuth = True,
     cmd_Execute = (\<lambda>env conn param. 
       (case fs_MakeDir (fe_os env) (fc_fs conn) (fc_trace conn) param of
          (r, tr) \<Rightarrow> Done (finish (conn\<lparr>fc_trace := tr\<rparr>) r 257 ''Directory created'' 550 ''Action not taken:'')))\<rparr>"

definition commandMode :: Command where
  "commandMode = \<lparr>cmd_IsExtend = False, cmd_RequireParam = True, cmd_RequireAuth = True,
     cmd_Execute = (\<lambda>env conn param. 
       (if ToUpper param = ''S'' then Done (writeMessage conn 200 ''OK'')
        else Done (writeMessage conn 504 ''MODE is an obsolete command'')))\<rparr>"

definition commandNoop :: Command where
  "commandNoop = \<lparr>cmd_IsExtend = False, cmd_RequireParam = False, cmd_RequireAuth = False,
     cmd_Execute = (\<lambda>env conn param. Done (writeMessage conn 200 ''OK''))\<rparr>"

definition commandPass :: Command where
  "commandPass = \<lparr>cmd_IsExtend = False, cmd_RequireParam = True, cmd_RequireAuth = False,
     cmd_Execute = (\<lambda>env conn param. 
       (if CheckPasswd (fe_users env) (fc_reqUser conn) param
        then Done (writeMessage (conn\<lparr>fc_user := fc_reqUser conn, fc_reqUser := []\<rparr>) 230 ''Password ok, continue'')
        else Done (writeMessage conn 530 ''Incorrect password, not logged in'')))\<rparr>"

definition commandPasv :: Command where
  "commandPasv = \<lparr>cmd_IsExtend = False, cmd_RequireParam = False, cmd_RequireAuth = True,
     cmd_Execute = (\<lambda>env conn param. 
       guarded (passiveListenIP env) conn (\<lambda>listenIP. guarded (PassivePort env) conn (\<lambda>port.
         case fe_passive env port of
           None \<Rightarrow> Done (writeMessage conn 425 ''Data connection failed, socket'')
         | Some ds \<Rightarrow>
             let c = conn\<lparr>fc_dataConn := Some ds\<rparr>; p1 = go_div (ds_Port ds) 256; p2 = ds_Port ds - p1 * 256;
                 quads = split_on (CHR ''.'') listenIP in
             guarded (go_at quads 0) c (\<lambda>q0. guarded (go_at quads 1) c (\<lambda>q1. guarded (go_at quads 2) c (\<lambda>q2. guarded (go_at quads 3) c (\<lambda>q3.
               Done (writeMessage c 227 (''Entering Passive Mode ('' @ q0 @ '','' @ q1 @ '','' @ q2 @ '','' @ q3 @ '','' @
                 itoa_int p1 @ '','' @ itoa_int p2 @ '')'')))))))))\<rparr>"

definition commandPort :: Command where
  "commandPort = \<lparr>cmd_IsExtend = False, cmd_RequireParam = True, cmd_RequireAuth = True,
     cmd_Execute = (\<lambda>env conn param. 
       (let nums = split_on (CHR '','') param in
        guarded (go_at nums 4) conn (\<lambda>n4. guarded (go_at nums 5) conn (\<lambda>n5.
          connect_active env conn (nums ! 0 @ ''.'' @ nums ! 1 @ ''.'' @ nums ! 2 @ ''.'' @ nums ! 3)
            (parsed_val (Atoi n4) * 256 + parsed_val (Atoi n5))))))\<rparr>"

definition commandPwd :: Command where
  "commandPwd = \<lparr>cmd_IsExtend = False, cmd_RequireParam = False, cmd_RequireAuth = True,
     cmd_Execute = (\<lambda>env conn param. Done (writeMessage conn 257 (Cwd (fc_fs conn))))\<rparr>"

definition commandQuit :: Command where
  "commandQuit = \<lparr>cmd_IsExtend = False, cmd_RequireParam = False, cmd_RequireAuth = False,
     cmd_Execute = (\<lambda>env conn param. Done (conn_Close (writeMessage conn 221 ''Goodbye'')))\<rparr>"

definition commandRetr :: Command where
  "commandRetr = \<lparr>cmd_IsExtend = False, cmd_RequireParam = True, cmd_RequireAuth = True,
     cmd_Execute = (\<lambda>env conn param. 
       (case fs_GetFile (fe_os env) (fc_fs conn) (fc_trace conn) param (fc_lastFilePos conn) of
          (r, tr) \<Rightarrow>
            let c = conn\<lparr>fc_trace := tr, fc_lastFilePos := 0\<rparr> in
            (case r of
               Inl e \<Rightarrow> Done (writeMessage c 551 ''File not available'')
             | Inr (sz, data, err) \<Rightarrow>
                 (case sendOutofBandDataWriter (writeMessage c 150 (''Data transfer starting '' @ itoa_int sz @ '' bytes'')) data err of
                    (c1, Inr u) \<Rightarrow> Done c1
                  | (c1, Inl (Error e)) \<Rightarrow> Done (writeMessage c1 551 ''File not available'')
                  | (c1, Inl (Panic p)) \<Rightarrow> Panicked c1 p))))\<rparr>"

definition commandRest :: Command where
  "commandRest = \<lparr>cmd_IsExtend = False, cmd_RequireParam = True, cmd_RequireAuth = True,
     cmd_Execute = (\<lambda>env conn param. 
       (let n = ParseInt param 64; c = conn\<lparr>fc_lastFilePos := parsed_val n\<rparr> in
        if parsed_ok n
        then Done (writeMessage (c\<lparr>fc_appendData := True\<rparr>) 350 (Sprintln [''Start transfer from'', itoa_int (fc_lastFilePos c)]))
        else Done (writeMessage c 551 ''File not available'')))\<rparr>"

definition commandRnfr :: Command where
  "commandRnfr = \<lparr>cmd_IsExtend = False, cmd_RequireParam = True, cmd_RequireAuth = True,
     cmd_Execute = (\<lambda>env conn param. Done (writeMessage (conn\<lparr>fc_renameFrom := param\<rparr>) 350 ''Requested file action pending further information.''))\<rparr>"

definition commandRnto :: Command where
  "commandRnto = \<lparr>cmd_IsExtend = False, cmd_RequireParam = True, cmd_RequireAuth = True,
     cmd_Execute = (\<lambda>env conn param. 
       (case fs_Rename (fe_os env) (fc_fs conn) (fc_trace conn) (fc_renameFrom conn) param of
          (r, tr) \<Rightarrow> Done (finish (conn\<lparr>fc_trace := tr, fc_renameFrom := []\<rparr>) r 250 ''File renamed'' 550 ''Action not taken'')))\<rparr>"

definition commandRmd :: Command where
  "commandRmd = \<lparr>cmd_IsExtend = False, cmd_RequireParam = True, cmd_RequireAuth = True,
     cmd_Execute = (\<lambda>env conn param. 
       (case fs_DeleteDir (fe_os env) (fc_fs conn) (fc_trace conn) param of
          (r, tr) \<Rightarrow> Done (finish (conn\<lparr>fc_trace := tr\<rparr>) r 250 ''Directory deleted'' 550 ''Directory delete failed:'')))\<rparr>"

definition commandAdat :: Command where
  "commandAdat = \<lparr>cmd_IsExtend = False, cmd_RequireParam = True, cmd_RequireAuth = True,
     cmd_Execute = (\<lambda>env conn param. Done (writeMessage conn 550 ''Action not taken''))\<rparr>"

definition commandAuth :: Command where
  "commandAuth = \<lparr>cmd_IsExtend = False, cmd_RequireParam = True, cmd_RequireAuth = False,
     cmd_Execute = (\<lambda>env conn param. 
       (if param = ''TLS'' \<and> fc_tlsConfig conn
        then Done ((writeMessage conn 234 ''AUTH command OK'')\<lparr>fc_tls := fe_handshake env \<or> fc_tls conn\<rparr>)
        else Done (writeMessage conn 550 ''Action not taken'')))\<rparr>"

definition commandCcc :: Command where
  "commandCcc = \<lparr>cmd_IsExtend = False, cmd_RequireParam = True, cmd_RequireAuth = True,
     cmd_Execute = (\<lambda>env conn param. Done (writeMessage conn 550 ''Action not taken''))\<rparr>"

definition commandEnc :: Command where
  "commandEnc = \<lparr>cmd_IsExtend = False, cmd_RequireParam = True, cmd_RequireAuth = True,
     cmd_Execute = (\<lambda>env conn param. Done (writeMessage conn 550 ''Action not taken''))\<rparr>"

definition commandMic :: Command where
  "commandMic = \<lparr>cmd_IsExtend = False, cmd_RequireParam = True, cmd_RequireAuth = True,
     cmd_Execute = (\<lambda>env conn param. Done (writeMessage conn 550 ''Action not taken''))\<rparr>"

definition commandPbsz :: Command where
  "commandPbsz = \<lparr>cmd_IsExtend = False, cmd_RequireParam = True, cmd_RequireAuth = True,
     cmd_Execute = (\<lambda>env conn param. 
       (if fc_tls conn \<and> param = ''0'' then Done (writeMessage conn 200 ''OK'') else Done (writeMessage conn 550 ''Action not taken'')))\<rparr>"

definition commandProt :: Command where
  "commandProt = \<lparr>cmd_IsExtend = False, cmd_RequireParam = True, cmd_RequireAuth = True,
     cmd_Execute = (\<lambda>env conn param. 
       (if fc_tls conn \<and> param = ''P'' then Done (writeMessage conn 200 ''OK'')
        else if fc_tls conn then Done (writeMessage conn 536 ''Only P level is supported'')
        else Done (writeMessage conn 550 ''Action not taken'')))\<rparr>"

definition commandConf :: Command where
  "commandConf = \<lparr>cmd_IsExtend = False, cmd_RequireParam = True, cmd_RequireAuth = True,
     cmd_Execute = (\<lambda>env conn param. Done (writeMessage conn 550 ''Action not taken''))\<rparr>"

definition commandSize :: Command where
  "commandSize = \<lparr>cmd_IsExtend = False, cmd_RequireParam = True, cmd_RequireAuth = True,
     cmd_Execute = (\<lambda>env conn param. 
       (case fs_Stat (fe_os env) (fc_fs conn) (fc_trace conn) param of
          (r, tr) \<Rightarrow>
            let c = conn\<lparr>fc_trace := tr\<rparr> in
            (case r of
               Inl e \<Rightarrow> Done (writeMessage c 450 (Sprintln [''path'', param, ''not found'']))
             | Inr stat \<Rightarrow> Done (writeMessage c 213 (itoa_int (fi_Size stat))))))\<rparr>"

text \<open>The data connection is neither closed nor reset afterwards.\<close>

definition commandStor :: Command where
  "commandStor = \<lparr>cmd_IsExtend = False, cmd_RequireParam = True, cmd_RequireAuth = True,
     cmd_Execute = (\<lambda>env conn param. 
       (let c = writeMessage conn 150 ''Data transfer starting'' in
        case fs_PutFile (fe_os env) (fc_fs c) (fc_trace c) param (fc_dataConn c) (fc_appendData c) of
          (r, tr) \<Rightarrow>
            let c1 = c\<lparr>fc_trace := tr, fc_appendData := False\<rparr> in
            (case r of
               Inr n \<Rightarrow> Done (writeMessage c1 226 (''OK, received '' @ itoa_int n @ '' bytes''))
             | Inl (Error e) \<Rightarrow> Done (writeMessage c1 450 (Sprintln [''error during transfer:'', e]))
             | Inl (Panic p) \<Rightarrow> Panicked c1 p)))\<rparr>"

definition commandStru :: Command where
  "commandStru = \<lparr>cmd_IsExtend = False, cmd_RequireParam = True, cmd_RequireAuth = True,
     cmd_Execute = (\<lambda>env conn param. 
       (if ToUpper param = ''F'' then Done (writeMessage conn 200 ''OK'')
        else Done (writeMessage conn 504 ''STRU is an obsolete command'')))\<rparr>"

definition commandSyst :: Command where
  "commandSyst = \<lparr>cmd_IsExtend = False, cmd_RequireParam = False, cmd_RequireAuth = True,
     cmd_Execute = (\<lambda>env conn param. Done (writeMessage conn 215 ''UNIX Type: L8''))\<rparr>"

definition commandType :: Command where
  "commandType = \<lparr>cmd_IsExtend = False, cmd_RequireParam = False, cmd_RequireAuth = True,
     cmd_Execute = (\<lambda>env conn param. 
       (if ToUpper param = ''A'' then Done (writeMessage conn 200 ''Type set to ASCII'')
        else if ToUpper param = ''I'' then Done (writeMessage conn 200 ''Type set to binary'')
        else Done (writeMessage conn 500 ''Invalid type'')))\<rparr>"

definition commandUser :: Command where
  "commandUser = \<lparr>cmd_IsExtend = False, cmd_RequireParam = True, cmd_RequireAuth = False,
     cmd_Execute = (\<lambda>env conn param. Done (writeMessage (conn\<lparr>fc_reqUser := param\<rparr>) 331 []))\<rparr>"

definition commands :: "(string \<times> Command) list" where
  "commands =
     [(''ADAT'', commandAdat),
      (''ALLO'', commandAllo),
      (''APPE'', commandAppe),
      (''AUTH'', commandAuth),
      (''CDUP'', commandCdup),
      (''CWD'', commandCwd),
      (''CCC'', commandCcc),
      (''CONF'', commandConf),
      (''DELE'', commandDele),
      (''ENC'', commandEnc),
      (''EPRT'', commandEprt),
      (''EPSV'', commandEpsv),
      (''FEAT'', commandFeat),
      (''LIST'', commandList),
      (''NLST'', commandNlst),
      (''MDTM'', commandMdtm),
      (''MIC'', commandMic),
      (''MKD'', commandMkd),
      (''MODE'', commandMode),
      (''NOOP'', commandNoop),
      (''OPTS'', commandOpts),
      (''PASS'', commandPass),
      (''PASV'', commandPasv),
      (''PBSZ'', commandPbsz),
      (''PORT'', commandPort),
      (''PROT'', commandProt),
      (''PWD'', commandPwd),
      (''QUIT'', commandQuit),
      (''RETR'', commandRetr),
      (''REST'', commandRest),
      (''RNFR'', commandRnfr),
      (''RNTO'', commandRnto),
      (''RMD'', commandRmd),
      (''SIZE'', commandSize),
      (''STOR'', commandStor),
      (''STRU'', commandStru),
      (''SYST'', commandSyst),
      (''TYPE'', commandType),
      (''USER'', commandUser),
      (''XCUP'', commandCdup),
      (''XCWD'', commandCwd),
      (''XPWD'', commandPwd),
      (''XRMD'', commandRmd)]"

section \<open>The session\<close>

definition receiveLine :: "ftp_env \<Rightarrow> ftp_Conn \<Rightarrow> string \<Rightarrow> ftp_outcome" where
  "receiveLine env conn0 line =
     (let conn = put_out conn0 [CmdLogged line]; (command, param) = parseLine line in
      case map_of commands (ToUpper command) of
        None \<Rightarrow> Done (writeMessage conn 500 [])
      | Some cmd \<Rightarrow>
          if cmd_RequireParam cmd \<and> param = [] then Done (writeMessage conn 553 ''action aborted, required param missing'')
          else if cmd_RequireAuth cmd \<and> fc_user conn = [] then Done (writeMessage conn 530 [])
          else cmd_Execute cmd env conn param)"

text \<open>The loop over the lines the client sends, until it closes the connection or quits.\<close>

fun serve_loop :: "ftp_env \<Rightarrow> ftp_Conn \<Rightarrow> string list \<Rightarrow> ftp_outcome" where
  "serve_loop env conn [] = Done (conn_Close conn)"
| "serve_loop env conn (line # ls) =
     (case receiveLine env conn line of
        Done c \<Rightarrow> if fc_closed c then Done (conn_Close c) else serve_loop env c ls
      | r \<Rightarrow> r)"

definition ftp_Serve :: "ftp_env \<Rightarrow> ftp_Conn \<Rightarrow> string list \<Rightarrow> ftp_outcome" where
  "ftp_Serve env conn lines = serve_loop env (writeMessage conn 220 (fe_WelcomeMessage env)) lines"

definition ftp_newConn :: "Htfs \<Rightarrow> bool \<Rightarrow> string \<Rightarrow> ftp_Conn" where
  "ftp_newConn fs tls featCmds =
     \<lparr>fc_dataConn = None, fc_fs = fs, fc_reqUser = [], fc_user = [], fc_renameFrom = [], fc_lastFilePos = 0, fc_appendData = False,
      fc_closed = False, fc_tls = False, fc_tlsConfig = tls, fc_featCmds = featCmds, fc_trace = [], fc_out = []\<rparr>"

text \<open>The event for a command that was logged.\<close>

definition ftp_event :: "int \<Rightarrow> net_addr \<Rightarrow> net_addr \<Rightarrow> string \<Rightarrow> string \<Rightarrow> event" where
  "ftp_event now remote local_addr sessionid msg =
     ev_New now [ev_Sensor ''services'', ev_Category ''ftp'', ev_SourceAddr remote, ev_DestinationAddr local_addr,
       ev_Custom ''ftp.sessionid'' (VString sessionid), ev_Custom ''ftp.command'' (VString (TrimCRLF msg))]"

end
