(* ===== verification/Ftp_Frame.thy ===== *)
theory Ftp_Frame
  imports Ftp_Commands
begin

text \<open>
  What the FTP commands leave alone, and what they ask of the operating system.
\<close>

section \<open>Frame of the commands\<close>

text \<open>
  All commands but \<^verbatim>\<open>USER\<close> and \<^verbatim>\<open>PASS\<close> leave the login alone, all keep the file system, and what they ask of the
  operating system are paths of the file system; commands without login ask nothing.
\<close>

definition own_calls :: "Htfs \<Rightarrow> os_call list \<Rightarrow> bool" where
  "own_calls fs calls \<longleftrightarrow> (\<forall>c \<in> set calls. \<forall>p \<in> set (call_paths c). \<exists>q. p = RealPath fs q)"

definition ftp_frame :: "bool \<Rightarrow> ftp_Conn \<Rightarrow> ftp_Conn \<Rightarrow> bool" where
  "ftp_frame auth conn c \<longleftrightarrow> fc_fs c = fc_fs conn \<and> fc_user c = fc_user conn \<and> fc_reqUser c = fc_reqUser conn \<and>
     (\<exists>calls. fc_trace c = fc_trace conn @ calls \<and> own_calls (fc_fs conn) calls \<and> (\<not> auth \<longrightarrow> calls = []))"

lemma own_calls_simps [simp]:
  "own_calls fs []" "own_calls fs (c # cs) \<longleftrightarrow> (\<forall>p \<in> set (call_paths c). \<exists>q. p = RealPath fs q) \<and> own_calls fs cs"
  "own_calls fs (xs @ ys) \<longleftrightarrow> own_calls fs xs \<and> own_calls fs ys"
  by (auto simp: own_calls_def)

lemma output_simps [simp]:
  "fc_trace (writeMessage c n m) = fc_trace c" "fc_fs (writeMessage c n m) = fc_fs c" "fc_user (writeMessage c n m) = fc_user c"
  "fc_reqUser (writeMessage c n m) = fc_reqUser c" "fc_closed (writeMessage c n m) = fc_closed c"
  "fc_dataConn (writeMessage c n m) = fc_dataConn c" "fc_lastFilePos (writeMessage c n m) = fc_lastFilePos c"
  "fc_trace (writeMessageMultiline c n m) = fc_trace c" "fc_fs (writeMessageMultiline c n m) = fc_fs c"
  "fc_user (writeMessageMultiline c n m) = fc_user c" "fc_reqUser (writeMessageMultiline c n m) = fc_reqUser c"
  "fc_trace (put_out c os) = fc_trace c" "fc_fs (put_out c os) = fc_fs c" "fc_user (put_out c os) = fc_user c"
  "fc_reqUser (put_out c os) = fc_reqUser c" "fc_dataConn (put_out c os) = fc_dataConn c" "fc_lastFilePos (put_out c os) = fc_lastFilePos c"
  "fc_trace (close_data c) = fc_trace c" "fc_fs (close_data c) = fc_fs c" "fc_user (close_data c) = fc_user c"
  "fc_reqUser (close_data c) = fc_reqUser c"
  "fc_trace (conn_Close c) = fc_trace c" "fc_fs (conn_Close c) = fc_fs c" "fc_user (conn_Close c) = fc_user c"
  "fc_reqUser (conn_Close c) = fc_reqUser c" "fc_closed (conn_Close c)"
  by (simp_all add: writeMessage_def writeMessageMultiline_def put_out_def close_data_def conn_Close_def Let_def)

lemma sendOutofbandData_simps [simp]:
  "fc_trace (sendOutofbandData c d) = fc_trace c" "fc_fs (sendOutofbandData c d) = fc_fs c"
  "fc_user (sendOutofbandData c d) = fc_user c" "fc_reqUser (sendOutofbandData c d) = fc_reqUser c"
  by (simp_all add: sendOutofbandData_def Let_def split: option.split)

lemma sendWriter_simps [simp]:
  "fc_trace (fst (sendOutofBandDataWriter c d e)) = fc_trace c" "fc_fs (fst (sendOutofBandDataWriter c d e)) = fc_fs c"
  "fc_user (fst (sendOutofBandDataWriter c d e)) = fc_user c" "fc_reqUser (fst (sendOutofBandDataWriter c d e)) = fc_reqUser c"
  by (simp_all add: sendOutofBandDataWriter_def Let_def split: option.split)

lemma finish_simps [simp]:
  "fc_trace (finish c r a b d e) = fc_trace c" "fc_fs (finish c r a b d e) = fc_fs c"
  "fc_user (finish c r a b d e) = fc_user c" "fc_reqUser (finish c r a b d e) = fc_reqUser c"
  by (cases "(c, r, a, b, d, e)" rule: finish.cases; simp)+

text \<open>The calls of the driver.\<close>

lemma driver_calls:
  "fs_Stat os fs tr p = (r1, t1) \<Longrightarrow> \<exists>calls. t1 = tr @ calls \<and> own_calls fs calls"
  "fs_ListDir os fs tr p = (r2, t2) \<Longrightarrow> \<exists>calls. t2 = tr @ calls \<and> own_calls fs calls"
  "fs_DeleteDir os fs tr p = (r3, t3) \<Longrightarrow> \<exists>calls. t3 = tr @ calls \<and> own_calls fs calls"
  "fs_DeleteFile os fs tr p = (r4, t4) \<Longrightarrow> \<exists>calls. t4 = tr @ calls \<and> own_calls fs calls"
  "fs_Rename os fs tr p q = (r5, t5) \<Longrightarrow> \<exists>calls. t5 = tr @ calls \<and> own_calls fs calls"
  "fs_MakeDir os fs tr p = (r6, t6) \<Longrightarrow> \<exists>calls. t6 = tr @ calls \<and> own_calls fs calls"
  "fs_GetFile os fs tr p off = (r7, t7) \<Longrightarrow> \<exists>calls. t7 = tr @ calls \<and> own_calls fs calls"
  by (auto simp: fs_Stat_def fs_ListDir_def fs_DeleteDir_def fs_DeleteFile_def fs_Rename_def fs_MakeDir_def fs_GetFile_def Let_def
      split: sum.splits os_reply.splits if_splits)

lemma copy_calls:
  "copy_to_file os tr (RealPath fs p) data = (r, t) \<Longrightarrow> \<exists>calls. t = tr @ calls \<and> own_calls fs calls"
  by (auto simp: copy_to_file_def Let_def split: option.splits os_reply.splits)

lemma create_calls:
  "create_and_copy os tr (RealPath fs p) data = (r, t) \<Longrightarrow> \<exists>calls. t = tr @ calls \<and> own_calls fs calls"
  using copy_calls [of os "tr @ [Create (RealPath fs p)]" fs p data r t]
  by (fastforce simp: create_and_copy_def split: os_reply.splits)

lemma ext_calls:
  assumes "\<exists>calls. t = (tr @ pre) @ calls \<and> own_calls fs calls" "own_calls fs pre"
  shows "\<exists>calls. t = tr @ calls \<and> own_calls fs calls"
proof -
  obtain calls where "t = (tr @ pre) @ calls" "own_calls fs calls" using assms(1) by blast
  then show ?thesis using assms(2) by (intro exI [of _ "pre @ calls"]) simp
qed

lemma put_calls:
  assumes "fs_PutFile os fs tr p data app = (r, t)"
  shows "\<exists>calls. t = tr @ calls \<and> own_calls fs calls"
proof -
  let ?p = "RealPath fs p" and ?t1 = "tr @ [Lstat (RealPath fs p)]"
  show ?thesis
    using assms create_calls [of os ?t1 fs p data r t] create_calls [of os "?t1 @ [Remove ?p]" fs p data r t]
      copy_calls [of os "?t1 @ [OpenAppend ?p]" fs p data r t] ext_calls [of t tr "[Lstat ?p]" fs] ext_calls [of t tr "[Lstat ?p, Remove ?p]" fs]
      ext_calls [of t tr "[Lstat ?p, OpenAppend ?p]" fs]
    by (auto simp: fs_PutFile_def Let_def split: os_reply.splits if_splits)
qed

lemma guarded_frame:
  "ftp_frame auth conn c \<Longrightarrow> (\<And>x. ftp_frame auth conn (conn_of (f x))) \<Longrightarrow> ftp_frame auth conn (conn_of (guarded r c f))"
  by (cases "(r, c, f)" rule: guarded.cases) auto

lemma frame_refl: "ftp_frame auth conn conn"
  by (simp add: ftp_frame_def)

lemma frame_same:
  "fc_fs c = fc_fs conn \<Longrightarrow> fc_user c = fc_user conn \<Longrightarrow> fc_reqUser c = fc_reqUser conn \<Longrightarrow> fc_trace c = fc_trace conn \<Longrightarrow>
   ftp_frame auth conn c"
  by (simp add: ftp_frame_def)

lemma frame_calls:
  "fc_fs c = fc_fs conn \<Longrightarrow> fc_user c = fc_user conn \<Longrightarrow> fc_reqUser c = fc_reqUser conn \<Longrightarrow>
   \<exists>calls. fc_trace c = fc_trace conn @ calls \<and> own_calls (fc_fs conn) calls \<Longrightarrow> ftp_frame True conn c"
  by (auto simp: ftp_frame_def)

lemma connect_frame: "ftp_frame auth conn (conn_of (connect_active env conn host port))"
  by (auto simp: connect_active_def intro: frame_same split: option.split)

lemmas simple_defs =
  commandAllo_def
  commandAppe_def
  commandOpts_def
  commandFeat_def
  commandCdup_def
  commandCwd_def
  commandMode_def
  commandNoop_def
  commandPwd_def
  commandQuit_def
  commandRest_def
  commandRnfr_def
  commandAdat_def
  commandAuth_def
  commandCcc_def
  commandEnc_def
  commandMic_def
  commandPbsz_def
  commandProt_def
  commandConf_def
  commandStru_def
  commandSyst_def
  commandType_def cwd_Execute_def fs_ChangeDir_never

lemma frame_simple:
  assumes "cmd \<in> {commandAllo, commandAppe, commandOpts, commandFeat, commandCdup, commandCwd, commandMode, commandNoop, commandPwd, commandQuit, commandRest, commandRnfr, commandAdat, commandAuth, commandCcc, commandEnc, commandMic, commandPbsz, commandProt, commandConf, commandStru, commandSyst, commandType}"
  shows "ftp_frame (cmd_RequireAuth cmd) conn (conn_of (cmd_Execute cmd env conn param))"
proof -
  have "ftp_frame (cmd_RequireAuth commandAllo) conn (conn_of (cmd_Execute commandAllo env conn param))"
    "ftp_frame (cmd_RequireAuth commandAppe) conn (conn_of (cmd_Execute commandAppe env conn param))"
    "ftp_frame (cmd_RequireAuth commandOpts) conn (conn_of (cmd_Execute commandOpts env conn param))"
    "ftp_frame (cmd_RequireAuth commandFeat) conn (conn_of (cmd_Execute commandFeat env conn param))"
    "ftp_frame (cmd_RequireAuth commandCdup) conn (conn_of (cmd_Execute commandCdup env conn param))"
    "ftp_frame (cmd_RequireAuth commandCwd) conn (conn_of (cmd_Execute commandCwd env conn param))"
    "ftp_frame (cmd_RequireAuth commandMode) conn (conn_of (cmd_Execute commandMode env conn param))"
    "ftp_frame (cmd_RequireAuth commandNoop) conn (conn_of (cmd_Execute commandNoop env conn param))"
    "ftp_frame (cmd_RequireAuth commandPwd) conn (conn_of (cmd_Execute commandPwd env conn param))"
    "ftp_frame (cmd_RequireAuth commandQuit) conn (conn_of (cmd_Execute commandQuit env conn param))"
    "ftp_frame (cmd_RequireAuth commandRest) conn (conn_of (cmd_Execute commandRest env conn param))"
    "ftp_frame (cmd_RequireAuth commandRnfr) conn (conn_of (cmd_Execute commandRnfr env conn param))"
    "ftp_frame (cmd_RequireAuth commandAdat) conn (conn_of (cmd_Execute commandAdat env conn param))"
    "ftp_frame (cmd_RequireAuth commandAuth) conn (conn_of (cmd_Execute commandAuth env conn param))"
    "ftp_frame (cmd_RequireAuth commandCcc) conn (conn_of (cmd_Execute commandCcc env conn param))"
    "ftp_frame (cmd_RequireAuth commandEnc) conn (conn_of (cmd_Execute commandEnc env conn param))"
    "ftp_frame (cmd_RequireAuth commandMic) conn (conn_of (cmd_Execute commandMic env conn param))"
    "ftp_frame (cmd_RequireAuth commandPbsz) conn (conn_of (cmd_Execute commandPbsz env conn param))"
    "ftp_frame (cmd_RequireAuth commandProt) conn (conn_of (cmd_Execute commandProt env conn param))"
    "ftp_frame (cmd_RequireAuth commandConf) conn (conn_of (cmd_Execute commandConf env conn param))"
    "ftp_frame (cmd_RequireAuth commandStru) conn (conn_of (cmd_Execute commandStru env conn param))"
    "ftp_frame (cmd_RequireAuth commandSyst) conn (conn_of (cmd_Execute commandSyst env conn param))"
    "ftp_frame (cmd_RequireAuth commandType) conn (conn_of (cmd_Execute commandType env conn param))"
    by (simp_all add: simple_defs Let_def frame_same split: list.split)
  with assms show ?thesis by blast
qed

lemma frame_Dele: "ftp_frame (cmd_RequireAuth commandDele) conn (conn_of (cmd_Execute commandDele env conn param))"
  using driver_calls(4) by (auto simp: commandDele_def Let_def intro!: frame_calls split: prod.split sum.split)

lemma frame_List: "ftp_frame (cmd_RequireAuth commandList) conn (conn_of (cmd_Execute commandList env conn param))"
  using driver_calls(2) by (auto simp: commandList_def Let_def intro!: frame_calls split: prod.split sum.split)

lemma frame_Nlst: "ftp_frame (cmd_RequireAuth commandNlst) conn (conn_of (cmd_Execute commandNlst env conn param))"
  using driver_calls(2) by (auto simp: commandNlst_def Let_def intro!: frame_calls split: prod.split sum.split)

lemma frame_Mdtm: "ftp_frame (cmd_RequireAuth commandMdtm) conn (conn_of (cmd_Execute commandMdtm env conn param))"
  using driver_calls(1) by (auto simp: commandMdtm_def Let_def intro!: frame_calls split: prod.split sum.split)

lemma frame_Mkd: "ftp_frame (cmd_RequireAuth commandMkd) conn (conn_of (cmd_Execute commandMkd env conn param))"
  using driver_calls(6) by (auto simp: commandMkd_def Let_def intro!: frame_calls split: prod.split sum.split)

lemma frame_Rnto: "ftp_frame (cmd_RequireAuth commandRnto) conn (conn_of (cmd_Execute commandRnto env conn param))"
  using driver_calls(5) by (auto simp: commandRnto_def Let_def intro!: frame_calls split: prod.split sum.split)

lemma frame_Rmd: "ftp_frame (cmd_RequireAuth commandRmd) conn (conn_of (cmd_Execute commandRmd env conn param))"
  using driver_calls(3) by (auto simp: commandRmd_def Let_def intro!: frame_calls split: prod.split sum.split)

lemma frame_Size: "ftp_frame (cmd_RequireAuth commandSize) conn (conn_of (cmd_Execute commandSize env conn param))"
  using driver_calls(1) by (auto simp: commandSize_def Let_def intro!: frame_calls split: prod.split sum.split)

lemma frame_Eprt: "ftp_frame (cmd_RequireAuth commandEprt) conn (conn_of (cmd_Execute commandEprt env conn param))"
  by (auto simp: commandEprt_def Let_def frame_same intro!: guarded_frame connect_frame split: parsed.split)

lemma frame_Port: "ftp_frame (cmd_RequireAuth commandPort) conn (conn_of (cmd_Execute commandPort env conn param))"
  by (auto simp: commandPort_def Let_def frame_same intro!: guarded_frame connect_frame split: parsed.split)

lemma frame_Epsv: "ftp_frame (cmd_RequireAuth commandEpsv) conn (conn_of (cmd_Execute commandEpsv env conn param))"
  by (auto simp: commandEpsv_def Let_def frame_same intro!: guarded_frame split: option.split)

lemma frame_Pasv: "ftp_frame (cmd_RequireAuth commandPasv) conn (conn_of (cmd_Execute commandPasv env conn param))"
  by (auto simp: commandPasv_def Let_def frame_same intro!: guarded_frame split: option.split)

lemma frame_Retr: "ftp_frame (cmd_RequireAuth commandRetr) conn (conn_of (cmd_Execute commandRetr env conn param))"
proof -
  obtain r tr where r: "fs_GetFile (fe_os env) (fc_fs conn) (fc_trace conn) param (fc_lastFilePos conn) = (r, tr)" by fastforce
  let ?c = "conn\<lparr>fc_trace := tr, fc_lastFilePos := 0\<rparr>"
  have own: "\<exists>calls. tr = fc_trace conn @ calls \<and> own_calls (fc_fs conn) calls" using driver_calls(7) [OF r] .
  show ?thesis
  proof (cases r)
    case (Inl e)
    then show ?thesis using r own by (auto simp: commandRetr_def Let_def intro!: frame_calls)
  next
    case (Inr x)
    obtain sz data err where x: "x = (sz, data, err)" by (cases x) auto
    obtain c1 out where s: "sendOutofBandDataWriter (writeMessage ?c 150 (''Data transfer starting '' @ itoa_int sz @ '' bytes'')) data err = (c1, out)"
      by fastforce
    then have "fc_trace c1 = tr" "fc_fs c1 = fc_fs conn" "fc_user c1 = fc_user conn" "fc_reqUser c1 = fc_reqUser conn"
      using sendWriter_simps [of "writeMessage ?c 150 (''Data transfer starting '' @ itoa_int sz @ '' bytes'')" data err] by simp_all
    then have fr: "ftp_frame True conn c1" "ftp_frame True conn (writeMessage c1 551 ''File not available'')"
      using own by (auto intro!: frame_calls)
    consider "out = Inr ()" | e where "out = Inl (Error e)" | p where "out = Inl (Panic p)" by (metis failure.exhaust old.unit.exhaust sum.exhaust)
    then show ?thesis by cases (use r Inr x s fr in \<open>simp_all add: commandRetr_def Let_def\<close>)
  qed
qed

lemma frame_Stor: "ftp_frame (cmd_RequireAuth commandStor) conn (conn_of (cmd_Execute commandStor env conn param))"
proof -
  obtain r tr where r: "fs_PutFile (fe_os env) (fc_fs conn) (fc_trace conn) param (fc_dataConn conn) (fc_appendData (writeMessage conn 150 ''Data transfer starting'')) = (r, tr)"
    by fastforce
  have own: "\<exists>calls. tr = fc_trace conn @ calls \<and> own_calls (fc_fs conn) calls" using put_calls [OF r] .
  then show ?thesis
    using r by (auto simp: commandStor_def Let_def intro!: frame_calls split: sum.split failure.split)
qed

text \<open>The whole table.\<close>

lemmas frames = frame_Dele frame_List frame_Nlst frame_Mdtm frame_Mkd frame_Rnto frame_Rmd frame_Size frame_Eprt frame_Port
  frame_Epsv frame_Pasv frame_Retr frame_Stor

lemma commands_frame:
  assumes "map_of commands name = Some cmd" "name \<noteq> ''USER''" "name \<noteq> ''PASS''"
  shows "ftp_frame (cmd_RequireAuth cmd) conn (conn_of (cmd_Execute cmd env conn param))"
proof -
  have "cmd \<in> {commandAllo, commandAppe, commandOpts, commandFeat, commandCdup, commandCwd, commandMode, commandNoop, commandPwd, commandQuit, commandRest, commandRnfr, commandAdat, commandAuth, commandCcc, commandEnc, commandMic, commandPbsz, commandProt, commandConf, commandStru, commandSyst, commandType} \<or>
    cmd \<in> {commandDele, commandList, commandNlst, commandMdtm, commandMkd, commandRnto, commandRmd, commandSize, commandEprt, commandPort,
      commandEpsv, commandPasv, commandRetr, commandStor}"
    using assms by (auto simp: commands_def split: if_splits)
  then show ?thesis by (elim disjE) (erule frame_simple, auto simp: frames)
qed

lemma commands_login:
  "map_of commands ''USER'' = Some commandUser" "map_of commands ''PASS'' = Some commandPass"
  by (simp_all add: commands_def)

end
