(* ===== verification/Ftp_Session.thy ===== *)
theory Ftp_Session
  imports Ftp_Frame
begin

text \<open>
  What an FTP session can do: it stays inside the sandbox, it needs a login for it, it answers
  every command, and the commands that never return.
\<close>

section \<open>Replies\<close>

fun is_reply :: "ftp_out \<Rightarrow> bool" where
  "is_reply (Reply n m) = True"
| "is_reply (MultiReply n m) = True"
| "is_reply _ = False"

definition nreplies :: "ftp_Conn \<Rightarrow> nat" where
  "nreplies c = length (filter is_reply (fc_out c))"

text \<open>A command that is done has sent one or two replies; it does not diverge.\<close>

fun answers :: "ftp_Conn \<Rightarrow> ftp_outcome \<Rightarrow> bool" where
  "answers conn (Done c) \<longleftrightarrow> nreplies conn < nreplies c \<and> nreplies c \<le> nreplies conn + 2"
| "answers conn (Panicked c p) \<longleftrightarrow> True"
| "answers conn (Diverges c) \<longleftrightarrow> False"

lemma nreplies_simps [simp]:
  "nreplies (writeMessage c n m) = Suc (nreplies c)" "nreplies (writeMessageMultiline c n m) = Suc (nreplies c)"
  "nreplies (put_out c [CmdLogged l]) = nreplies c" "nreplies (put_out c [DataSent d]) = nreplies c" "nreplies (put_out c []) = nreplies c"
  "nreplies (close_data c) = nreplies c" "nreplies (conn_Close c) = nreplies c"
  "nreplies (c\<lparr>fc_dataConn := v1\<rparr>) = nreplies c" "nreplies (c\<lparr>fc_fs := v2\<rparr>) = nreplies c"
  "nreplies (c\<lparr>fc_reqUser := v3\<rparr>) = nreplies c" "nreplies (c\<lparr>fc_user := v4\<rparr>) = nreplies c"
  "nreplies (c\<lparr>fc_renameFrom := v5\<rparr>) = nreplies c" "nreplies (c\<lparr>fc_lastFilePos := v6\<rparr>) = nreplies c"
  "nreplies (c\<lparr>fc_appendData := v7\<rparr>) = nreplies c" "nreplies (c\<lparr>fc_closed := v8\<rparr>) = nreplies c"
  "nreplies (c\<lparr>fc_tls := v9\<rparr>) = nreplies c" "nreplies (c\<lparr>fc_featCmds := v10\<rparr>) = nreplies c"
  "nreplies (c\<lparr>fc_trace := v11\<rparr>) = nreplies c"
  by (simp_all add: nreplies_def writeMessage_def writeMessageMultiline_def put_out_def close_data_def conn_Close_def Let_def)

lemma nreplies_data [simp]: "nreplies (sendOutofbandData c d) = Suc (nreplies c)"
  by (simp add: sendOutofbandData_def Let_def split: option.split)

lemma nreplies_writer:
  "sendOutofBandDataWriter c d e = (c1, r) \<Longrightarrow>
   (case r of Inr u \<Rightarrow> nreplies c1 = Suc (nreplies c) | Inl (Error x) \<Rightarrow> nreplies c1 = nreplies c | Inl (Panic p) \<Rightarrow> True)"
  by (auto simp: sendOutofBandDataWriter_def Let_def split: option.splits if_splits)

lemma no_panic_results:
  "fst (fs_DeleteDir os fs tr p) \<noteq> Inl (Panic e)" "fst (fs_DeleteFile os fs tr p) \<noteq> Inl (Panic e)"
  "fst (fs_Rename os fs tr p q) \<noteq> Inl (Panic e)" "fst (fs_MakeDir os fs tr p) \<noteq> Inl (Panic e)"
proof -
  have u: "os_unit r \<noteq> Inl (Panic e)" and i: "os_info r \<noteq> Inl (Panic e)" for r by (cases r; simp)+
  show "fst (fs_DeleteFile os fs tr p) \<noteq> Inl (Panic e)" "fst (fs_Rename os fs tr p q) \<noteq> Inl (Panic e)"
    "fst (fs_MakeDir os fs tr p) \<noteq> Inl (Panic e)"
    using u by (auto simp: fs_DeleteFile_def fs_Rename_def fs_MakeDir_def Let_def)
  show "fst (fs_DeleteDir os fs tr p) \<noteq> Inl (Panic e)"
    using u i by (auto simp: fs_DeleteDir_def Let_def split: sum.splits if_splits)
qed

lemma answers_finish:
  assumes "\<And>e. fst d \<noteq> Inl (Panic e)" "\<And>tr. nreplies (g tr) = nreplies conn"
  shows "answers conn (case d of (r, tr) \<Rightarrow> Done (finish (g tr) r ok okmsg bad badmsg))"
proof -
  obtain r tr where d: "d = (r, tr)" by fastforce
  consider u where "r = Inr u" | e where "r = Inl (Error e)"
    using assms(1) by (metis d failure.exhaust fst_conv sum.exhaust)
  then show ?thesis by cases (simp_all add: d assms(2))
qed

lemma answers_guarded:
  "(\<And>e. r \<noteq> Inl (Error e)) \<Longrightarrow> (\<And>x. answers conn (f x)) \<Longrightarrow> answers conn (guarded r c f)"
  by (cases "(r, c, f)" rule: guarded.cases) auto

lemma no_error_results: "go_at xs i \<noteq> Inl (Error e)" "passiveListenIP env \<noteq> Inl (Error e)" "PassivePort env \<noteq> Inl (Error e)"
  by (auto simp: go_at_def passiveListenIP_def PassivePort_def Let_def split: net_addr.split list.split)

lemma answers_connect: "answers conn (connect_active env conn host port)"
  by (simp add: connect_active_def split: option.split)

lemma answers_Retr: "answers conn (cmd_Execute commandRetr env conn param)"
proof -
  obtain r tr where r: "fs_GetFile (fe_os env) (fc_fs conn) (fc_trace conn) param (fc_lastFilePos conn) = (r, tr)" by fastforce
  let ?c = "conn\<lparr>fc_trace := tr, fc_lastFilePos := 0\<rparr>"
  show ?thesis
  proof (cases r)
    case (Inl e)
    then show ?thesis using r by (simp add: commandRetr_def Let_def)
  next
    case (Inr x)
    obtain sz data err where x: "x = (sz, data, err)" by (cases x) auto
    obtain c1 out where s: "sendOutofBandDataWriter (writeMessage ?c 150 (''Data transfer starting '' @ itoa_int sz @ '' bytes'')) data err = (c1, out)"
      by fastforce
    consider "out = Inr ()" | e where "out = Inl (Error e)" | p where "out = Inl (Panic p)" by (metis failure.exhaust old.unit.exhaust sum.exhaust)
    then show ?thesis by cases (use r Inr x s nreplies_writer [OF s] in \<open>simp_all add: commandRetr_def Let_def\<close>)
  qed
qed

lemma answers_Stor: "answers conn (cmd_Execute commandStor env conn param)"
  by (simp add: commandStor_def Let_def split: sum.split failure.split prod.split)

lemma answers_files: "cmd \<in> {commandDele, commandMkd, commandRnto, commandRmd, commandList, commandNlst, commandMdtm, commandSize} \<Longrightarrow>
   answers conn (cmd_Execute cmd env conn param)"
  by (elim insertE emptyE)
    (simp_all add: commandDele_def commandMkd_def commandRnto_def commandRmd_def commandList_def commandNlst_def commandMdtm_def commandSize_def
        Let_def answers_finish no_panic_results split: prod.split sum.split del: split_paired_All)

lemma answers_sockets: "cmd \<in> {commandEprt, commandPort, commandEpsv, commandPasv} \<Longrightarrow> answers conn (cmd_Execute cmd env conn param)"
  by (elim insertE emptyE)
    (auto simp: commandEprt_def commandPort_def commandEpsv_def commandPasv_def Let_def no_error_results
        intro!: answers_guarded answers_connect split: option.split parsed.split)

lemma answers_simple:
  "cmd \<in> {commandAllo, commandAppe, commandOpts, commandFeat, commandMode, commandNoop, commandPwd, commandQuit,
     commandRest, commandRnfr, commandAdat, commandAuth, commandCcc, commandEnc, commandMic, commandPbsz, commandProt, commandConf,
     commandStru, commandSyst, commandType, commandPass, commandUser} \<Longrightarrow> answers conn (cmd_Execute cmd env conn param)"
  by (elim insertE emptyE) (simp_all add: simple_defs commandPass_def commandUser_def Let_def split: list.split)

lemma commands_answer:
  assumes "map_of commands name = Some cmd" "name \<notin> {''CDUP'', ''CWD'', ''XCUP'', ''XCWD''}"
  shows "answers conn (cmd_Execute cmd env conn param)"
proof -
  have "cmd \<in> {commandAllo, commandAppe, commandOpts, commandFeat, commandMode, commandNoop, commandPwd, commandQuit,
     commandRest, commandRnfr, commandAdat, commandAuth, commandCcc, commandEnc, commandMic, commandPbsz, commandProt, commandConf,
     commandStru, commandSyst, commandType, commandPass, commandUser} \<or>
    cmd \<in> {commandDele, commandMkd, commandRnto, commandRmd, commandList, commandNlst, commandMdtm, commandSize} \<or>
    cmd \<in> {commandEprt, commandPort, commandEpsv, commandPasv} \<or> cmd = commandRetr \<or> cmd = commandStor"
    using assms by (auto simp: commands_def split: if_splits)
  then show ?thesis
    by (elim disjE) (erule answers_simple, erule answers_files, erule answers_sockets, simp_all add: answers_Retr answers_Stor)
qed

section \<open>Sessions\<close>

definition line_is :: "string \<Rightarrow> string \<Rightarrow> string \<Rightarrow> bool" where
  "line_is cmd param line \<longleftrightarrow> ToUpper (fst (parseLine line)) = cmd \<and> snd (parseLine line) = param"

text \<open>A \<^verbatim>\<open>USER\<close> line with that name; one that is followed by a \<^verbatim>\<open>PASS\<close> line with the password of that user.\<close>

definition named_user :: "string list \<Rightarrow> string \<Rightarrow> bool" where
  "named_user ls u \<longleftrightarrow> (\<exists>pre l post. ls = pre @ l # post \<and> line_is ''USER'' u l)"

definition login :: "(string \<Rightarrow> string option) \<Rightarrow> string list \<Rightarrow> bool" where
  "login users ls \<longleftrightarrow> (\<exists>pre l post u p. ls = pre @ l # post \<and> named_user pre u \<and> line_is ''PASS'' p l \<and> users u = Some p)"

lemma named_user_append: "named_user ls u \<Longrightarrow> named_user (ls @ rest) u"
  unfolding named_user_def by (metis append.assoc append_Cons)

lemma login_append: "login users ls \<Longrightarrow> login users (ls @ rest)"
  unfolding login_def by (metis append.assoc append_Cons)

lemma receiveLine_cases:
  obtains (user) u where "line_is ''USER'' u line" "u \<noteq> []"
      "conn_of (receiveLine env conn line) = writeMessage ((put_out conn [CmdLogged line])\<lparr>fc_reqUser := u\<rparr>) 331 []"
  | (pass) p m where "line_is ''PASS'' p line" "fe_users env (fc_reqUser conn) = Some p"
      "conn_of (receiveLine env conn line) =
         writeMessage ((put_out conn [CmdLogged line])\<lparr>fc_user := fc_reqUser conn, fc_reqUser := []\<rparr>) 230 m"
  | (other) "ftp_frame (fc_user conn \<noteq> []) conn (conn_of (receiveLine env conn line))"
proof -
  let ?c = "put_out conn [CmdLogged line]" and ?name = "ToUpper (fst (parseLine line))" and ?param = "snd (parseLine line)"
  have same: "ftp_frame (fc_user conn \<noteq> []) conn (writeMessage ?c n m)" for n m by (rule frame_same) simp_all
  have frame: "ftp_frame a ?c c' \<Longrightarrow> (a \<Longrightarrow> fc_user conn \<noteq> []) \<Longrightarrow> ftp_frame (fc_user conn \<noteq> []) conn c'" for a c'
    by (auto simp: ftp_frame_def)
  show thesis
  proof (cases "map_of commands ?name")
    case None
    then show ?thesis using same other by (simp add: receiveLine_def split_beta)
  next
    case (Some cmd)
    consider "cmd_RequireParam cmd \<and> ?param = []" | "\<not> (cmd_RequireParam cmd \<and> ?param = [])" "cmd_RequireAuth cmd \<and> fc_user ?c = []"
      | "\<not> (cmd_RequireParam cmd \<and> ?param = [])" "\<not> (cmd_RequireAuth cmd \<and> fc_user ?c = [])" by blast
    then show ?thesis
    proof cases
      case 1
      then show ?thesis using Some same other by (simp add: receiveLine_def split_beta)
    next
      case 2
      then show ?thesis using Some same other by (auto simp: receiveLine_def split_beta Let_def)
    next
      case 3
      then have r: "receiveLine env conn line = cmd_Execute cmd env ?c ?param"
        using Some unfolding receiveLine_def by (auto simp: split_beta Let_def)
      consider "?name = ''USER''" | "?name = ''PASS''" | "?name \<noteq> ''USER''" "?name \<noteq> ''PASS''" by blast
      then show ?thesis
      proof cases
        case 1
        then have "cmd = commandUser" using Some commands_login by simp
        then show ?thesis using user [of ?param] 1 3 r by (simp add: line_is_def commandUser_def)
      next
        case 2
        then have "cmd = commandPass" using Some commands_login by simp
        then show ?thesis using pass [of ?param] same other 2 r by (auto simp: line_is_def commandPass_def CheckPasswd_def split: if_splits)
      next
        case 3
        show ?thesis
          by (rule other) (use frame [OF commands_frame [OF Some 3, of ?c env ?param]] \<open>\<not> (cmd_RequireAuth cmd \<and> fc_user ?c = [])\<close> r in auto)
      qed
    qed
  qed
qed

text \<open>The invariant of the session after the lines \<open>ls\<close>.\<close>

definition ftp_inv :: "ftp_env \<Rightarrow> Htfs \<Rightarrow> string list \<Rightarrow> ftp_Conn \<Rightarrow> bool" where
  "ftp_inv env fs ls c \<longleftrightarrow> fc_fs c = fs \<and> own_calls fs (fc_trace c) \<and>
     (fc_reqUser c \<noteq> [] \<longrightarrow> named_user ls (fc_reqUser c)) \<and> (fc_user c \<noteq> [] \<longrightarrow> login (fe_users env) ls) \<and>
     (fc_trace c \<noteq> [] \<longrightarrow> login (fe_users env) ls)"

lemma ftp_inv_append: "ftp_inv env fs ls c \<Longrightarrow> ftp_inv env fs (ls @ rest) c"
  using named_user_append login_append by (auto simp: ftp_inv_def)

lemma receiveLine_inv:
  assumes "ftp_inv env fs ls conn"
  shows "ftp_inv env fs (ls @ [line]) (conn_of (receiveLine env conn line))"
proof (cases rule: receiveLine_cases [of line env conn])
  case (user u)
  have "named_user (ls @ [line]) u" using user(1) unfolding named_user_def by blast
  then show ?thesis using ftp_inv_append [OF assms, of "[line]"] user(3) by (simp add: ftp_inv_def)
next
  case (pass p m)
  have "login (fe_users env) (ls @ [line])" if "fc_reqUser conn \<noteq> []"
    using that pass(1,2) assms unfolding login_def ftp_inv_def by blast
  then show ?thesis using ftp_inv_append [OF assms, of "[line]"] pass(3) by (simp add: ftp_inv_def)
next
  case other
  then show ?thesis using ftp_inv_append [OF assms, of "[line]"] by (auto simp: ftp_inv_def ftp_frame_def)
qed

lemma ftp_inv_Close: "ftp_inv env fs ls (conn_Close c) \<longleftrightarrow> ftp_inv env fs ls c"
  by (simp add: ftp_inv_def)

lemma serve_loop_inv: "ftp_inv env fs ls conn \<Longrightarrow> ftp_inv env fs (ls @ lines) (conn_of (serve_loop env conn lines))"
proof (induction lines arbitrary: ls conn)
  case (Cons l rest)
  have step: "ftp_inv env fs (ls @ [l]) (conn_of (receiveLine env conn l))" by (rule receiveLine_inv [OF Cons.prems])
  show ?case
  proof (cases "receiveLine env conn l")
    case (Done c)
    then show ?thesis
      using Cons.IH [of "ls @ [l]" c] step ftp_inv_append [of env fs "ls @ [l]" c rest] by (simp add: ftp_inv_Close)
  qed (use step ftp_inv_append [of env fs "ls @ [l]" _ rest] in auto)
qed (simp add: ftp_inv_Close)

lemma ftp_Serve_inv: "ftp_inv env fs lines (conn_of (ftp_Serve env (ftp_newConn fs tls feat) lines))"
  using serve_loop_inv [of env fs "[]" "writeMessage (ftp_newConn fs tls feat) 220 (fe_WelcomeMessage env)" lines]
  by (simp add: ftp_Serve_def ftp_inv_def ftp_newConn_def)

lemma receiveLine_answers:
  assumes "ToUpper (fst (parseLine line)) \<notin> {''CDUP'', ''CWD'', ''XCUP'', ''XCWD''}"
  shows "answers conn (receiveLine env conn line)"
proof -
  have "answers (put_out conn [CmdLogged line]) (receiveLine env conn line)"
    using commands_answer [OF _ assms] unfolding receiveLine_def by (simp add: split_beta Let_def split: option.split)
  then show ?thesis by (cases "receiveLine env conn line") simp_all
qed

lemma serve_loop_ends:
  "\<forall>l \<in> set lines. ToUpper (fst (parseLine l)) \<notin> {''CDUP'', ''CWD'', ''XCUP'', ''XCWD''} \<Longrightarrow>
   case serve_loop env conn lines of Done c \<Rightarrow> fc_closed c \<and> nreplies conn \<le> nreplies c | Panicked c p \<Rightarrow> True | Diverges c \<Rightarrow> False"
proof (induction lines arbitrary: conn)
  case (Cons l rest)
  have "answers conn (receiveLine env conn l)" using Cons.prems by (intro receiveLine_answers) simp
  then show ?case using Cons.IH [of "conn_of (receiveLine env conn l)"] Cons.prems
    by (cases "receiveLine env conn l") (auto split: ftp_outcome.splits)
qed simp

lemma commands_dirs:
  "map_of commands ''CWD'' = Some commandCwd" "map_of commands ''XCWD'' = Some commandCwd"
  "map_of commands ''CDUP'' = Some commandCdup" "map_of commands ''XCUP'' = Some commandCdup"
  by (simp_all add: commands_def)

lemma receiveLine_run:
  assumes "map_of commands (ToUpper (fst (parseLine l))) = Some cmd" "cmd_RequireParam cmd \<Longrightarrow> snd (parseLine l) \<noteq> []"
    and "cmd_RequireAuth cmd \<Longrightarrow> fc_user conn \<noteq> []"
  shows "receiveLine env conn l = cmd_Execute cmd env (put_out conn [CmdLogged l]) (snd (parseLine l))"
  using assms unfolding receiveLine_def by (auto simp: split_beta Let_def)

lemma seek_end_nothing: "0 \<le> offset \<Longrightarrow> seek_end offset content = []"
  by (simp add: seek_end_def)

section \<open>Properties\<close>

text \<open>
  C3: an FTP session stays inside its sandbox. Whatever lines a client sends, and however the operating system
  replies, every path of every file operation the session makes is inside the root of the file system that the service
  was set up with.
\<close>

theorem ftp_confined:
  assumes "htfs_New os base name sroot = Inr fs"
    and "c \<in> set (fc_trace (conn_of (ftp_Serve env (ftp_newConn fs tls feat) lines)))" "p \<in> set (call_paths c)"
  shows "inside (fs_root fs) p"
proof -
  obtain q where "p = RealPath fs q"
    using ftp_Serve_inv [of env fs lines tls feat] assms(2,3) unfolding ftp_inv_def own_calls_def by blast
  then show ?thesis using htfs_New_inv [OF assms(1)] ht.confined [of fs q] by simp
qed

text \<open>
  C10: files are touched only after a login. If a session makes any file operation at all, the client sent
  a \<^verbatim>\<open>USER\<close> line and later a \<^verbatim>\<open>PASS\<close> line with the password that the authentication has for that user.
\<close>

theorem ftp_requires_login:
  assumes "fc_trace (conn_of (ftp_Serve env (ftp_newConn fs tls feat) lines)) \<noteq> []"
  shows "\<exists>a l1 b l2 d u p. lines = a @ [l1] @ b @ [l2] @ d \<and> line_is ''USER'' u l1 \<and> line_is ''PASS'' p l2 \<and> fe_users env u = Some p"
proof -
  have "login (fe_users env) lines" using ftp_Serve_inv [of env fs lines tls feat] assms by (simp add: ftp_inv_def)
  then show ?thesis unfolding login_def named_user_def by (metis append.assoc append_Cons append_Nil)
qed

text \<open>
  C26: every command is answered. Unless it changes the directory, a line of the client, known command or not, allowed or
  not, is answered with one or two replies or the command panics; and a session of such lines comes to an end: it
  panics, or it is closed after the greeting was sent.
\<close>

theorem ftp_answers:
  assumes "\<forall>l \<in> set lines. ToUpper (fst (parseLine l)) \<notin> {''CDUP'', ''CWD'', ''XCUP'', ''XCWD''}"
  shows "(\<forall>l \<in> set lines. case receiveLine env conn l of
       Done c \<Rightarrow> nreplies conn < nreplies c \<and> nreplies c \<le> nreplies conn + 2 | Panicked c p \<Rightarrow> True | Diverges c \<Rightarrow> False) \<and>
     (case ftp_Serve env conn lines of Done c \<Rightarrow> fc_closed c \<and> nreplies conn < nreplies c | Panicked c p \<Rightarrow> True | Diverges c \<Rightarrow> False)"
proof -
  have "\<forall>l \<in> set lines. answers conn (receiveLine env conn l)" using assms receiveLine_answers by blast
  then have "\<forall>l \<in> set lines. case receiveLine env conn l of
       Done c \<Rightarrow> nreplies conn < nreplies c \<and> nreplies c \<le> nreplies conn + 2 | Panicked c p \<Rightarrow> True | Diverges c \<Rightarrow> False"
    by (auto split: ftp_outcome.split)
  then show ?thesis
    using serve_loop_ends [OF assms, of "writeMessage conn 220 (fe_WelcomeMessage env)" env]
    by (auto simp: ftp_Serve_def Suc_le_eq split: ftp_outcome.split)
qed

text \<open>
  C33: changing the directory never returns. \<^verbatim>\<open>ChangeDir\<close> of the driver calls itself instead of the method it
  embeds, so when a client that is logged in sends \<^verbatim>\<open>CWD\<close>, \<^verbatim>\<open>XCWD\<close>, \<^verbatim>\<open>CDUP\<close> or \<^verbatim>\<open>XCUP\<close> (with a parameter,
  where one is required), the session does not come to an end, whatever follows.
\<close>

theorem ftp_cwd_diverges:
  assumes "fc_user conn \<noteq> []" "line_is cmd param l"
    and "cmd \<in> {''CWD'', ''XCWD''} \<and> param \<noteq> [] \<or> cmd \<in> {''CDUP'', ''XCUP''}"
  shows "serve_loop env conn (l # lines) = Diverges (put_out conn [CmdLogged l])"
proof -
  obtain c where c: "map_of commands cmd = Some c" "c = commandCwd \<and> param \<noteq> [] \<or> c = commandCdup"
    using assms(3) commands_dirs by fastforce
  then have "receiveLine env conn l = cmd_Execute c env (put_out conn [CmdLogged l]) param"
    using assms(1,2) receiveLine_run [of l c conn env] by (auto simp: line_is_def commandCdup_def)
  then show ?thesis using c(2) by (auto simp: commandCwd_def commandCdup_def cwd_Execute_def fs_ChangeDir_never)
qed

text \<open>
  Downloads are empty. The driver seeks from the end of the file, so for a client that has a data connection
  and asks for a file that can be opened and read, from the start or from a
  later position, \<^verbatim>\<open>RETR\<close> announces the size of the file, sends no byte, and reports success.
\<close>

theorem ftp_retr_sends_nothing:
  assumes "fe_os env (fc_trace conn) (Open (RealPath (fc_fs conn) path)) = OsFile sz content None"
    and "fc_dataConn conn = Some ds" "0 \<le> fc_lastFilePos conn"
  shows "\<exists>c. cmd_Execute commandRetr env conn path = Done c \<and> fc_dataConn c = None \<and>
    fc_out c = fc_out conn @ [Reply 150 (''Data transfer starting '' @ itoa_int sz @ '' bytes''), DataSent [],
      Reply 226 (''Closing data connection, sent '' @ itoa 0 @ '' bytes''), DataClosed]"
proof -
  have "fs_GetFile (fe_os env) (fc_fs conn) (fc_trace conn) path (fc_lastFilePos conn) =
      (Inr (sz, [], None), fc_trace conn @ [Open (RealPath (fc_fs conn) path)])"
    using assms by (simp add: fs_GetFile_def seek_end_nothing)
  then show ?thesis
    using assms(2) by (simp add: commandRetr_def sendOutofBandDataWriter_def Let_def writeMessage_def close_data_def put_out_def)
qed

definition sample_ftp_env :: ftp_env where
  "sample_ftp_env = \<lparr>fe_os = (\<lambda>tr c. case c of Open p \<Rightarrow> OsFile 3 [1, 2, 3] None | _ \<Rightarrow> OsOk), fe_users = [''joe'' \<mapsto> ''pw''],
     fe_active = (\<lambda>h p. None), fe_passive = (\<lambda>p. Some \<lparr>ds_Port = 7, ds_input = [], ds_readErr = None, ds_writeOk = True\<rparr>),
     fe_PublicIP = [], fe_LocalAddr = TCPAddr [] 21, fe_PassivePorts = [], fe_Intn = (\<lambda>n. 0), fe_handshake = False,
     fe_WelcomeMessage = ''hi'', fe_stamp = (\<lambda>t. []), fe_listtime = (\<lambda>t. [])\<rparr>"

definition sample_ftp_lines :: "string list" where
  "sample_ftp_lines = [''USER joe'' @ CRLF, ''PASS pw'' @ CRLF, ''DELE x'' @ CRLF]"

definition sample_ftp_conn :: ftp_Conn where
  "sample_ftp_conn = (ftp_newConn \<lparr>fs_root = ''/srv/ftp/data'', fs_cwd = ''/''\<rparr> False [])\<lparr>fc_user := ''joe'',
     fc_dataConn := Some \<lparr>ds_Port = 7, ds_input = [], ds_readErr = None, ds_writeOk = True\<rparr>\<rparr>"

lemma sample_parse:
  "parseLine (''USER joe'' @ CRLF) = (''USER'', ''joe'')" "parseLine (''PASS pw'' @ CRLF) = (''PASS'', ''pw'')"
  "parseLine (''DELE x'' @ CRLF) = (''DELE'', ''x'')" "parseLine (''CWD pub'' @ CRLF) = (''CWD'', ''pub'')"
  "ToUpper ''USER'' = ''USER''" "ToUpper ''PASS'' = ''PASS''" "ToUpper ''DELE'' = ''DELE''" "ToUpper ''CWD'' = ''CWD''"
  by code_simp+

lemma sample_dele: "map_of commands ''DELE'' = Some commandDele"
  by (simp add: commands_def)

lemma closed_put_out [simp]: "fc_closed (put_out c os) = fc_closed c"
  by (simp add: put_out_def)

lemma sample_trace:
  "fc_trace (conn_of (ftp_Serve sample_ftp_env (ftp_newConn fs False []) sample_ftp_lines)) = [Remove (RealPath fs ''x'')]"
  using commands_login sample_dele
  by (simp add: sample_ftp_lines_def ftp_Serve_def receiveLine_def sample_parse commandUser_def commandPass_def commandDele_def
      CheckPasswd_def sample_ftp_env_def ftp_newConn_def fs_DeleteFile_def del: append.simps)

theorem ftp_confined_witness:
  "\<exists>fs. htfs_New sample_new ''/srv'' ''ftp'' ''data'' = Inr fs \<and>
     (\<forall>p. p \<in> set (call_paths (Remove (RealPath fs ''x''))) \<longrightarrow> inside (fs_root fs) p)"
proof -
  obtain fs where fs: "htfs_New sample_new ''/srv'' ''ftp'' ''data'' = Inr fs"
    by (auto simp: htfs_New_def sample_new_def Clean_def path_of_def IsAbs_def HasPrefix_def)
  show ?thesis
    using ftp_confined [OF fs, of "Remove (RealPath fs ''x'')" sample_ftp_env False "[]" sample_ftp_lines] fs by (auto simp: sample_trace)
qed

theorem ftp_requires_login_witness:
  "\<exists>a l1 b l2 d u p. sample_ftp_lines = a @ [l1] @ b @ [l2] @ d \<and> line_is ''USER'' u l1 \<and> line_is ''PASS'' p l2 \<and>
     fe_users sample_ftp_env u = Some p"
  by (rule ftp_requires_login [of _ "\<lparr>fs_root = ''/srv'', fs_cwd = ''/''\<rparr>" False "[]"]) (simp add: sample_trace)

theorem ftp_answers_witness:
  "case ftp_Serve sample_ftp_env sample_ftp_conn sample_ftp_lines of
     Done c \<Rightarrow> fc_closed c \<and> nreplies sample_ftp_conn < nreplies c | Panicked c p \<Rightarrow> True | Diverges c \<Rightarrow> False"
proof -
  have "\<forall>l \<in> set sample_ftp_lines. ToUpper (fst (parseLine l)) \<notin> {''CDUP'', ''CWD'', ''XCUP'', ''XCWD''}"
    by (simp add: sample_ftp_lines_def sample_parse del: append.simps)
  from ftp_answers [OF this, of sample_ftp_conn sample_ftp_env] show ?thesis by blast
qed

theorem ftp_cwd_diverges_witness:
  "serve_loop sample_ftp_env sample_ftp_conn [''CWD pub'' @ CRLF] = Diverges (put_out sample_ftp_conn [CmdLogged (''CWD pub'' @ CRLF)])"
  by (rule ftp_cwd_diverges [of _ "''CWD''" "''pub''"]) (simp_all add: sample_ftp_conn_def line_is_def sample_parse del: append.simps)

theorem ftp_retr_sends_nothing_witness:
  "\<exists>c. cmd_Execute commandRetr sample_ftp_env sample_ftp_conn ''f'' = Done c \<and> DataSent [] \<in> set (fc_out c)"
  using ftp_retr_sends_nothing [of sample_ftp_env sample_ftp_conn "''f''" 3 "[1, 2, 3]"] by (auto simp: sample_ftp_env_def sample_ftp_conn_def ftp_newConn_def)

end
