(* ===== verification/Service_Decoder.thy ===== *)
theory Service_Decoder
  imports Go_Strings
begin

text \<open>
  The byte decoder and encoder that the IPP and SSH services use (\<^verbatim>\<open>services/decoder\<close>). A read that
  does not fit leaves the offset and yields a zero; the decoder remembers the error. Lengths come from the
  wire, so they may be negative.
\<close>

section \<open>Decoder\<close>

record ErrOutOfBounds =
  oob_Min :: int
  oob_Max :: int
  oob_Got :: int

definition oob_Error :: "ErrOutOfBounds \<Rightarrow> string" where
  "oob_Error e = ''Index out of bounds! min: '' @ itoa_int (oob_Min e) @ '', max: '' @ itoa_int (oob_Max e) @ '' got: '' @ itoa_int (oob_Got e)"

record Decode =
  dec_offset :: nat
  dec_data :: bytes
  dec_lasterror :: "ErrOutOfBounds option"

definition dec_New :: "bytes \<Rightarrow> Decode" where
  "dec_New data = \<lparr>dec_offset = 0, dec_data = data, dec_lasterror = None\<rparr>"

definition LastError :: "Decode \<Rightarrow> ErrOutOfBounds option" where
  "LastError d = dec_lasterror d"

definition Available :: "Decode \<Rightarrow> int" where
  "Available d = int (length (dec_data d)) - int (dec_offset d)"

definition HasBytes :: "Decode \<Rightarrow> int \<Rightarrow> ErrOutOfBounds option" where
  "HasBytes d sz =
     (let pos = int (dec_offset d) + sz in
      if 0 \<le> pos \<and> pos \<le> int (length (dec_data d)) then None
      else Some \<lparr>oob_Min = 0, oob_Max = int (length (dec_data d)), oob_Got = pos\<rparr>)"

text \<open>After a successful check the slices of the code are within the data.\<close>

definition dec_Byte :: "Decode \<Rightarrow> byte \<times> Decode" where
  "dec_Byte d = (case HasBytes d 1 of
     Some err \<Rightarrow> (0, d\<lparr>dec_lasterror := Some err\<rparr>)
   | None \<Rightarrow> (dec_data d ! dec_offset d, d\<lparr>dec_offset := dec_offset d + 1\<rparr>))"

definition dec_Int16 :: "Decode \<Rightarrow> u16 \<times> Decode" where
  "dec_Int16 d = (case HasBytes d 2 of
     Some err \<Rightarrow> (0, d\<lparr>dec_lasterror := Some err\<rparr>)
   | None \<Rightarrow> (be16 (dec_data d ! dec_offset d) (dec_data d ! (dec_offset d + 1)), d\<lparr>dec_offset := dec_offset d + 2\<rparr>))"

definition dec_Uint32 :: "Decode \<Rightarrow> u32 \<times> Decode" where
  "dec_Uint32 d = (case HasBytes d 4 of
     Some err \<Rightarrow> (0, d\<lparr>dec_lasterror := Some err\<rparr>)
   | None \<Rightarrow> (be32 (dec_data d ! dec_offset d) (dec_data d ! (dec_offset d + 1)) (dec_data d ! (dec_offset d + 2)) (dec_data d ! (dec_offset d + 3)),
       d\<lparr>dec_offset := dec_offset d + 4\<rparr>))"

text \<open>The bits of an \<^verbatim>\<open>int32\<close> are those of the \<^verbatim>\<open>uint32\<close>.\<close>

definition dec_Int32 :: "Decode \<Rightarrow> u32 \<times> Decode" where
  "dec_Int32 d = (case HasBytes d 4 of
     Some err \<Rightarrow> (0, d\<lparr>dec_lasterror := Some err\<rparr>)
   | None \<Rightarrow> (be32 (dec_data d ! dec_offset d) (dec_data d ! (dec_offset d + 1)) (dec_data d ! (dec_offset d + 2)) (dec_data d ! (dec_offset d + 3)),
       d\<lparr>dec_offset := dec_offset d + 4\<rparr>))"

text \<open>\<^verbatim>\<open>make\<close> panics for a negative size, which the check lets through when the offset is large enough.\<close>

definition dec_Copy :: "Decode \<Rightarrow> int \<Rightarrow> (bytes \<times> Decode) result" where
  "dec_Copy d sz = (case HasBytes d sz of
     Some err \<Rightarrow> Inr ([], d\<lparr>dec_lasterror := Some err\<rparr>)
   | None \<Rightarrow>
       if sz < 0 then Inl (Panic (ExplicitPanic ''makeslice: len out of range''))
       else Inr (take (nat sz) (drop (dec_offset d) (dec_data d)), d\<lparr>dec_offset := dec_offset d + nat sz\<rparr>))"

definition dec_Data :: "Decode \<Rightarrow> (string \<times> Decode) result" where
  "dec_Data d = (case dec_Int16 d of (l, d1) \<Rightarrow> bindR (dec_Copy d1 (sint l)) (\<lambda>(bs, d2). Inr (string_of_bytes bs, d2)))"

definition dec_PeekByte :: "Decode \<Rightarrow> byte \<times> Decode" where
  "dec_PeekByte d = (case HasBytes d 1 of
     Some err \<Rightarrow> (0, d\<lparr>dec_lasterror := Some err\<rparr>) | None \<Rightarrow> (dec_data d ! dec_offset d, d))"

definition dec_PeekInt16 :: "Decode \<Rightarrow> u16 \<times> Decode" where
  "dec_PeekInt16 d = (case HasBytes d 2 of
     Some err \<Rightarrow> (0, d\<lparr>dec_lasterror := Some err\<rparr>)
   | None \<Rightarrow> (be16 (dec_data d ! dec_offset d) (dec_data d ! (dec_offset d + 1)), d))"

definition dec_Seek :: "Decode \<Rightarrow> int \<Rightarrow> Decode" where
  "dec_Seek d pos = (case HasBytes d pos of
     None \<Rightarrow> d\<lparr>dec_offset := nat (int (dec_offset d) + pos)\<rparr> | Some err \<Rightarrow> d\<lparr>dec_lasterror := Some err\<rparr>)"

section \<open>Encoder\<close>

definition WriteUint8 :: "bytes \<Rightarrow> byte \<Rightarrow> bytes" where
  "WriteUint8 e b = e @ [b]"

definition WriteUint16 :: "bytes \<Rightarrow> u16 \<Rightarrow> bytes" where
  "WriteUint16 e v = e @ put_be16 v"

definition WriteUint32 :: "bytes \<Rightarrow> u32 \<Rightarrow> bytes" where
  "WriteUint32 e v = e @ put_be32 v"

definition enc_WriteData :: "bytes \<Rightarrow> string \<Rightarrow> bool \<Rightarrow> bytes" where
  "enc_WriteData e v zero = (if zero then WriteUint16 e 0 else WriteUint16 e (of_nat (length v)) @ bytes_of_string v)"

section \<open>Properties of the decoder\<close>

text \<open>What is behind the offset; a decoder with some bytes already consumed.\<close>

definition at :: "bytes \<Rightarrow> bytes \<Rightarrow> ErrOutOfBounds option \<Rightarrow> Decode" where
  "at used rest err = \<lparr>dec_offset = length used, dec_data = used @ rest, dec_lasterror = err\<rparr>"

definition dec_inv :: "Decode \<Rightarrow> bool" where
  "dec_inv d \<longleftrightarrow> dec_offset d \<le> length (dec_data d)"

lemma dec_New_at: "dec_New data = at [] data None"
  by (simp add: dec_New_def at_def)

lemma Byte_at [simp]: "dec_Byte (at us (b # rest) e) = (b, at (us @ [b]) rest e)"
  by (simp add: dec_Byte_def HasBytes_def at_def)

lemma Int16_at [simp]: "dec_Int16 (at us (put_be16 v @ rest) e) = (v, at (us @ put_be16 v) rest e)"
  by (simp add: dec_Int16_def HasBytes_def at_def put_be16_def nth_append)

lemma Uint32_at [simp]: "dec_Uint32 (at us (put_be32 v @ rest) e) = (v, at (us @ put_be32 v) rest e)"
  by (simp add: dec_Uint32_def HasBytes_def at_def put_be32_def nth_append)

lemma Int32_at [simp]: "dec_Int32 (at us (put_be32 v @ rest) e) = (v, at (us @ put_be32 v) rest e)"
  by (simp add: dec_Int32_def HasBytes_def at_def put_be32_def nth_append)

lemma Copy_at: "n = int (length bs) \<Longrightarrow> dec_Copy (at us (bs @ rest) e) n = Inr (bs, at (us @ bs) rest e)"
  by (simp add: dec_Copy_def HasBytes_def at_def)

lemma Seek_at: "n = - int (length bs) \<Longrightarrow> dec_Seek (at (us @ bs) rest e) n = at us (bs @ rest) e"
  by (simp add: dec_Seek_def HasBytes_def at_def)

lemma Available_at [simp]: "Available (at us rest e) = int (length rest)"
  by (simp add: Available_def at_def)

lemma LastError_at [simp]: "LastError (at us rest e) = e"
  by (simp add: LastError_def at_def)

lemma sint_length: "n < 2 ^ 15 \<Longrightarrow> sint (of_nat n :: u16) = int n"
  by (simp add: signed_of_nat signed_take_bit_int_eq_self)

lemma length_bytes_of_string [simp]: "length (bytes_of_string s) = length s"
  by (simp add: bytes_of_string_def)

lemma Data_at:
  assumes "length s < 2 ^ 15"
  shows "dec_Data (at us (put_be16 (of_nat (length s)) @ bytes_of_string s @ rest) e) =
    Inr (s, at (us @ put_be16 (of_nat (length s)) @ bytes_of_string s) rest e)"
  using assms Copy_at [of "int (length s)" "bytes_of_string s" "us @ put_be16 (of_nat (length s))" rest e]
  by (simp add: dec_Data_def sint_length)

lemma dec_inv_at [simp]: "dec_inv (at us rest e)"
  by (simp add: dec_inv_def at_def)

lemma HasBytes_inv: "HasBytes d n = None \<Longrightarrow> int (dec_offset d) + n \<le> int (length (dec_data d)) \<and> 0 \<le> int (dec_offset d) + n"
  by (simp add: HasBytes_def Let_def split: if_splits)

lemma dec_inv_ops:
  assumes "dec_inv d"
  shows "dec_inv (snd (dec_Byte d))" "dec_inv (snd (dec_Int16 d))" "dec_inv (snd (dec_Uint32 d))" "dec_inv (snd (dec_Int32 d))"
    "dec_inv (snd (dec_PeekByte d))" "dec_inv (snd (dec_PeekInt16 d))" "dec_inv (dec_Seek d n)"
    "dec_Copy d n = Inr (bs, d') \<Longrightarrow> dec_inv d'" "dec_Data d = Inr (s, d'') \<Longrightarrow> dec_inv d''"
proof -
  show "dec_inv (snd (dec_Byte d))" "dec_inv (snd (dec_Uint32 d))" "dec_inv (snd (dec_Int32 d))" "dec_inv (dec_Seek d n)"
    "dec_inv (snd (dec_PeekByte d))" "dec_inv (snd (dec_PeekInt16 d))"
    using assms
    by (auto simp: dec_inv_def dec_Byte_def dec_Uint32_def dec_Int32_def dec_Seek_def dec_PeekByte_def dec_PeekInt16_def
        dest!: HasBytes_inv split: option.split)
  have i: "dec_inv d1 \<Longrightarrow> dec_inv (snd (dec_Int16 d1))" for d1
    by (auto simp: dec_inv_def dec_Int16_def dest!: HasBytes_inv split: option.split)
  have c: "dec_inv d1 \<Longrightarrow> dec_Copy d1 m = Inr (x, d2) \<Longrightarrow> dec_inv d2" for d1 m x d2
    by (auto simp: dec_inv_def dec_Copy_def dest!: HasBytes_inv split: option.splits if_splits)
  show "dec_inv (snd (dec_Int16 d))" by (rule i [OF assms])
  show "dec_Copy d n = Inr (bs, d') \<Longrightarrow> dec_inv d'" by (rule c [OF assms])
  show "dec_Data d = Inr (s, d'') \<Longrightarrow> dec_inv d''"
    using i [OF assms] c by (fastforce simp: dec_Data_def bindR_Inr_iff split: prod.splits)
qed

text \<open>Reads at the end of the data.\<close>

lemma short_reads:
  assumes "dec_offset d = length (dec_data d)"
  shows "\<exists>err. dec_Byte d = (0, d\<lparr>dec_lasterror := Some err\<rparr>)" "\<exists>err. dec_Int16 d = (0, d\<lparr>dec_lasterror := Some err\<rparr>)"
    "\<exists>err. dec_Uint32 d = (0, d\<lparr>dec_lasterror := Some err\<rparr>)"
  using assms by (auto simp: dec_Byte_def dec_Int16_def dec_Uint32_def HasBytes_def Let_def)

end
