(* ===== verification/Ipp.thy ===== *)
theory Ipp
  imports Service_Decoder Go_Text Events
begin

text \<open>
  The IPP service (\<^verbatim>\<open>services/ipp\<close>): attribute values, groups and messages with their encodings, the
  answer to a request, and the handling of an HTTP request. Loops that need not end are partial functions
  whose value \<open>None\<close> is not returning.
\<close>

section \<open>Values\<close>

datatype ValueType =
    ValInt byte string "u32 list"
  | ValStr byte string "string list"
  | ValBool byte string "bool list"
  | ValRangeInt byte string u32 u32

fun val_Tag :: "ValueType \<Rightarrow> byte" where
  "val_Tag (ValInt t n v) = t"
| "val_Tag (ValStr t n v) = t"
| "val_Tag (ValBool t n v) = t"
| "val_Tag (ValRangeInt t n l h) = t"

fun valInt_encode :: "bytes \<Rightarrow> byte \<Rightarrow> string \<Rightarrow> bool \<Rightarrow> u32 list \<Rightarrow> bytes" where
  "valInt_encode buf tag name z [] = buf"
| "valInt_encode buf tag name z (v # vs) =
     valInt_encode (WriteUint32 (WriteUint16 (enc_WriteData (WriteUint8 buf tag) name z) 4) v) tag name True vs"

fun valStr_encode :: "bytes \<Rightarrow> byte \<Rightarrow> string \<Rightarrow> bool \<Rightarrow> string list \<Rightarrow> bytes" where
  "valStr_encode buf tag name z [] = buf"
| "valStr_encode buf tag name z (v # vs) =
     valStr_encode (enc_WriteData (enc_WriteData (WriteUint8 buf tag) name z) v False) tag name True vs"

fun valBool_encode :: "bytes \<Rightarrow> byte \<Rightarrow> string \<Rightarrow> bool \<Rightarrow> bool list \<Rightarrow> bytes" where
  "valBool_encode buf tag name z [] = buf"
| "valBool_encode buf tag name z (v # vs) =
     valBool_encode (WriteUint8 (WriteUint16 (enc_WriteData (WriteUint8 buf tag) name z) 1) (if v then 1 else 0)) tag name True vs"

definition valRangeInt_encode :: "bytes \<Rightarrow> byte \<Rightarrow> string \<Rightarrow> u32 \<Rightarrow> u32 \<Rightarrow> bytes" where
  "valRangeInt_encode buf tag name low high =
     WriteUint32 (WriteUint32 (WriteUint16 (enc_WriteData (WriteUint8 buf tag) name False) 8) low) high"

fun val_encode :: "bytes \<Rightarrow> ValueType \<Rightarrow> bytes" where
  "val_encode buf (ValInt t n v) = valInt_encode buf t n False v"
| "val_encode buf (ValStr t n v) = valStr_encode buf t n False v"
| "val_encode buf (ValBool t n v) = valBool_encode buf t n False v"
| "val_encode buf (ValRangeInt t n l h) = valRangeInt_encode buf t n l h"

text \<open>At most one additional integer is looked for.\<close>

definition valInt_decode :: "byte \<Rightarrow> Decode \<Rightarrow> (ValueType \<times> Decode) result" where
  "valInt_decode tag d =
     bindR (dec_Data d) (\<lambda>(name, d1).
       let d2 = snd (dec_Int16 d1); (v, d3) = dec_Int32 d2; (vtag, d4) = dec_Byte d3 in
       if vtag = tag
       then let (l, d5) = dec_Int16 d4 in
            if l = 0 then let d6 = snd (dec_Int16 d5); (w, d7) = dec_Int32 d6 in Inr (ValInt tag name [v, w], d7)
            else Inr (ValInt tag name [v], dec_Seek d5 (- 3))
       else Inr (ValInt tag name [v], dec_Seek d4 (- 1)))"

partial_function (option) valStr_loop :: "byte \<Rightarrow> byte \<Rightarrow> string list \<Rightarrow> Decode \<Rightarrow> (string list \<times> Decode) result option" where
  "valStr_loop tag vtag vs d =
     (if vtag = tag
      then case dec_Int16 d of (l, d1) \<Rightarrow>
        if l = 0
        then (case dec_Data d1 of
                Inl e \<Rightarrow> Some (Inl e)
              | Inr (s, d2) \<Rightarrow> (case dec_Byte d2 of (vtag', d3) \<Rightarrow> valStr_loop tag vtag' (vs @ [s]) d3))
        else Some (Inr (vs, dec_Seek d1 (- 2)))
      else Some (Inr (vs, d)))"

definition valStr_decode :: "byte \<Rightarrow> Decode \<Rightarrow> (ValueType \<times> Decode) result option" where
  "valStr_decode tag d =
     (case dec_Data d of
        Inl e \<Rightarrow> Some (Inl e)
      | Inr (name, d1) \<Rightarrow>
          (case dec_Data d1 of
             Inl e \<Rightarrow> Some (Inl e)
           | Inr (s, d2) \<Rightarrow>
               (case dec_Byte d2 of (vtag, d3) \<Rightarrow>
                  (case valStr_loop tag vtag [s] d3 of
                     None \<Rightarrow> None
                   | Some (Inl e) \<Rightarrow> Some (Inl e)
                   | Some (Inr (vs, d4)) \<Rightarrow> Some (Inr (ValStr tag name vs, dec_Seek d4 (- 1)))))))"

text \<open>The loop runs while the tag is \<^emph>\<open>not\<close> that of the value.\<close>

partial_function (option) valBool_loop :: "byte \<Rightarrow> byte \<Rightarrow> bool list \<Rightarrow> Decode \<Rightarrow> (bool list \<times> Decode) option" where
  "valBool_loop tag vtag vs d =
     (if vtag \<noteq> tag
      then case dec_Int16 d of (l, d1) \<Rightarrow>
        if l = 0
        then (case dec_Byte d1 of (b, d2) \<Rightarrow> (case dec_Byte d2 of (vtag', d3) \<Rightarrow> valBool_loop tag vtag' (vs @ [b = 1]) d3))
        else Some (vs, dec_Seek d1 (- 2))
      else Some (vs, d))"

text \<open>The length of the value is read as one byte; it has two.\<close>

definition valBool_decode :: "byte \<Rightarrow> Decode \<Rightarrow> (ValueType \<times> Decode) result option" where
  "valBool_decode tag d =
     (case dec_Data d of
        Inl e \<Rightarrow> Some (Inl e)
      | Inr (name, d1) \<Rightarrow>
          let d2 = snd (dec_Byte d1); (b, d3) = dec_Byte d2; (vtag, d4) = dec_Byte d3 in
          (case valBool_loop tag vtag [b = 1] d4 of
             None \<Rightarrow> None
           | Some (vs, d5) \<Rightarrow> Some (Inr (ValBool tag name vs, dec_Seek d5 (- 1)))))"

text \<open>\<^verbatim>\<open>valRangeInt.decode\<close> is never called: groups decode ranges as integers.\<close>

definition valRangeInt_decode :: "byte \<Rightarrow> Decode \<Rightarrow> (ValueType \<times> Decode) result" where
  "valRangeInt_decode tag d =
     bindR (dec_Data d) (\<lambda>(name, d1).
       let d2 = snd (dec_Int16 d1); (low, d3) = dec_Int32 d2; (high, d4) = dec_Int32 d3 in Inr (ValRangeInt tag name low high, d4))"

section \<open>Groups\<close>

record attribGroup =
  ag_tag :: byte
  ag_val :: "ValueType list"

definition int_tags :: "byte list" where
  "int_tags = [0x21, 0x33, 0x23]"

definition str_tags :: "byte list" where
  "str_tags = [0x44, 0x47, 0x45, 0x48, 0x49, 0x41, 0x42]"

text \<open>A tag that is not in the switch leaves the interface nil, and the call panics.\<close>

definition value_decode :: "byte \<Rightarrow> Decode \<Rightarrow> (ValueType \<times> Decode) result option" where
  "value_decode vtag d =
     (if vtag \<in> set int_tags then Some (valInt_decode vtag d)
      else if vtag = 0x22 then valBool_decode vtag d
      else if vtag \<in> set str_tags then valStr_decode vtag d
      else Some (Inl (Panic NilDereference)))"

partial_function (option) group_loop :: "ValueType list \<Rightarrow> Decode \<Rightarrow> (ValueType list \<times> Decode) result option" where
  "group_loop vs d =
     (case dec_Byte d of (vtag, d1) \<Rightarrow>
        if vtag > 5
        then (case LastError d1 of
                Some err \<Rightarrow> Some (Inl (Error (oob_Error err)))
              | None \<Rightarrow> Option.bind (value_decode vtag d1) (\<lambda>r. case r of
                  Inl e \<Rightarrow> Some (Inl e) | Inr (v, d2) \<Rightarrow> group_loop (vs @ [v]) d2))
        else Some (Inr (vs, dec_Seek d1 (- 1))))"

definition group_encode :: "bytes \<Rightarrow> attribGroup \<Rightarrow> bytes" where
  "group_encode buf ag = foldl val_encode (WriteUint8 buf (ag_tag ag)) (ag_val ag)"

section \<open>Messages\<close>

record ippMsg =
  im_versionMajor :: byte
  im_versionMinor :: byte
  im_statusCode :: u16
  im_requestID :: u32
  im_attributes :: "attribGroup list"
  im_data :: bytes
  im_username :: string
  im_uri :: string
  im_format :: string
  im_jobname :: string

definition end_group :: attribGroup where
  "end_group = \<lparr>ag_tag = 0x03, ag_val = []\<rparr>"

partial_function (option) msg_loop :: "attribGroup list \<Rightarrow> Decode \<Rightarrow> (attribGroup list \<times> Decode) result option" where
  "msg_loop gs d =
     (case dec_Byte d of (dtag, d1) \<Rightarrow>
        if dtag = 0x03 then Some (Inr (gs, d1))
        else Option.bind (group_loop [] d1) (\<lambda>r. case r of
          Inl e \<Rightarrow> Some (Inl e) | Inr (vs, d2) \<Rightarrow> msg_loop (gs @ [\<lparr>ag_tag = dtag, ag_val = vs\<rparr>]) d2))"

definition ippMsg_decode :: "bytes \<Rightarrow> ippMsg result option" where
  "ippMsg_decode raw =
     (let (major, d1) = dec_Byte (dec_New raw); (minor, d2) = dec_Byte d1; (status, d3) = dec_Int16 d2; (req, d4) = dec_Int32 d3 in
      case msg_loop [] d4 of
        None \<Rightarrow> None
      | Some (Inl e) \<Rightarrow> Some (Inl e)
      | Some (Inr (gs, d5)) \<Rightarrow>
          Some (bindR (dec_Copy d5 (Available d5)) (\<lambda>(data, d6).
            case LastError d6 of
              Some err \<Rightarrow> Inl (Error (oob_Error err))
            | None \<Rightarrow> Inr \<lparr>im_versionMajor = major, im_versionMinor = minor, im_statusCode = status, im_requestID = req,
                im_attributes = gs @ [end_group], im_data = data, im_username = [], im_uri = [], im_format = [], im_jobname = []\<rparr>)))"

definition ippMsg_encode :: "ippMsg \<Rightarrow> bytes" where
  "ippMsg_encode m =
     foldl group_encode (WriteUint32 (WriteUint16 (WriteUint8 (WriteUint8 [] (im_versionMajor m)) (im_versionMinor m)) (im_statusCode m)) (im_requestID m))
       (im_attributes m)"

definition setOpAttribResponse :: "ippMsg \<Rightarrow> attribGroup \<Rightarrow> ippMsg" where
  "setOpAttribResponse m gin =
     m\<lparr>im_attributes := im_attributes m @ [\<lparr>ag_tag = ag_tag gin, ag_val = filter (\<lambda>v. val_Tag v = 0x47 \<or> val_Tag v = 0x48) (ag_val gin)\<rparr>]\<rparr>"

definition setGetPrinterResponse :: "attribGroup \<Rightarrow> ippMsg \<Rightarrow> ippMsg" where
  "setGetPrinterResponse printer m = m\<lparr>im_attributes := im_attributes m @ [printer]\<rparr>"

text \<open>A value of another type than a string is a nil pointer after the assertion.\<close>

fun job_attributes :: "ippMsg \<Rightarrow> ValueType list \<Rightarrow> ippMsg result" where
  "job_attributes m [] = Inr m"
| "job_attributes m (ValStr t name v # vals) =
     bindR (if name = ''printer-uri'' then bindR (go_at v 0) (\<lambda>x. Inr (m\<lparr>im_uri := x\<rparr>))
            else if name = ''requesting-user-name'' then bindR (go_at v 0) (\<lambda>x. Inr (m\<lparr>im_username := x\<rparr>))
            else if name = ''document-format'' then bindR (go_at v 0) (\<lambda>x. Inr (m\<lparr>im_format := x\<rparr>))
            else if name = ''job-name'' then bindR (go_at v 0) (\<lambda>x. Inr (m\<lparr>im_jobname := x\<rparr>))
            else Inr m) (\<lambda>m1. job_attributes m1 vals)"
| "job_attributes m (_ # vals) = Inl (Panic NilDereference)"

definition setPrintJobResponse :: "ippMsg \<Rightarrow> ippMsg \<Rightarrow> ippMsg result" where
  "setPrintJobResponse m b =
     bindR (case find (\<lambda>g. ag_tag g = 0x01) (im_attributes b) of None \<Rightarrow> Inr m | Some g \<Rightarrow> job_attributes m (ag_val g))
       (\<lambda>m1. Inr (m1\<lparr>im_data := im_data b\<rparr>))"

definition setGetDevices :: "ippMsg \<Rightarrow> ippMsg" where
  "setGetDevices m = m\<lparr>im_attributes := im_attributes m @ [\<lparr>ag_tag = 0x04, ag_val = []\<rparr>]\<rparr>"

definition ipp_answer :: "attribGroup \<Rightarrow> ippMsg \<Rightarrow> ippMsg result" where
  "ipp_answer printer body =
     (let r0 = \<lparr>im_versionMajor = im_versionMajor body, im_versionMinor = im_versionMinor body, im_statusCode = 0,
                im_requestID = im_requestID body, im_attributes = [], im_data = im_data body,
                im_username = [], im_uri = [], im_format = [], im_jobname = []\<rparr>;
          r1 = (case find (\<lambda>g. ag_tag g = 0x01) (im_attributes body) of None \<Rightarrow> r0 | Some g \<Rightarrow> setOpAttribResponse r0 g);
          op = im_statusCode body in
      bindR (if op = 0x000b then Inr (setGetPrinterResponse printer r1)
             else if op = 0x0002 then setPrintJobResponse r1 body
             else if op = 0x400b then Inr (setGetDevices r1)
             else Inr r1)
        (\<lambda>r2. Inr (r2\<lparr>im_attributes := im_attributes r2 @ [end_group]\<rparr>)))"

definition ippHandler :: "attribGroup \<Rightarrow> bytes \<Rightarrow> ippMsg result option" where
  "ippHandler printer ippBody =
     (case ippMsg_decode ippBody of
        None \<Rightarrow> None | Some (Inl e) \<Rightarrow> Some (Inl e) | Some (Inr body) \<Rightarrow> Some (ipp_answer printer body))"

definition model :: "string \<Rightarrow> attribGroup" where
  "model printerName =
     \<lparr>ag_tag = 0x04, ag_val =
       [ValStr 0x44 ''compression-supported'' [''none''],
        ValRangeInt 0x33 ''copies-supported'' 1 1,
        ValStr 0x49 ''document-format-supported'' [''application/octet-stream'', ''image/pwg-raster'', ''application/pdf''],
        ValStr 0x42 ''marker-colors'' [''black'', ''cyan'', ''magenta'', ''yellow''],
        ValInt 0x21 ''marker-high-levels'' [100, 100, 100, 100],
        ValInt 0x21 ''marker-levels'' [80, 100, 100, 100],
        ValInt 0x21 ''marker-low-levels'' [10, 10, 10, 10],
        ValStr 0x44 ''media-cols-supported'' [''media-type'', ''media-size''],
        ValInt 0x23 ''operations-supported'' [2, 4, 11],
        ValStr 0x44 ''print-color-mode-supported'' [''auto'', ''color'', ''monochrome''],
        ValBool 0x22 ''printer-is-accepting-jobs'' [True],
        ValInt 0x23 ''printer-state'' [3],
        ValStr 0x44 ''printer-state-reasons'' [''none''],
        ValStr 0x42 ''printer-name'' [printerName]]\<rparr>"

section \<open>Requests\<close>

text \<open>The HTTP request as the standard library reads it, and the effects of handling it.\<close>

record ipp_request =
  iq_Method :: string
  iq_ContentType :: string
  iq_URL :: string
  iq_Body :: "bytes result"

record ipp_config =
  ic_StorageDir :: string
  ic_PrinterName :: string
  ic_SizeLimit :: int

datatype ipp_effect = FileWritten string bytes | EventSent event | Responded bytes

definition ipp_ext :: "string \<Rightarrow> string" where
  "ipp_ext format =
     (if format = ''application/pdf'' then ''.pdf''
      else if format = ''image/pwg-raster'' then ''.ras''
      else if format = ''application/octet-stream'' then ''.octet-stream''
      else [])"

definition ipp_store :: "ipp_config \<Rightarrow> string \<Rightarrow> ippMsg \<Rightarrow> ipp_effect list \<times> bytes" where
  "ipp_store cfg stamp resp =
     (if im_data resp = [] \<or> ic_StorageDir cfg = [] \<or> int (length (im_data resp)) > ic_SizeLimit cfg then ([], im_data resp)
      else let p = Join [ic_StorageDir cfg, stamp @ ipp_ext (im_format resp)] in
           ([FileWritten p (im_data resp)], bytes_of_string (''Print data stored to '' @ p)))"

definition ipp_event :: "int \<Rightarrow> net_addr \<Rightarrow> net_addr \<Rightarrow> string \<Rightarrow> ippMsg \<Rightarrow> bytes \<Rightarrow> event" where
  "ipp_event now remote local_addr url resp data =
     ev_New now [ev_Sensor ''services'', ev_Category ''ipp'', ev_Type ''request'', ev_SourceAddr remote, ev_DestinationAddr local_addr,
       ev_Custom ''http.url'' (VString url), ev_Custom ''ipp.uri'' (VString (im_uri resp)), ev_Custom ''ipp.user'' (VString (im_username resp)),
       ev_Custom ''ipp.job-name'' (VString (im_jobname resp)), ev_Custom ''ipp.data'' (VString (string_of_bytes data))]"

text \<open>\<open>None\<close> as request is the end of the connection.\<close>

definition ipp_Handle ::
  "ipp_config \<Rightarrow> string \<Rightarrow> int \<Rightarrow> net_addr \<Rightarrow> net_addr \<Rightarrow> ipp_request result option \<Rightarrow> ipp_effect list result option" where
  "ipp_Handle cfg stamp now remote local_addr request =
     (case request of
        None \<Rightarrow> Some (Inr [])
      | Some (Inl e) \<Rightarrow> Some (Inl e)
      | Some (Inr req) \<Rightarrow>
          if iq_Method req \<noteq> ''POST'' \<or> iq_ContentType req \<noteq> ''application/ipp'' then Some (Inr [])
          else case iq_Body req of
            Inl e \<Rightarrow> Some (Inl e)
          | Inr body \<Rightarrow>
              (case ippHandler (model (ic_PrinterName cfg)) body of
                 None \<Rightarrow> None
               | Some (Inl e) \<Rightarrow> Some (Inl e)
               | Some (Inr resp) \<Rightarrow>
                   (case ipp_store cfg stamp resp of (files, data) \<Rightarrow>
                      Some (Inr (files @ [EventSent (ipp_event now remote local_addr (iq_URL req) resp data), Responded (ippMsg_encode resp)])))))"

section \<open>Encodings as suffixes\<close>

lemmas write_defs = WriteUint8_def WriteUint16_def WriteUint32_def enc_WriteData_def

lemma loops_append:
  "valInt_encode buf t n z vs = buf @ valInt_encode [] t n z vs" "valStr_encode buf t n z ss = buf @ valStr_encode [] t n z ss"
  "valBool_encode buf t n z bs = buf @ valBool_encode [] t n z bs"
proof -
  show "valInt_encode buf t n z vs = buf @ valInt_encode [] t n z vs"
  proof (induction vs arbitrary: buf z)
    case (Cons v vs)
    show ?case by (subst (1 2) valInt_encode.simps, subst (1 2) Cons.IH) (simp add: write_defs)
  qed simp
  show "valStr_encode buf t n z ss = buf @ valStr_encode [] t n z ss"
  proof (induction ss arbitrary: buf z)
    case (Cons v vs)
    show ?case by (subst (1 2) valStr_encode.simps, subst (1 2) Cons.IH) (simp add: write_defs)
  qed simp
  show "valBool_encode buf t n z bs = buf @ valBool_encode [] t n z bs"
  proof (induction bs arbitrary: buf z)
    case (Cons v vs)
    show ?case by (subst (1 2) valBool_encode.simps, subst (1 2) Cons.IH) (simp add: write_defs)
  qed simp
qed

definition val_bytes :: "ValueType \<Rightarrow> bytes" where
  "val_bytes v = val_encode [] v"

definition vals_bytes :: "ValueType list \<Rightarrow> bytes" where
  "vals_bytes vs = concat (map val_bytes vs)"

definition group_bytes :: "attribGroup \<Rightarrow> bytes" where
  "group_bytes g = ag_tag g # vals_bytes (ag_val g)"

lemma val_encode_append: "val_encode buf v = buf @ val_bytes v"
  using loops_append [of buf] by (cases v) (simp_all add: val_bytes_def valRangeInt_encode_def write_defs)

lemma foldl_suffix: "(\<And>buf x. f buf x = buf @ g x) \<Longrightarrow> foldl f buf xs = buf @ concat (map g xs)"
  by (induction xs arbitrary: buf) simp_all

lemma group_encode_append: "group_encode buf g = buf @ group_bytes g"
  using foldl_suffix [of val_encode val_bytes, OF val_encode_append]
  by (simp add: group_encode_def group_bytes_def vals_bytes_def WriteUint8_def)

lemma ippMsg_encode_bytes:
  "ippMsg_encode m = [im_versionMajor m, im_versionMinor m] @ put_be16 (im_statusCode m) @ put_be32 (im_requestID m) @
     concat (map group_bytes (im_attributes m))"
  using foldl_suffix [of group_encode group_bytes, OF group_encode_append] by (simp add: ippMsg_encode_def write_defs)

section \<open>Decoding what was encoded\<close>

text \<open>The further strings of a value, and where the look-ahead for them stops.\<close>

definition more_strings :: "byte \<Rightarrow> string list \<Rightarrow> bytes" where
  "more_strings tag ss = concat (map (\<lambda>s. tag # put_be16 0 @ put_be16 (of_nat (length s)) @ bytes_of_string s) ss)"

definition stops :: "byte \<Rightarrow> bytes \<Rightarrow> bool" where
  "stops tag rest \<longleftrightarrow> (\<exists>b r. rest = b # r \<and> (b \<noteq> tag \<or> (\<exists>n r'. r = put_be16 n @ r' \<and> n \<noteq> 0)))"

lemma valStr_encode_more: "valStr_encode [] tag name True ss = more_strings tag ss"
proof (induction ss)
  case (Cons s ss)
  show ?case by (subst valStr_encode.simps, subst loops_append) (simp add: Cons write_defs more_strings_def)
qed (simp add: more_strings_def)

lemma valStr_loop_stops:
  assumes "stops tag rest"
  shows "\<exists>d. case_prod (\<lambda>vtag. valStr_loop tag vtag vs) (dec_Byte (at us rest e)) = Some (Inr (vs, d)) \<and> dec_Seek d (- 1) = at us rest e"
proof -
  obtain b r where r: "rest = b # r" and c: "b \<noteq> tag \<or> (\<exists>n r'. r = put_be16 n @ r' \<and> n \<noteq> 0)"
    using assms unfolding stops_def by blast
  show ?thesis
  proof (cases "b = tag")
    case False
    then show ?thesis using Seek_at [of "- 1" "[b]" us r e] by (simp add: r valStr_loop.simps)
  next
    case True
    then obtain n r' where n: "r = put_be16 n @ r'" "n \<noteq> 0" using c by blast
    have "dec_Seek (at ((us @ [b]) @ put_be16 n) r' e) (- 2) = at (us @ [b]) (put_be16 n @ r') e" by (rule Seek_at) simp
    moreover have "dec_Seek (at (us @ [b]) (put_be16 n @ r') e) (- 1) = at us ([b] @ put_be16 n @ r') e" by (rule Seek_at) simp
    ultimately show ?thesis using True n by (simp add: r valStr_loop.simps [of tag tag])
  qed
qed

lemma valStr_loop_more:
  assumes "stops tag rest" "list_all (\<lambda>s. length s < 2 ^ 15) ss"
  shows "\<exists>d. case_prod (\<lambda>vtag. valStr_loop tag vtag vs) (dec_Byte (at us (more_strings tag ss @ rest) e)) = Some (Inr (vs @ ss, d)) \<and>
    dec_Seek d (- 1) = at (us @ more_strings tag ss) rest e"
  using assms(2)
proof (induction ss arbitrary: vs us)
  case Nil
  then show ?case using valStr_loop_stops [OF assms(1)] by (simp add: more_strings_def)
next
  case (Cons s ss)
  let ?b = "put_be16 (of_nat (length s)) @ bytes_of_string s"
  have "dec_Data (at (us @ [tag] @ put_be16 0) (?b @ more_strings tag ss @ rest) e) =
      Inr (s, at ((us @ [tag] @ put_be16 0) @ ?b) (more_strings tag ss @ rest) e)"
    using Cons.prems Data_at [of s "us @ [tag] @ put_be16 0" "more_strings tag ss @ rest" e] by simp
  then show ?case
    using Cons.IH [of "vs @ [s]" "us @ [tag] @ put_be16 0 @ ?b"] Cons.prems
      Int16_at [of "us @ [tag]" 0 "?b @ more_strings tag ss @ rest" e]
    by (simp add: more_strings_def valStr_loop.simps [of tag tag])
qed

text \<open>The values that survive: one or two integers, strings, names that are not empty.\<close>

definition name_ok :: "string \<Rightarrow> bool" where
  "name_ok n \<longleftrightarrow> n \<noteq> [] \<and> length n < 2 ^ 15"

fun wf_val :: "ValueType \<Rightarrow> bool" where
  "wf_val (ValInt t n vs) \<longleftrightarrow> t \<in> set int_tags \<and> name_ok n \<and> (length vs = 1 \<or> length vs = 2)"
| "wf_val (ValStr t n ss) \<longleftrightarrow> t \<in> set str_tags \<and> name_ok n \<and> ss \<noteq> [] \<and> list_all (\<lambda>s. length s < 2 ^ 15) ss"
| "wf_val _ \<longleftrightarrow> False"

lemma name_length: "name_ok n \<Longrightarrow> (of_nat (length n) :: u16) \<noteq> 0"
  using sint_length [of "length n"] by (auto simp: name_ok_def)

lemma valStr_decode_at:
  assumes "wf_val (ValStr tag name ss)" "stops tag rest"
  shows "val_bytes (ValStr tag name ss) = tag # tl (val_bytes (ValStr tag name ss))"
    "valStr_decode tag (at (us @ [tag]) (tl (val_bytes (ValStr tag name ss)) @ rest) e) =
       Some (Inr (ValStr tag name ss, at (us @ val_bytes (ValStr tag name ss)) rest e))"
proof -
  obtain s ss' where ss: "ss = s # ss'" using assms(1) by (cases ss) auto
  let ?n = "put_be16 (of_nat (length name)) @ bytes_of_string name" and ?s = "put_be16 (of_nat (length s)) @ bytes_of_string s"
  have vb: "val_bytes (ValStr tag name ss) = tag # ?n @ ?s @ more_strings tag ss'"
    by (simp add: val_bytes_def ss loops_append(2) [of "_ # _"] valStr_encode_more write_defs)
  then show "val_bytes (ValStr tag name ss) = tag # tl (val_bytes (ValStr tag name ss))" by simp
  have len: "length name < 2 ^ 15" "length s < 2 ^ 15" "list_all (\<lambda>s. length s < 2 ^ 15) ss'"
    using assms(1) ss by (auto simp: name_ok_def)
  have d1: "dec_Data (at (us @ [tag]) (?n @ ?s @ more_strings tag ss' @ rest) e) =
      Inr (name, at ((us @ [tag]) @ ?n) (?s @ more_strings tag ss' @ rest) e)"
    using Data_at [OF len(1)] by simp
  have d2: "dec_Data (at ((us @ [tag]) @ ?n) (?s @ more_strings tag ss' @ rest) e) =
      Inr (s, at (((us @ [tag]) @ ?n) @ ?s) (more_strings tag ss' @ rest) e)"
    using Data_at [OF len(2), of "(us @ [tag]) @ ?n"] by simp
  obtain vtag d3 where b: "dec_Byte (at (((us @ [tag]) @ ?n) @ ?s) (more_strings tag ss' @ rest) e) = (vtag, d3)" by fastforce
  obtain d4 where d4: "valStr_loop tag vtag [s] d3 = Some (Inr (s # ss', d4))"
    "dec_Seek d4 (- 1) = at ((((us @ [tag]) @ ?n) @ ?s) @ more_strings tag ss') rest e"
    using valStr_loop_more [OF assms(2) len(3), of "[s]" "((us @ [tag]) @ ?n) @ ?s" e] b by auto
  have rest: "tl (val_bytes (ValStr tag name ss)) @ rest = ?n @ ?s @ more_strings tag ss' @ rest" by (simp add: vb)
  have "valStr_decode tag (at (us @ [tag]) (?n @ ?s @ more_strings tag ss' @ rest) e) =
      Some (Inr (ValStr tag name ss, at ((((us @ [tag]) @ ?n) @ ?s) @ more_strings tag ss') rest e))"
    unfolding valStr_decode_def d1 by (simp only: sum.case prod.case d2 b d4 option.case ss)
  then show "valStr_decode tag (at (us @ [tag]) (tl (val_bytes (ValStr tag name ss)) @ rest) e) =
       Some (Inr (ValStr tag name ss, at (us @ val_bytes (ValStr tag name ss)) rest e))"
    unfolding rest by (simp add: vb)
qed

lemma valInt_decode_at:
  assumes "wf_val (ValInt tag name vs)" "stops tag rest"
  shows "val_bytes (ValInt tag name vs) = tag # tl (val_bytes (ValInt tag name vs))"
    "valInt_decode tag (at (us @ [tag]) (tl (val_bytes (ValInt tag name vs)) @ rest) e) =
       Inr (ValInt tag name vs, at (us @ val_bytes (ValInt tag name vs)) rest e)"
proof -
  obtain v vs' where vs: "vs = v # vs'" "vs' = [] \<or> (\<exists>w. vs' = [w])"
    using assms(1) by (cases vs) (auto simp: length_Suc_conv numeral_2_eq_2)
  let ?n = "put_be16 (of_nat (length name)) @ bytes_of_string name" and ?v = "put_be16 4 @ put_be32 v"
  define tail where "tail = (case vs' of [] \<Rightarrow> [] | w # _ \<Rightarrow> tag # put_be16 0 @ put_be16 4 @ put_be32 w)"
  have vb: "val_bytes (ValInt tag name vs) = tag # ?n @ ?v @ tail"
    using vs by (auto simp: val_bytes_def tail_def write_defs)
  then show "val_bytes (ValInt tag name vs) = tag # tl (val_bytes (ValInt tag name vs))" by simp
  have len: "length name < 2 ^ 15" using assms(1) by (auto simp: name_ok_def)
  let ?u = "((us @ [tag]) @ ?n) @ ?v"
  have d: "dec_Data (at (us @ [tag]) (?n @ ?v @ tail @ rest) e) = Inr (name, at ((us @ [tag]) @ ?n) (?v @ tail @ rest) e)"
    using Data_at [OF len] by simp
  have i: "dec_Int16 (at ((us @ [tag]) @ ?n) (?v @ tail @ rest) e) = (4, at (((us @ [tag]) @ ?n) @ put_be16 4) (put_be32 v @ tail @ rest) e)"
    using Int16_at [of "(us @ [tag]) @ ?n" 4] by simp
  have w: "dec_Int32 (at (((us @ [tag]) @ ?n) @ put_be16 4) (put_be32 v @ tail @ rest) e) = (v, at ?u (tail @ rest) e)"
    using Int32_at [of "((us @ [tag]) @ ?n) @ put_be16 4" v] by simp
  have "valInt_decode tag (at (us @ [tag]) (?n @ ?v @ tail @ rest) e) = Inr (ValInt tag name vs, at (us @ tag # ?n @ ?v @ tail) rest e)"
  proof (cases vs')
    case Nil
    obtain b r where r: "rest = b # r" and c: "b \<noteq> tag \<or> (\<exists>n r'. r = put_be16 n @ r' \<and> n \<noteq> 0)"
      using assms(2) unfolding stops_def by blast
    show ?thesis
    proof (cases "b = tag")
      case False
      then show ?thesis
        using d i w Nil Seek_at [of "- 1" "[b]" ?u r e] by (simp add: valInt_decode_def Let_def vs tail_def r)
    next
      case True
      then obtain n r' where n: "r = put_be16 n @ r'" "n \<noteq> 0" using c by blast
      then show ?thesis
        using d i w Nil True Seek_at [of "- 3" "tag # put_be16 n" ?u r' e] Int16_at [of "?u @ [tag]" n r' e]
        by (simp add: valInt_decode_def Let_def vs tail_def r)
    qed
  next
    case (Cons x xs)
    then have x: "vs' = [x]" using vs(2) by auto
    let ?u1 = "?u @ [tag]"
    have "dec_Int16 (at ?u1 (put_be16 0 @ put_be16 4 @ put_be32 x @ rest) e) = (0, at (?u1 @ put_be16 0) (put_be16 4 @ put_be32 x @ rest) e)"
      by (rule Int16_at)
    moreover have "dec_Int16 (at (?u1 @ put_be16 0) (put_be16 4 @ put_be32 x @ rest) e) =
        (4, at ((?u1 @ put_be16 0) @ put_be16 4) (put_be32 x @ rest) e)"
      by (rule Int16_at)
    moreover have "dec_Int32 (at ((?u1 @ put_be16 0) @ put_be16 4) (put_be32 x @ rest) e) =
        (x, at (((?u1 @ put_be16 0) @ put_be16 4) @ put_be32 x) rest e)"
      by (rule Int32_at)
    ultimately show ?thesis using d i w by (simp add: valInt_decode_def Let_def vs x tail_def)
  qed
  then show "valInt_decode tag (at (us @ [tag]) (tl (val_bytes (ValInt tag name vs)) @ rest) e) =
       Inr (ValInt tag name vs, at (us @ val_bytes (ValInt tag name vs)) rest e)"
    by (simp add: vb)
qed

lemma tags:
  "t \<in> set int_tags \<Longrightarrow> 5 < t" "t \<in> set str_tags \<Longrightarrow> 5 < t" "t \<in> set str_tags \<Longrightarrow> t \<notin> set int_tags" "t \<in> set str_tags \<Longrightarrow> t \<noteq> 0x22"
  by (auto simp: int_tags_def str_tags_def word_less_def)

lemma value_decode_at:
  assumes "wf_val v" "stops (val_Tag v) rest"
  shows "5 < val_Tag v" "val_bytes v = val_Tag v # tl (val_bytes v)"
    "value_decode (val_Tag v) (at (us @ [val_Tag v]) (tl (val_bytes v) @ rest) e) = Some (Inr (v, at (us @ val_bytes v) rest e))"
proof -
  show "5 < val_Tag v" using assms tags by (cases v) auto
  show "val_bytes v = val_Tag v # tl (val_bytes v)"
    using assms valStr_decode_at(1) [of "val_Tag v" _ _ rest] valInt_decode_at(1) [of "val_Tag v" _ _ rest] by (cases v) auto
  show "value_decode (val_Tag v) (at (us @ [val_Tag v]) (tl (val_bytes v) @ rest) e) = Some (Inr (v, at (us @ val_bytes v) rest e))"
    using assms valStr_decode_at(2) [of "val_Tag v" _ _ rest us e] valInt_decode_at(2) [of "val_Tag v" _ _ rest us e] tags
    by (cases v) (auto simp: value_decode_def)
qed

lemma val_bytes_stops:
  assumes "wf_val v"
  shows "stops tag (val_bytes v @ rest)"
proof -
  obtain n r where "val_bytes v = val_Tag v # put_be16 (of_nat (length n)) @ r" "name_ok n"
  proof (cases v)
    case (ValInt t n vs)
    then obtain w ws where "vs = w # ws" using assms by (cases vs) auto
    then show ?thesis
      using that [of n] assms ValInt by (simp add: val_bytes_def write_defs) (subst (asm) loops_append, simp add: write_defs)
  next
    case (ValStr t n ss)
    then obtain w ws where "ss = w # ws" using assms by (cases ss) auto
    then show ?thesis
      using that [of n] assms ValStr by (simp add: val_bytes_def write_defs) (subst (asm) loops_append, simp add: write_defs)
  qed (use assms in auto)
  then show ?thesis using name_length unfolding stops_def by fastforce
qed

lemma group_loop_at:
  assumes "list_all wf_val vs" "rest = b # r" "b \<le> 5"
  shows "group_loop acc (at us (vals_bytes vs @ rest) None) = Some (Inr (acc @ vs, at (us @ vals_bytes vs) rest None))"
  using assms(1)
proof (induction vs arbitrary: acc us)
  case Nil
  then show ?case
    using assms(2,3) Seek_at [of "- 1" "[b]" us r None] by (simp add: group_loop.simps vals_bytes_def linorder_not_less [symmetric])
next
  case (Cons v vs)
  have "stops (val_Tag v) (vals_bytes vs @ rest)"
  proof (cases vs)
    case Nil
    have "5 < val_Tag v" using Cons.prems tags by (cases v) auto
    then have "b \<noteq> val_Tag v" using assms(3) by auto
    then show ?thesis using Nil assms(2) by (auto simp: stops_def vals_bytes_def)
  next
    case (Cons w ws)
    then show ?thesis using Cons.prems val_bytes_stops [of w "val_Tag v" "vals_bytes ws @ rest"] by (simp add: vals_bytes_def)
  qed
  then have v: "5 < val_Tag v" "val_bytes v = val_Tag v # tl (val_bytes v)"
    "value_decode (val_Tag v) (at (us @ [val_Tag v]) (tl (val_bytes v) @ vals_bytes vs @ rest) None) =
      Some (Inr (v, at (us @ val_bytes v) (vals_bytes vs @ rest) None))"
    using value_decode_at(1,2) [of v "vals_bytes vs @ rest"] value_decode_at(3) [of v "vals_bytes vs @ rest" us None] Cons.prems by auto
  have split: "vals_bytes (v # vs) @ rest = val_Tag v # tl (val_bytes v) @ vals_bytes vs @ rest"
    using v(2) by (simp add: vals_bytes_def)
  have "group_loop acc (at us (vals_bytes (v # vs) @ rest) None) = group_loop (acc @ [v]) (at (us @ val_bytes v) (vals_bytes vs @ rest) None)"
    unfolding split by (subst group_loop.simps) (simp add: v(1,3))
  then show ?case using Cons.IH [of "acc @ [v]" "us @ val_bytes v"] Cons.prems by (simp add: vals_bytes_def)
qed

definition wf_group :: "attribGroup \<Rightarrow> bool" where
  "wf_group g \<longleftrightarrow> ag_tag g \<le> 5 \<and> ag_tag g \<noteq> 3 \<and> list_all wf_val (ag_val g)"

lemma group_eta: "\<lparr>ag_tag = ag_tag g, ag_val = ag_val g\<rparr> = g"
  by (cases g) simp

lemma msg_loop_at:
  assumes "list_all wf_group gs"
  shows "msg_loop acc (at us (concat (map group_bytes gs) @ 3 # rest) None) =
    Some (Inr (acc @ gs, at (us @ concat (map group_bytes gs) @ [3]) rest None))"
  using assms
proof (induction gs arbitrary: acc us)
  case Nil
  then show ?case by (simp add: msg_loop.simps)
next
  case (Cons g gs)
  let ?next = "concat (map group_bytes gs) @ 3 # rest"
  obtain b r where next1: "?next = b # r" "b \<le> 5"
    using Cons.prems by (cases gs) (auto simp: group_bytes_def wf_group_def)
  have "group_loop [] (at (us @ [ag_tag g]) (vals_bytes (ag_val g) @ ?next) None) =
      Some (Inr (ag_val g, at ((us @ [ag_tag g]) @ vals_bytes (ag_val g)) ?next None))"
    using group_loop_at [OF _ next1, of "ag_val g" "[]" "us @ [ag_tag g]"] Cons.prems by (simp add: wf_group_def)
  then have "msg_loop acc (at us (concat (map group_bytes (g # gs)) @ 3 # rest) None) =
      msg_loop (acc @ [g]) (at ((us @ [ag_tag g]) @ vals_bytes (ag_val g)) ?next None)"
    using Cons.prems by (subst msg_loop.simps) (simp add: group_bytes_def [of g] wf_group_def group_eta)
  then show ?case
    using Cons.IH [of "acc @ [g]" "(us @ [ag_tag g]) @ vals_bytes (ag_val g)"] Cons.prems by (simp add: group_bytes_def [of g])
qed

lemma end_group_bytes: "group_bytes end_group = [3]"
  by (simp add: group_bytes_def end_group_def vals_bytes_def)

text \<open>
  C13: IPP messages round trip. A message whose groups hold strings and up to two integers per
  attribute, with names and strings of less than 32768 bytes and names that are not empty, is decoded from
  its encoding followed by any print data: version, operation, request id, all groups in order with all their values, and
  exactly that print data.
\<close>

theorem ipp_roundtrip:
  assumes "im_attributes m = gs @ [end_group]" "list_all wf_group gs"
  shows "ippMsg_decode (ippMsg_encode m @ data) =
    Some (Inr (m\<lparr>im_data := data, im_username := [], im_uri := [], im_format := [], im_jobname := []\<rparr>))"
proof -
  let ?h = "[im_versionMajor m, im_versionMinor m] @ put_be16 (im_statusCode m)" and ?g = "concat (map group_bytes gs)"
  let ?u = "?h @ put_be32 (im_requestID m)"
  have enc: "ippMsg_encode m @ data = im_versionMajor m # im_versionMinor m # put_be16 (im_statusCode m) @ put_be32 (im_requestID m) @ ?g @ 3 # data"
    by (simp add: ippMsg_encode_bytes assms(1) end_group_bytes)
  have loop: "msg_loop [] (at ?u (?g @ 3 # data) None) = Some (Inr (gs, at (?u @ ?g @ [3]) data None))"
    using msg_loop_at [OF assms(2), of "[]" ?u data] by simp
  have i: "dec_Int16 (at [im_versionMajor m, im_versionMinor m] (put_be16 (im_statusCode m) @ put_be32 (im_requestID m) @ ?g @ 3 # data) None) =
      (im_statusCode m, at ?h (put_be32 (im_requestID m) @ ?g @ 3 # data) None)"
    using Int16_at [of "[im_versionMajor m, im_versionMinor m]" "im_statusCode m"] by simp
  have j: "dec_Int32 (at ?h (put_be32 (im_requestID m) @ ?g @ 3 # data) None) = (im_requestID m, at ?u (?g @ 3 # data) None)"
    using Int32_at [of ?h "im_requestID m"] by simp
  have c: "dec_Copy (at (?u @ ?g @ [3]) data None) (int (length data)) = Inr (data, at ((?u @ ?g @ [3]) @ data) [] None)"
    using Copy_at [of "int (length data)" data "?u @ ?g @ [3]" "[]" None] by simp
  show ?thesis
    unfolding ippMsg_decode_def dec_New_at enc
    using Byte_at [of "[]" "im_versionMajor m"] Byte_at [of "[im_versionMajor m]" "im_versionMinor m"] i j loop c assms(1)
    by (simp add: Let_def)
qed

section \<open>Types of decoded values\<close>

fun typed_val :: "ValueType \<Rightarrow> bool" where
  "typed_val (ValInt t n vs) \<longleftrightarrow> t \<in> set int_tags \<and> vs \<noteq> [] \<and> length vs \<le> 2"
| "typed_val (ValStr t n ss) \<longleftrightarrow> t \<in> set str_tags \<and> ss \<noteq> []"
| "typed_val (ValBool t n bs) \<longleftrightarrow> t = 0x22 \<and> bs \<noteq> []"
| "typed_val (ValRangeInt t n l h) \<longleftrightarrow> False"

lemma valStr_loop_nonempty:
  assumes "valStr_loop tag vtag vs d = Some r"
  shows "vs \<noteq> [] \<longrightarrow> (\<forall>vs' d'. r = Inr (vs', d') \<longrightarrow> vs' \<noteq> [])"
  using assms
proof (rule valStr_loop.raw_induct [where P = "\<lambda>tag vtag vs d r. vs \<noteq> [] \<longrightarrow> (\<forall>vs' d'. r = Inr (vs', d') \<longrightarrow> vs' \<noteq> [])", rotated], goal_cases)
  case (1 loop tag vtag vs d r)
  then show ?case by (auto split: if_splits prod.splits sum.splits)
qed

lemma valBool_loop_nonempty:
  assumes "valBool_loop tag vtag vs d = Some r"
  shows "vs \<noteq> [] \<longrightarrow> fst r \<noteq> []"
  using assms
proof (rule valBool_loop.raw_induct [where P = "\<lambda>tag vtag vs d r. vs \<noteq> [] \<longrightarrow> fst r \<noteq> []", rotated], goal_cases)
  case (1 loop tag vtag vs d r)
  then show ?case by (auto split: if_splits prod.splits)
qed

lemma valInt_decode_typed: "valInt_decode tag d = Inr (v, d') \<Longrightarrow> \<exists>n vs. v = ValInt tag n vs \<and> vs \<noteq> [] \<and> length vs \<le> 2"
  by (auto simp: valInt_decode_def Let_def split_beta bindR_Inr_iff split: if_splits)

lemma value_decode_typed:
  assumes "value_decode vtag d = Some (Inr (v, d'))"
  shows "typed_val v \<and> val_Tag v = vtag"
proof -
  consider "vtag \<in> set int_tags" | "vtag = 0x22" | "vtag \<in> set str_tags"
    using assms by (auto simp: value_decode_def split: if_splits)
  then show ?thesis
  proof cases
    case 1
    then show ?thesis
      using assms by (auto simp: value_decode_def dest!: valInt_decode_typed)
  next
    case 2
    then show ?thesis
      using assms
      by (auto simp: value_decode_def valBool_decode_def Let_def int_tags_def split: sum.splits prod.splits option.splits
          dest!: valBool_loop_nonempty)
  next
    case 3
    then show ?thesis
      using assms tags(3,4) [OF 3]
      by (auto simp: value_decode_def valStr_decode_def split: sum.splits prod.splits option.splits dest!: valStr_loop_nonempty)
  qed
qed

lemma group_loop_typed:
  assumes "group_loop vs d = Some r"
  shows "list_all typed_val vs \<longrightarrow> (\<forall>vs' d'. r = Inr (vs', d') \<longrightarrow> list_all typed_val vs')"
  using assms
proof (rule group_loop.raw_induct [where P = "\<lambda>vs d r. list_all typed_val vs \<longrightarrow> (\<forall>vs' d'. r = Inr (vs', d') \<longrightarrow> list_all typed_val vs')", rotated], goal_cases)
  case (1 loop vs d r)
  obtain vtag d1 where b: "dec_Byte d = (vtag, d1)" by fastforce
  show ?case
  proof (cases "5 < vtag \<and> LastError d1 = None")
    case True
    then obtain x where x: "value_decode vtag d1 = Some x"
      "(case x of Inl e \<Rightarrow> Some (Inl e) | Inr (v, d2) \<Rightarrow> loop (vs @ [v]) d2) = Some r"
      using 1(2) b by (auto simp: bind_eq_Some_conv)
    then show ?thesis using 1(1) value_decode_typed by (fastforce split: sum.splits prod.splits)
  next
    case False
    then show ?thesis using 1(2) b by (auto split: if_splits option.splits)
  qed
qed

lemma msg_loop_typed:
  assumes "msg_loop gs d = Some r"
  shows "list_all (\<lambda>g. ag_tag g \<noteq> 3 \<and> list_all typed_val (ag_val g)) gs \<longrightarrow>
    (\<forall>gs' d'. r = Inr (gs', d') \<longrightarrow> list_all (\<lambda>g. ag_tag g \<noteq> 3 \<and> list_all typed_val (ag_val g)) gs')"
  using assms
proof (rule msg_loop.raw_induct [where P = "\<lambda>gs d r. list_all (\<lambda>g. ag_tag g \<noteq> 3 \<and> list_all typed_val (ag_val g)) gs \<longrightarrow>
    (\<forall>gs' d'. r = Inr (gs', d') \<longrightarrow> list_all (\<lambda>g. ag_tag g \<noteq> 3 \<and> list_all typed_val (ag_val g)) gs')", rotated], goal_cases)
  case (1 loop gs d r)
  obtain dtag d1 where b: "dec_Byte d = (dtag, d1)" by fastforce
  show ?case
  proof (cases "dtag = 3")
    case False
    then obtain x where x: "group_loop [] d1 = Some x"
      "(case x of Inl e \<Rightarrow> Some (Inl e) | Inr (vs, d2) \<Rightarrow> loop (gs @ [\<lparr>ag_tag = dtag, ag_val = vs\<rparr>]) d2) = Some r"
      using 1(2) b by (auto simp: bind_eq_Some_conv)
    then show ?thesis using 1(1) group_loop_typed [OF x(1)] False by (fastforce split: sum.splits prod.splits)
  qed (use 1(2) b in auto)
qed

lemma bindR_Inl_iff: "bindR m f = Inl e \<longleftrightarrow> m = Inl e \<or> (\<exists>x. m = Inr x \<and> f x = Inl e)"
  by (cases m) auto

lemma job_attributes_panics:
  "list_all typed_val vs \<Longrightarrow> job_attributes m vs = Inl (Panic p) \<Longrightarrow> p = NilDereference"
proof (induction vs arbitrary: m)
  case (Cons v vs)
  then show ?case by (cases v) (auto simp: go_at_def split: if_splits)
qed simp

lemma find_mem: "find P xs = Some x \<Longrightarrow> x \<in> set xs"
  by (auto simp: find_Some_iff)

lemma ipp_answer_fails: "ipp_answer printer m = Inl e \<Longrightarrow> \<exists>r g. job_attributes r (ag_val g) = Inl e \<and> g \<in> set (im_attributes m)"
  by (fastforce simp: ipp_answer_def setPrintJobResponse_def Let_def bindR_Inl_iff dest: find_mem split: if_splits option.splits)

text \<open>
  C30: what the decoder accepts is well-typed. Whatever bytes a client sends: when decoding returns a
  message, all its groups but the last, which is the end group, have other tags, every value has the
  representation that belongs to its tag and at least one element; and so the answer to the message can
  only panic on a nil pointer, never by indexing the list of a value.
\<close>

theorem ipp_decode_typed:
  assumes "ippMsg_decode raw = Some (Inr m)"
  shows "(\<exists>gs. im_attributes m = gs @ [end_group] \<and> list_all (\<lambda>g. ag_tag g \<noteq> 3 \<and> list_all typed_val (ag_val g)) gs) \<and>
    (ipp_answer printer m = Inl (Panic p) \<longrightarrow> p = NilDereference)"
proof -
  obtain d4 gs d5 where g: "msg_loop [] d4 = Some (Inr (gs, d5))" "im_attributes m = gs @ [end_group]"
    using assms by (auto simp: ippMsg_decode_def Let_def bindR_Inr_iff split: prod.splits option.splits sum.splits)
  have t: "list_all (\<lambda>g. ag_tag g \<noteq> 3 \<and> list_all typed_val (ag_val g)) gs" using msg_loop_typed [OF g(1)] by simp
  have "p = NilDereference" if p: "ipp_answer printer m = Inl (Panic p)"
  proof -
    obtain r g' where j: "job_attributes r (ag_val g') = Inl (Panic p)" "g' \<in> set (im_attributes m)" using ipp_answer_fails [OF p] by blast
    then have "list_all typed_val (ag_val g')" using t g(2) by (auto simp: list_all_iff end_group_def)
    then show ?thesis using j(1) job_attributes_panics by blast
  qed
  then show ?thesis using g(2) t by blast
qed

section \<open>Requests that are never answered\<close>

lemma group_loop_end:
  assumes "dec_offset d = length (dec_data d)"
  shows "\<exists>err. group_loop vs d = Some (Inr (vs, dec_Seek (d\<lparr>dec_lasterror := Some err\<rparr>) (- 1)))"
  using short_reads(1) [OF assms] by (subst group_loop.simps) auto

text \<open>At the end of the data, or one byte before it, where the loop over the groups cannot leave.\<close>

definition spinning :: "Decode \<Rightarrow> bool" where
  "spinning d \<longleftrightarrow> (if dec_data d = [] then dec_offset d = 0
     else last (dec_data d) \<noteq> 3 \<and> (dec_offset d = length (dec_data d) \<or> dec_offset d + 1 = length (dec_data d)))"

lemma spinning_back:
  assumes "dec_offset d = length (dec_data d)" "dec_data d = [] \<or> last (dec_data d) \<noteq> 3"
  shows "spinning (dec_Seek (d\<lparr>dec_lasterror := Some err\<rparr>) (- 1))"
proof (cases "dec_data d")
  case Nil
  then show ?thesis using assms by (simp add: spinning_def dec_Seek_def HasBytes_def)
next
  case (Cons x xs)
  then show ?thesis using assms by (simp add: spinning_def dec_Seek_def HasBytes_def Let_def nat_diff_distrib)
qed

lemma spinning_step:
  assumes "spinning d"
  obtains dtag d1 where "dec_Byte d = (dtag, d1)" "dtag \<noteq> 3" "dec_offset d1 = length (dec_data d1)"
    "\<And>err. spinning (dec_Seek (d1\<lparr>dec_lasterror := Some err\<rparr>) (- 1))"
proof (cases "dec_offset d = length (dec_data d)")
  case True
  then obtain err where e: "dec_Byte d = (0, d\<lparr>dec_lasterror := Some err\<rparr>)" using short_reads(1) by blast
  show thesis
  proof (rule that [OF e])
    show "spinning (dec_Seek (d\<lparr>dec_lasterror := Some err, dec_lasterror := Some err'\<rparr>) (- 1))" for err'
      using spinning_back [of "d\<lparr>dec_lasterror := Some err\<rparr>" err'] assms True by (simp add: spinning_def split: if_splits)
  qed (use True in simp_all)
next
  case False
  then have l: "dec_data d \<noteq> []" "last (dec_data d) \<noteq> 3" "dec_offset d = length (dec_data d) - 1" "dec_offset d + 1 = length (dec_data d)"
    using assms by (auto simp: spinning_def split: if_splits)
  have "HasBytes d 1 = None" by (simp add: HasBytes_def l(4) [symmetric])
  then have e: "dec_Byte d = (last (dec_data d), d\<lparr>dec_offset := length (dec_data d)\<rparr>)"
    unfolding dec_Byte_def using l(1,3,4) by (simp add: last_conv_nth)
  show thesis
  proof (rule that [OF e l(2)])
    show "spinning (dec_Seek (d\<lparr>dec_offset := length (dec_data d), dec_lasterror := Some err'\<rparr>) (- 1))" for err'
      using spinning_back [of "d\<lparr>dec_offset := length (dec_data d)\<rparr>" err'] l by simp
  qed simp
qed

lemma msg_loop_spins:
  assumes "msg_loop gs d = Some r"
  shows "\<not> spinning d"
  using assms
proof (rule msg_loop.raw_induct [where P = "\<lambda>gs d r. \<not> spinning d", rotated], goal_cases)
  case (1 loop gs d r)
  show ?case
  proof
    assume "spinning d"
    then obtain dtag d1 where d1: "dec_Byte d = (dtag, d1)" "dtag \<noteq> 3" "dec_offset d1 = length (dec_data d1)"
      "\<And>err. spinning (dec_Seek (d1\<lparr>dec_lasterror := Some err\<rparr>) (- 1))" by (rule spinning_step) blast
    obtain err where "group_loop [] d1 = Some (Inr ([], dec_Seek (d1\<lparr>dec_lasterror := Some err\<rparr>) (- 1)))"
      using group_loop_end [OF d1(3)] by blast
    then show False using 1 d1 by (auto split: if_splits)
  qed
qed

lemma valBool_loop_spins:
  assumes "valBool_loop tag vtag vs d = Some r"
  shows "\<not> (dec_offset d = length (dec_data d) \<and> vtag \<noteq> tag \<and> tag \<noteq> 0)"
  using assms
proof (rule valBool_loop.raw_induct [where P = "\<lambda>tag vtag vs d r. \<not> (dec_offset d = length (dec_data d) \<and> vtag \<noteq> tag \<and> tag \<noteq> 0)", rotated],
    goal_cases)
  case (1 loop tag vtag vs d r)
  show ?case
  proof
    assume e: "dec_offset d = length (dec_data d) \<and> vtag \<noteq> tag \<and> tag \<noteq> 0"
    then obtain e1 where d1: "dec_Int16 d = (0, d\<lparr>dec_lasterror := Some e1\<rparr>)" using short_reads(2) by blast
    obtain e2 where d2: "dec_Byte (d\<lparr>dec_lasterror := Some e1\<rparr>) = (0, d\<lparr>dec_lasterror := Some e2\<rparr>)"
      using short_reads(1) [of "d\<lparr>dec_lasterror := Some e1\<rparr>"] e by auto
    obtain e3 where d3: "dec_Byte (d\<lparr>dec_lasterror := Some e2\<rparr>) = (0, d\<lparr>dec_lasterror := Some e3\<rparr>)"
      using short_reads(1) [of "d\<lparr>dec_lasterror := Some e2\<rparr>"] e by auto
    show False using 1(1) [of tag 0 "vs @ [False]" "d\<lparr>dec_lasterror := Some e3\<rparr>" r] 1(2) e d1 d2 d3 by auto
  qed
qed

text \<open>A boolean attribute as the only one of a message that has no print data.\<close>

lemma valBool_decode_spins:
  assumes "length n < 2 ^ 15"
  shows "valBool_decode 0x22 (at us (put_be16 (of_nat (length n)) @ bytes_of_string n @ put_be16 1 @ [if b then 1 else 0] @ [3]) e) = None"
proof -
  let ?n = "put_be16 (of_nat (length n)) @ bytes_of_string n" and ?b = "if b then 1 else 0 :: byte"
  have p1: "put_be16 1 = [0, 1 :: byte]" by (simp add: put_be16_def)
  have d1: "dec_Data (at us (?n @ [0, 1, ?b, 3]) e) = Inr (n, at (us @ ?n) [0, 1, ?b, 3] e)"
    using Data_at [OF assms, of us "[0, 1, ?b, 3]" e] by simp
  define u where "u = us @ ?n @ [0, 1, ?b]"
  obtain e1 where i1: "dec_Int16 (at u [3] e) = (0, at u [3] (Some e1))"
    by (simp add: dec_Int16_def HasBytes_def at_def Let_def)
  obtain e2 where i2: "dec_Byte (at (u @ [3]) [] (Some e1)) = (0, at (u @ [3]) [] (Some e2))"
    by (simp add: dec_Byte_def HasBytes_def at_def Let_def)
  have "valBool_loop 0x22 0 [True, False] (at (u @ [3]) [] (Some e2)) = None"
    using valBool_loop_spins [of "0x22" 0 "[True, False]" "at (u @ [3]) [] (Some e2)"]
    by (cases "valBool_loop 0x22 0 [True, False] (at (u @ [3]) [] (Some e2))") (simp_all add: at_def)
  then have "valBool_loop 0x22 ?b [True] (at u [3] e) = None"
    by (subst valBool_loop.simps) (simp add: i1 i2)
  then show ?thesis
    using d1 by (simp add: valBool_decode_def p1 u_def Let_def)
qed

text \<open>
  C36: some requests are never answered. For an empty body, for a body of just the eight header bytes
  whose last byte is not the end tag, and for the encoding of a message with one boolean attribute, decoding does
  not return: the loops do not look at the error of the decoder and grow their lists without end. The
  handler of the connection hangs with them.
\<close>

theorem ipp_never_answered:
  assumes "raw = [] \<or> length raw = 8 \<and> last raw \<noteq> 3 \<or>
    (\<exists>m n b. im_attributes m = [\<lparr>ag_tag = 1, ag_val = [ValBool 0x22 n [b]]\<rparr>, end_group] \<and> length n < 2 ^ 15 \<and> raw = ippMsg_encode m)"
    and "iq_Method req = ''POST''" "iq_ContentType req = ''application/ipp''" "iq_Body req = Inr raw"
  shows "ippMsg_decode raw = None \<and> ipp_Handle cfg stamp now remote local_addr (Some (Inr req)) = None"
proof -
  have spin: "msg_loop [] d = None" if "spinning d" for d using msg_loop_spins that by (cases "msg_loop [] d") auto
  consider "raw = []" | "length raw = 8" "last raw \<noteq> 3"
    | m n b where "im_attributes m = [\<lparr>ag_tag = 1, ag_val = [ValBool 0x22 n [b]]\<rparr>, end_group]" "length n < 2 ^ 15" "raw = ippMsg_encode m"
    using assms(1) by blast
  then have "ippMsg_decode raw = None"
  proof cases
    case 1
    show ?thesis
      by (simp add: 1 ippMsg_decode_def dec_New_def dec_Byte_def dec_Int16_def dec_Int32_def HasBytes_def Let_def spin spinning_def)
  next
    case 2
    have "raw \<noteq> []" using 2(1) by auto
    then show ?thesis
      using 2 by (simp add: ippMsg_decode_def dec_New_def dec_Byte_def dec_Int16_def dec_Int32_def HasBytes_def Let_def spin spinning_def)
  next
    case 3
    let ?b = "if b then 1 else 0 :: byte" and ?u = "[im_versionMajor m, im_versionMinor m] @ put_be16 (im_statusCode m) @ put_be32 (im_requestID m)"
    let ?v = "put_be16 (of_nat (length n)) @ bytes_of_string n @ put_be16 1 @ [?b] @ [3]"
    have enc: "raw = im_versionMajor m # im_versionMinor m # put_be16 (im_statusCode m) @ put_be32 (im_requestID m) @ 1 # 0x22 # ?v"
      by (simp add: 3 ippMsg_encode_bytes end_group_bytes) (simp add: group_bytes_def vals_bytes_def val_bytes_def write_defs)
    have "group_loop [] (at (?u @ [1]) (0x22 # ?v) None) = None"
      using valBool_decode_spins [OF 3(2), of "?u @ [1, 0x22]" b None]
      by (subst group_loop.simps) (simp add: value_decode_def int_tags_def word_less_def)
    then have "msg_loop [] (at ?u (1 # 0x22 # ?v) None) = None" by (subst msg_loop.simps) simp
    then show ?thesis
      using Int16_at [of "[im_versionMajor m, im_versionMinor m]" "im_statusCode m" "put_be32 (im_requestID m) @ 1 # 0x22 # ?v" None]
        Int32_at [of "[im_versionMajor m, im_versionMinor m] @ put_be16 (im_statusCode m)" "im_requestID m" "1 # 0x22 # ?v" None]
      unfolding ippMsg_decode_def dec_New_at enc by (simp add: Let_def)
  qed
  then show ?thesis using assms(2-4) by (simp add: ipp_Handle_def ippHandler_def)
qed

definition sample_ipp :: ippMsg where
  "sample_ipp = \<lparr>im_versionMajor = 1, im_versionMinor = 1, im_statusCode = 2, im_requestID = 7,
     im_attributes = [\<lparr>ag_tag = 1, ag_val = [ValStr 0x47 ''attributes-charset'' [''utf-8''], ValInt 0x21 ''copies'' [1, 2]]\<rparr>, end_group],
     im_data = [], im_username = [], im_uri = [], im_format = [], im_jobname = []\<rparr>"

theorem ipp_roundtrip_witness: "ippMsg_decode (ippMsg_encode sample_ipp @ [9, 9]) = Some (Inr (sample_ipp\<lparr>im_data := [9, 9]\<rparr>))"
  using ipp_roundtrip [of sample_ipp "[\<lparr>ag_tag = 1, ag_val = [ValStr 0x47 ''attributes-charset'' [''utf-8''], ValInt 0x21 ''copies'' [1, 2]]\<rparr>]" "[9, 9]"]
  by (simp add: sample_ipp_def wf_group_def int_tags_def str_tags_def name_ok_def)

theorem ipp_decode_typed_witness:
  "\<exists>m. ippMsg_decode [1, 1, 0, 2, 0, 0, 0, 7, 3] = Some (Inr m) \<and> (\<exists>gs. im_attributes m = gs @ [end_group])"
proof -
  have "ippMsg_decode [1, 1, 0, 2, 0, 0, 0, 7, 3] = Some (Inr \<lparr>im_versionMajor = 1, im_versionMinor = 1, im_statusCode = 2, im_requestID = 7,
     im_attributes = [end_group], im_data = [], im_username = [], im_uri = [], im_format = [], im_jobname = []\<rparr>)"
    by (simp add: ippMsg_decode_def dec_New_def dec_Byte_def dec_Int16_def dec_Int32_def HasBytes_def Let_def msg_loop.simps dec_Copy_def
        LastError_def Available_def be16_def be32_def)
  from ipp_decode_typed [OF this] this show ?thesis by blast
qed

theorem ipp_never_answered_witness:
  "ipp_Handle \<lparr>ic_StorageDir = [], ic_PrinterName = ''p'', ic_SizeLimit = 10\<rparr> [] 0 (OtherAddr []) (OtherAddr [])
     (Some (Inr \<lparr>iq_Method = ''POST'', iq_ContentType = ''application/ipp'', iq_URL = ''/'', iq_Body = Inr []\<rparr>)) = None"
  using ipp_never_answered [of "[]" "\<lparr>iq_Method = ''POST'', iq_ContentType = ''application/ipp'', iq_URL = ''/'', iq_Body = Inr []\<rparr>"] by simp

end
