(* ===== verification/Ssh.thy ===== *)
theory Ssh
  imports Service_Decoder Go_Text Events
begin

text \<open>
  The SSH services that simulate a shell (\<^verbatim>\<open>ssh-simulator.go\<close>) and that run one in a jail
  (\<^verbatim>\<open>ssh-jail.go\<close>). The SSH library is a parameter: it hands over the authentication attempts, the channels a
  client opens and the requests on them. So are the terminal, the scripter and the processes.
\<close>

section \<open>Payloads\<close>



section \<open>Environment\<close>

record ssh_env =
  sh_now :: int
  sh_remote :: net_addr
  sh_local :: net_addr
  sh_id :: string
  sh_Credentials :: "string list"
  sh_MOTD :: string



datatype ssh_effect =
    Sent event
  | Rejected string
  | Replied string
  | TermWrite string
  | ChanWrite string
  | ExitStatus
  | ChanClosed
  | Started "string list"
  | PipeWrite string
  | ProcessExit

definition ssh_options :: "ssh_env \<Rightarrow> string \<Rightarrow> ev_option list" where
  "ssh_options env t =
     [ev_Sensor ''services'', ev_Category ''ssh'', ev_Type t, ev_SourceAddr (sh_remote env), ev_DestinationAddr (sh_local env),
      ev_Custom ''ssh.sessionid'' (VString (sh_id env))]"

definition ssh_send :: "ssh_env \<Rightarrow> ev_option list \<Rightarrow> ssh_effect" where
  "ssh_send env opts = Sent (ev_New (sh_now env) opts)"

section \<open>Authentication\<close>

text \<open>A public key is reported and refused; a password is reported and compared with the credentials.\<close>

definition PublicKeyCallback :: "ssh_env \<Rightarrow> string \<Rightarrow> string \<Rightarrow> string \<Rightarrow> ssh_effect \<times> bool" where
  "PublicKeyCallback env user keytype keyhex =
     (ssh_send env (ssh_options env ''publickey-authentication'' @ [ev_Custom ''ssh.username'' (VString user),
        ev_Custom ''ssh.publickey-type'' (VString keytype), ev_Custom ''ssh.publickey'' (VString keyhex)]), False)"

fun check_credentials :: "string list \<Rightarrow> string \<Rightarrow> string \<Rightarrow> bool" where
  "check_credentials [] user password = False"
| "check_credentials (credential # cs) user password =
     (if credential = ''*'' then True
      else case split_on (CHR '':'') credential of
        [u, p] \<Rightarrow> if user = u \<and> password = p then True else check_credentials cs user password
      | _ \<Rightarrow> check_credentials cs user password)"

definition PasswordCallback :: "ssh_env \<Rightarrow> string \<Rightarrow> string \<Rightarrow> ssh_effect \<times> bool" where
  "PasswordCallback env user password =
     (ssh_send env (ssh_options env ''password-authentication'' @ [ev_Custom ''ssh.username'' (VString user),
        ev_Custom ''ssh.password'' (VString password)]), check_credentials (sh_Credentials env) user password)"

definition ssh_CanHandle :: "bytes \<Rightarrow> bool" where
  "ssh_CanHandle payload = (take 3 payload = bytes_of_string ''SSH'')"

section \<open>Forwarding channels\<close>






section \<open>Requests of the simulator\<close>








section \<open>The jail\<close>












section \<open>Properties\<close>

lemma check_credentials_iff:
  "check_credentials cs user password \<longleftrightarrow> ''*'' \<in> set cs \<or> (\<exists>c \<in> set cs. split_on (CHR '':'') c = [user, password])"
proof (induction cs)
  case (Cons c cs)
  then show ?case by (auto split: list.split)
qed simp









end
