(* ===== verification/Vnc.thy ===== *)
theory Vnc
  imports Go_Strings Events "HOL-Library.Monad_Syntax"
begin

text \<open>
  The VNC service (\<^verbatim>\<open>services/vnc\<close>): the handshake and the commands of a client, the pixels of a frame in the
  format the client asks for, and the three goroutines of a connection as a step relation. A failed
  read or an unsupported command is a panic; the goroutine that reads recovers from it, the one that sends
  frames does not.
\<close>

unbundle bit_operations_syntax

section \<open>Reading from the client\<close>

fun rd1 :: "bytes \<Rightarrow> (byte \<times> bytes) option" where
  "rd1 [] = None"
| "rd1 (b # r) = Some (b, r)"

fun rd2 :: "bytes \<Rightarrow> (u16 \<times> bytes) option" where
  "rd2 (a # b # r) = Some (be16 a b, r)"
| "rd2 _ = None"

fun rd4 :: "bytes \<Rightarrow> (u32 \<times> bytes) option" where
  "rd4 (a # b # c # d # r) = Some (be32 a b c d, r)"
| "rd4 _ = None"

definition readPadding :: "nat \<Rightarrow> bytes \<Rightarrow> bytes option" where
  "readPadding n r = (if n \<le> length r then Some (drop n r) else None)"

section \<open>Pixel formats\<close>

record PixelFormat =
  pf_BPP :: byte
  pf_Depth :: byte
  pf_BigEndian :: byte
  pf_TrueColour :: byte
  pf_RedMax :: u16
  pf_GreenMax :: u16
  pf_BlueMax :: u16
  pf_RedShift :: byte
  pf_GreenShift :: byte
  pf_BlueShift :: byte

definition isScreensThousands :: "PixelFormat \<Rightarrow> bool" where
  "isScreensThousands f \<longleftrightarrow> pf_BPP f = 16 \<and> (pf_Depth f = 16 \<or> pf_Depth f = 15) \<and> pf_TrueColour f \<noteq> 0 \<and>
     pf_RedMax f = 0x1f \<and> pf_GreenMax f = 0x1f \<and> pf_BlueMax f = 0x1f \<and>
     pf_RedShift f = 10 \<and> pf_GreenShift f = 5 \<and> pf_BlueShift f = 0"

definition server_format :: PixelFormat where
  "server_format = \<lparr>pf_BPP = 16, pf_Depth = 16, pf_BigEndian = 0, pf_TrueColour = 1, pf_RedMax = 0x1f, pf_GreenMax = 0x1f,
     pf_BlueMax = 0x1f, pf_RedShift = 0xa, pf_GreenShift = 0x5, pf_BlueShift = 0\<rparr>"

text \<open>Only five bits per colour are supported.\<close>

definition inRange :: "u32 \<Rightarrow> u16 \<Rightarrow> u32" where
  "inRange v mx = (if mx = 0x1f then drop_bit 11 v else 0)"

section \<open>Images\<close>

text \<open>
  An image with its bounds. \<open>RGBA\<close> is \<^verbatim>\<open>image.RGBA\<close> with its bytes; any other image is known by its colours, whose
  components have 16 bits.
\<close>

datatype pixels = RGBA bytes | Colours "nat \<Rightarrow> nat \<Rightarrow> u32 \<times> u32 \<times> u32"

record vnc_image =
  im_MinX :: int
  im_MinY :: int
  im_width :: nat
  im_height :: nat
  im_pixels :: pixels

text \<open>\<^verbatim>\<open>color.RGBA.RGBA\<close> repeats the byte. The bytes of a row follow each other, four per pixel.\<close>

definition rgba16 :: "byte \<Rightarrow> u32" where
  "rgba16 v = ucast v OR push_bit 8 (ucast v)"

definition im_At :: "vnc_image \<Rightarrow> nat \<Rightarrow> nat \<Rightarrow> u32 \<times> u32 \<times> u32" where
  "im_At im x y = (case im_pixels im of
     RGBA pix \<Rightarrow> let i = y * (4 * im_width im) + x * 4 in (rgba16 (pix ! i), rgba16 (pix ! (i + 1)), rgba16 (pix ! (i + 2)))
   | Colours at \<Rightarrow> at x y)"

section \<open>Frames\<close>

definition put_u32 :: "bool \<Rightarrow> u32 \<Rightarrow> bytes" where
  "put_u32 bigEndian v = (if bigEndian then put_be32 v else rev (put_be32 v))"

definition put_u16 :: "bool \<Rightarrow> u16 \<Rightarrow> bytes" where
  "put_u16 bigEndian v = (if bigEndian then put_be16 v else rev (put_be16 v))"

definition pixel_value :: "PixelFormat \<Rightarrow> u32 \<times> u32 \<times> u32 \<Rightarrow> u32" where
  "pixel_value f col = (case col of (r16, g16, b16) \<Rightarrow>
     push_bit (unat (pf_RedShift f)) (inRange r16 (pf_RedMax f)) OR
     push_bit (unat (pf_GreenShift f)) (inRange g16 (pf_GreenMax f)) OR
     push_bit (unat (pf_BlueShift f)) (inRange b16 (pf_BlueMax f)))"

definition put_pixel :: "PixelFormat \<Rightarrow> u32 \<Rightarrow> bytes result" where
  "put_pixel f v =
     (if pf_BPP f = 32 then Inr (put_u32 (pf_BigEndian f \<noteq> 0) v)
      else if pf_BPP f = 16 then Inr (put_u16 (pf_BigEndian f \<noteq> 0) (ucast v))
      else if pf_BPP f = 8 then Inr [ucast v]
      else Inl (Panic (ExplicitPanic ''TODO: BPP'')))"

fun put_pixels :: "PixelFormat \<Rightarrow> u32 list \<Rightarrow> bytes result" where
  "put_pixels f [] = Inr []"
| "put_pixels f (v # vs) = bindR (put_pixel f v) (\<lambda>bs. bindR (put_pixels f vs) (\<lambda>r. Inr (bs @ r)))"

definition pushGenericLocked :: "PixelFormat \<Rightarrow> vnc_image \<Rightarrow> bytes result" where
  "pushGenericLocked f im =
     put_pixels f (concat (map (\<lambda>y. map (\<lambda>x. pixel_value f (im_At im x y)) [0..<im_width im]) [0..<im_height im]))"

text \<open>The fast path runs once over the bytes and collects a pixel in a 16-bit word.\<close>

fun thousands_loop :: "bool \<Rightarrow> nat \<Rightarrow> u16 \<Rightarrow> bytes \<Rightarrow> bytes" where
  "thousands_loop bigEndian i u16 [] = []"
| "thousands_loop bigEndian i u16 (v8 # pix) =
     (if i mod 4 = 0 then thousands_loop bigEndian (i + 1) (push_bit 7 (ucast (v8 AND 248))) pix
      else if i mod 4 = 1 then thousands_loop bigEndian (i + 1) (u16 OR push_bit 2 (ucast (v8 AND 248))) pix
      else if i mod 4 = 2 then thousands_loop bigEndian (i + 1) (u16 OR ucast (drop_bit 3 v8)) pix
      else (let hb = ucast (drop_bit 8 u16); lb = ucast u16 in if bigEndian then [hb, lb] else [lb, hb]) @
           thousands_loop bigEndian (i + 1) u16 pix)"

definition pushRGBAScreensThousandsLocked :: "PixelFormat \<Rightarrow> bytes \<Rightarrow> bytes" where
  "pushRGBAScreensThousandsLocked f pix = thousands_loop (pf_BigEndian f \<noteq> 0) 0 0 pix"

definition frame_header :: "vnc_image \<Rightarrow> u32 \<Rightarrow> bytes" where
  "frame_header im encoding =
     [0, 0] @ put_be16 1 @ put_be16 0 @ put_be16 0 @ put_be16 (of_nat (im_width im)) @ put_be16 (of_nat (im_height im)) @ put_be32 encoding"

definition pushImage :: "PixelFormat \<Rightarrow> vnc_image \<Rightarrow> bytes result" where
  "pushImage f im =
     (if im_MinX im \<noteq> 0 \<or> im_MinY im \<noteq> 0 then Inr []
      else if pf_TrueColour f = 0 then Inl (Panic (ExplicitPanic ''only true-colour supported''))
      else bindR (case im_pixels im of
             RGBA pix \<Rightarrow> if isScreensThousands f then Inr (pushRGBAScreensThousandsLocked f pix) else pushGenericLocked f im
           | Colours at \<Rightarrow> pushGenericLocked f im)
         (\<lambda>px. Inr (frame_header im 0 @ px)))"

record FrameBufferUpdateRequest =
  fb_IncrementalFlag :: byte
  fb_X :: u16
  fb_Y :: u16
  fb_Width :: u16
  fb_Height :: u16

definition pushFrame :: "PixelFormat \<Rightarrow> vnc_image option \<Rightarrow> FrameBufferUpdateRequest \<Rightarrow> bytes result" where
  "pushFrame f lst ur = (case lst of
     None \<Rightarrow> Inr []
   | Some im \<Rightarrow>
       if fb_IncrementalFlag ur \<noteq> 0 then Inr (frame_header im 1 @ put_be16 0 @ put_be16 0) else pushImage f im)"

section \<open>Connections\<close>

datatype vnc_event = KeyEvent byte u32 | PointerEvent byte u16 u16

datatype vnc_status = Serving | Disconnected | Crashed panic

record vnc_Conn =
  vc_in :: bytes
  vc_out :: bytes
  vc_format :: PixelFormat
  vc_feed :: "vnc_image list"
  vc_last :: "vnc_image option"
  vc_fbupc :: "FrameBufferUpdateRequest list"
  vc_event :: "vnc_event list"
  vc_gotFirstFrame :: bool
  vc_pushing :: bool
  vc_closec :: bool
  vc_status :: vnc_status

definition v3 :: bytes where "v3 = bytes_of_string (''RFB 003.003'' @ [CHR 0x0A])"
definition v7 :: bytes where "v7 = bytes_of_string (''RFB 003.007'' @ [CHR 0x0A])"
definition v8 :: bytes where "v8 = bytes_of_string (''RFB 003.008'' @ [CHR 0x0A])"

definition read_line :: "bytes \<Rightarrow> (bytes \<times> bytes) option" where
  "read_line r = (if 10 \<in> set r then let l = takeWhile (\<lambda>b. b \<noteq> 10) r in Some (l @ [10], drop (length l + 1) r) else None)"

definition server_init :: "nat \<Rightarrow> nat \<Rightarrow> string \<Rightarrow> PixelFormat \<Rightarrow> bytes" where
  "server_init width height name f =
     put_be16 (of_nat width) @ put_be16 (of_nat height) @ [pf_BPP f, pf_Depth f, pf_BigEndian f, pf_TrueColour f] @
     put_be16 (pf_RedMax f) @ put_be16 (pf_GreenMax f) @ put_be16 (pf_BlueMax f) @ [pf_RedShift f, pf_GreenShift f, pf_BlueShift f] @
     [0, 0, 0] @ put_be32 (of_nat (length name)) @ bytes_of_string name"

text \<open>\<^verbatim>\<open>serve\<close> up to its loop; \<open>None\<close> is a failure, after which the client is disconnected.\<close>

definition vnc_handshake :: "nat \<Rightarrow> nat \<Rightarrow> string \<Rightarrow> bytes \<Rightarrow> vnc_Conn option" where
  "vnc_handshake width height name input =
     do {
       (ver, r1) \<leftarrow> read_line input;
       _ \<leftarrow> (if ver \<in> {v3, v7, v8} then Some () else None);
       (auth, r2) \<leftarrow> (if ver \<noteq> v3
                       then do { (wanted, r) \<leftarrow> rd1 r1; (if wanted = 1 then Some ([1, 1], r) else None) }
                       else Some (put_be32 1, r1));
       (shared, r3) \<leftarrow> rd1 r2;
       Some \<lparr>vc_in = r3,
         vc_out = v8 @ auth @ (if ver = v8 then put_be32 0 else []) @ server_init width height name server_format,
         vc_format = server_format, vc_feed = [], vc_last = None, vc_fbupc = [], vc_event = [], vc_gotFirstFrame = False,
         vc_pushing = False, vc_closec = False, vc_status = Serving\<rparr>
     }"

definition handleSetPixelFormat :: "vnc_Conn \<Rightarrow> bytes \<Rightarrow> vnc_Conn option" where
  "handleSetPixelFormat c r0 =
     do {
       r \<leftarrow> readPadding 3 r0;
       (bpp, r) \<leftarrow> rd1 r; (depth, r) \<leftarrow> rd1 r; (be, r) \<leftarrow> rd1 r; (tc, r) \<leftarrow> rd1 r;
       (rm, r) \<leftarrow> rd2 r; (gm, r) \<leftarrow> rd2 r; (bm, r) \<leftarrow> rd2 r;
       (rs, r) \<leftarrow> rd1 r; (gs, r) \<leftarrow> rd1 r; (bs, r) \<leftarrow> rd1 r;
       r \<leftarrow> readPadding 3 r;
       Some (c\<lparr>vc_in := r, vc_format := \<lparr>pf_BPP = bpp, pf_Depth = depth, pf_BigEndian = be, pf_TrueColour = tc,
         pf_RedMax = rm, pf_GreenMax = gm, pf_BlueMax = bm, pf_RedShift = rs, pf_GreenShift = gs, pf_BlueShift = bs\<rparr>\<rparr>)
     }"

definition handleSetEncodings :: "vnc_Conn \<Rightarrow> bytes \<Rightarrow> vnc_Conn option" where
  "handleSetEncodings c r0 =
     do {
       r \<leftarrow> readPadding 1 r0;
       (n, r) \<leftarrow> rd2 r;
       r \<leftarrow> readPadding (4 * unat n) r;
       Some (c\<lparr>vc_in := r\<rparr>)
     }"

text \<open>The first request waits for a frame and starts the goroutine that sends frames.\<close>

definition first_frame :: "vnc_Conn \<Rightarrow> vnc_Conn" where
  "first_frame c =
     (if vc_gotFirstFrame c then c
      else c\<lparr>vc_last := Some (hd (vc_feed c)), vc_feed := tl (vc_feed c), vc_gotFirstFrame := True, vc_pushing := True\<rparr>)"

definition handleUpdateRequest :: "vnc_Conn \<Rightarrow> bytes \<Rightarrow> vnc_Conn option" where
  "handleUpdateRequest c0 r0 =
     do {
       let c = first_frame c0;
       (inc, r) \<leftarrow> rd1 r0; (x, r) \<leftarrow> rd2 r; (y, r) \<leftarrow> rd2 r; (w, r) \<leftarrow> rd2 r; (h, r) \<leftarrow> rd2 r;
       Some (c\<lparr>vc_in := r, vc_fbupc := vc_fbupc c @ [\<lparr>fb_IncrementalFlag = inc, fb_X = x, fb_Y = y, fb_Width = w, fb_Height = h\<rparr>]\<rparr>)
     }"

text \<open>An event that finds the channel full is dropped.\<close>

definition send_event :: "vnc_Conn \<Rightarrow> vnc_event \<Rightarrow> vnc_Conn" where
  "send_event c e = (if length (vc_event c) < 16 then c\<lparr>vc_event := vc_event c @ [e]\<rparr> else c)"

definition handleKeyEvent :: "vnc_Conn \<Rightarrow> bytes \<Rightarrow> vnc_Conn option" where
  "handleKeyEvent c r0 =
     do { (down, r) \<leftarrow> rd1 r0; r \<leftarrow> readPadding 2 r; (key, r) \<leftarrow> rd4 r; Some (send_event (c\<lparr>vc_in := r\<rparr>) (KeyEvent down key)) }"

definition handlePointerEvent :: "vnc_Conn \<Rightarrow> bytes \<Rightarrow> vnc_Conn option" where
  "handlePointerEvent c r0 =
     do { (mask, r) \<leftarrow> rd1 r0; (x, r) \<leftarrow> rd2 r; (y, r) \<leftarrow> rd2 r; Some (send_event (c\<lparr>vc_in := r\<rparr>) (PointerEvent mask x y)) }"

definition vnc_command :: "vnc_Conn \<Rightarrow> vnc_Conn option" where
  "vnc_command c =
     do {
       (cmd, r) \<leftarrow> rd1 (vc_in c);
       (if cmd = 0 then handleSetPixelFormat c r
        else if cmd = 2 then handleSetEncodings c r
        else if cmd = 3 then handleUpdateRequest c r
        else if cmd = 5 then handlePointerEvent c r
        else if cmd = 4 then handleKeyEvent c r
        else None)
     }"

text \<open>
  A command that has to wait: for the first frame, or for space in the channel of update requests. When
  the reader fails, it recovers and disconnects; an update request that is cut short has started the
  frames loop by then.
\<close>

definition vnc_blocked :: "vnc_Conn \<Rightarrow> bool" where
  "vnc_blocked c \<longleftrightarrow> take 1 (vc_in c) = [3] \<and>
     (\<not> vc_gotFirstFrame c \<and> vc_feed c = [] \<or> 128 \<le> length (vc_fbupc c) \<and> vnc_command c \<noteq> None)"

definition serve_step :: "vnc_Conn \<Rightarrow> vnc_Conn" where
  "serve_step c = (case vnc_command c of
     None \<Rightarrow> (if take 1 (vc_in c) = [3] then first_frame c else c)\<lparr>vc_status := Disconnected\<rparr>
   | Some c' \<Rightarrow> c')"

definition sent :: "vnc_Conn \<Rightarrow> bytes result \<Rightarrow> vnc_Conn" where
  "sent c r = (case r of
     Inr bs \<Rightarrow> c\<lparr>vc_out := vc_out c @ bs\<rparr>
   | Inl (Panic p) \<Rightarrow> c\<lparr>vc_status := Crashed p\<rparr>
   | Inl (Error e) \<Rightarrow> c)"

definition alive :: "vnc_Conn \<Rightarrow> bool" where
  "alive c \<longleftrightarrow> vc_status c = Serving \<or> vc_status c = Disconnected"

text \<open>
  The goroutines of a connection of a service that shows the image \<open>im\<close>: a tick feeds the image until
  \<^verbatim>\<open>Handle\<close> has seen the events closed, the connection handles a command, the frames loop takes a request or
  a frame and ends when the requests are closed, \<^verbatim>\<open>Handle\<close> drops the events. A panic in the
  frames loop ends the process.
\<close>

inductive vnc_step :: "vnc_image \<Rightarrow> vnc_Conn \<Rightarrow> vnc_Conn \<Rightarrow> bool" for im where
  tick: "alive c \<Longrightarrow> \<not> vc_closec c \<Longrightarrow> length (vc_feed c) < 16 \<Longrightarrow> vnc_step im c (c\<lparr>vc_feed := vc_feed c @ [im]\<rparr>)"
| serve: "vc_status c = Serving \<Longrightarrow> \<not> vnc_blocked c \<Longrightarrow> vnc_step im c (serve_step c)"
| push_request: "alive c \<Longrightarrow> vc_pushing c \<Longrightarrow> vc_fbupc c = ur # urs \<Longrightarrow>
    vnc_step im c (sent (c\<lparr>vc_fbupc := urs\<rparr>) (pushFrame (vc_format c) (vc_last c) ur))"
| push_frame: "alive c \<Longrightarrow> vc_pushing c \<Longrightarrow> vc_feed c = li # lis \<Longrightarrow>
    vnc_step im c (sent (c\<lparr>vc_feed := lis, vc_last := Some li\<rparr>) (pushImage (vc_format c) li))"
| push_end: "vc_status c = Disconnected \<Longrightarrow> vc_fbupc c = [] \<Longrightarrow> vnc_step im c (c\<lparr>vc_pushing := False\<rparr>)"
| take_event: "alive c \<Longrightarrow> vc_event c = e # es \<Longrightarrow> vnc_step im c (c\<lparr>vc_event := es\<rparr>)"
| handle_end: "vc_status c = Disconnected \<Longrightarrow> vc_event c = [] \<Longrightarrow> vnc_step im c (c\<lparr>vc_closec := True\<rparr>)"

inductive vnc_run :: "vnc_image \<Rightarrow> vnc_Conn \<Rightarrow> vnc_Conn \<Rightarrow> bool" for im where
  refl: "vnc_run im c c"
| step: "vnc_run im c c1 \<Longrightarrow> vnc_step im c1 c2 \<Longrightarrow> vnc_run im c c2"

text \<open>A client that asks for a colour map and one frame.\<close>

definition palette_client :: bytes where
  "palette_client = v8 @ [1, 1] @ [0, 0, 0, 0, 8, 8, 0, 0, 0, 0, 0, 0, 0, 0, 0, 0, 0, 0, 0, 0] @ [3, 0, 0, 0, 0, 0, 0, 1, 0, 1]"

definition dot_image :: vnc_image where
  "dot_image = \<lparr>im_MinX = 0, im_MinY = 0, im_width = 1, im_height = 1, im_pixels = RGBA [255, 255, 255, 255]\<rparr>"

definition good_format :: "PixelFormat \<Rightarrow> bool" where
  "good_format f \<longleftrightarrow> pf_TrueColour f \<noteq> 0 \<and> (pf_BPP f = 8 \<or> pf_BPP f = 16 \<or> pf_BPP f = 32)"

section \<open>The fast path\<close>

lemma and_248: "v AND 248 = push_bit 3 (drop_bit 3 v)" for v :: byte
proof -
  have "(248 :: byte) = push_bit 3 (mask 5)"
    by (simp add: mask_eq_exp_minus_1 push_bit_eq_mult)
  then show ?thesis
    by (auto simp: bit_eq_iff bit_simps)
qed

definition thousand :: "byte \<Rightarrow> byte \<Rightarrow> byte \<Rightarrow> u16" where
  "thousand r g b = push_bit 7 (ucast (r AND 248)) OR push_bit 2 (ucast (g AND 248)) OR ucast (drop_bit 3 b)"

lemma inRange_rgba16: "inRange (rgba16 v) 0x1f = ucast (drop_bit 3 v)"
  by (rule bit_word_eqI) (auto simp: inRange_def rgba16_def bit_simps dest: bit_imp_le_length)

lemma thousand_pixel_value:
  assumes "isScreensThousands f"
  shows "ucast (pixel_value f (rgba16 r, rgba16 g, rgba16 b)) = thousand r g b"
proof -
  have f: "pf_RedMax f = 0x1f" "pf_GreenMax f = 0x1f" "pf_BlueMax f = 0x1f" "unat (pf_RedShift f) = 10"
    "unat (pf_GreenShift f) = 5" "unat (pf_BlueShift f) = 0"
    using assms by (simp_all add: isScreensThousands_def)
  have r: "ucast (push_bit 10 (ucast (drop_bit 3 r) :: u32)) = (push_bit 7 (ucast (push_bit 3 (drop_bit 3 r))) :: u16)"
    by (rule bit_word_eqI) (auto simp: bit_simps dest: bit_imp_le_length)
  have g: "ucast (push_bit 5 (ucast (drop_bit 3 g) :: u32)) = (push_bit 2 (ucast (push_bit 3 (drop_bit 3 g))) :: u16)"
    by (rule bit_word_eqI) (auto simp: bit_simps dest: bit_imp_le_length)
  have b: "ucast (push_bit 0 (ucast (drop_bit 3 b) :: u32)) = (ucast (drop_bit 3 b) :: u16)"
    by (rule bit_word_eqI) (auto simp: bit_simps dest: bit_imp_le_length)
  show ?thesis
    unfolding pixel_value_def thousand_def and_248 prod.case f inRange_rgba16 unsigned_or_eq r g b ..
qed

lemma put_u16_bytes: "put_u16 be u = (if be then [ucast (drop_bit 8 u), ucast u] else [ucast u, ucast (drop_bit 8 u)])"
  by (simp add: put_u16_def put_be16_def)

lemma thousands_loop_pixel:
  assumes "i mod 4 = 0"
  shows "thousands_loop be i u (r # g # b # a # pix) = put_u16 be (thousand r g b) @ thousands_loop be (Suc (Suc (Suc (Suc i)))) (thousand r g b) pix"
proof -
  have "Suc i mod 4 = 1" "Suc (Suc i) mod 4 = 2" "Suc (Suc (Suc i)) mod 4 = 3"
    using assms by presburger+
  then show ?thesis
    using assms by (simp add: Let_def thousand_def put_u16_bytes or.assoc)
qed

lemma put_pixels_16:
  assumes "pf_BPP f = 16"
  shows "put_pixels f vs = Inr (concat (map (\<lambda>v. put_u16 (pf_BigEndian f \<noteq> 0) (ucast v)) vs))"
  using assms by (induction vs) (simp_all add: put_pixel_def)

lemma thousands_loop_pixels:
  "length pix = 4 * n \<Longrightarrow> i mod 4 = 0 \<Longrightarrow>
   thousands_loop be i u pix = concat (map (\<lambda>k. put_u16 be (thousand (pix ! (4 * k)) (pix ! (4 * k + 1)) (pix ! (4 * k + 2)))) [0..<n])"
proof (induction n arbitrary: pix i u)
  case 0
  then show ?case by simp
next
  case (Suc n)
  then have "length pix = Suc (Suc (Suc (Suc (4 * n))))"
    by simp
  then obtain r g b a rest where pix: "pix = r # g # b # a # rest" "length rest = 4 * n"
    by (auto simp: length_Suc_conv)
  have up: "[0..<Suc n] = 0 # map Suc [0..<n]"
    by (simp add: map_Suc_upt upt_conv_Cons del: upt_Suc)
  have "Suc (Suc (Suc (Suc i))) mod 4 = 0"
    using Suc.prems(2) by presburger
  from Suc.IH [OF pix(2) this] show ?case
    unfolding pix(1) thousands_loop_pixel [OF Suc.prems(2)] up
    by (simp add: comp_def)
qed

lemma rows_flat: "concat (map (\<lambda>y. map (\<lambda>x. F (y * w + x)) [0..<w]) [0..<h]) = map F [0..<h * w]"
proof (induction h)
  case (Suc h)
  have "[0..<Suc h * w] = [0..<h * w] @ [h * w..<h * w + w]"
    by (metis add.commute mult_Suc upt_add_eq_append zero_le)
  moreover have "[h * w..<h * w + w] = map (\<lambda>x. h * w + x) [0..<w]"
    by (simp add: map_add_upt add.commute)
  ultimately show ?case
    using Suc.IH by simp
qed simp

text \<open>
  C9: the fast path of the screens thousands format sends the bytes that the generic path sends,
  for every image of the type the fast path is for.
\<close>

theorem vnc_fast_path:
  assumes "isScreensThousands f" and "im_pixels im = RGBA pix" and "length pix = 4 * (im_height im * im_width im)"
  shows "pushGenericLocked f im = Inr (pushRGBAScreensThousandsLocked f pix)"
proof -
  have bpp: "pf_BPP f = 16"
    using assms(1) by (simp add: isScreensThousands_def)
  define F where "F k = pixel_value f (rgba16 (pix ! (4 * k)), rgba16 (pix ! (4 * k + 1)), rgba16 (pix ! (4 * k + 2)))" for k
  have "pixel_value f (im_At im x y) = F (y * im_width im + x)" for x y
    by (simp add: F_def im_At_def assms(2) Let_def algebra_simps)
  then have "pushGenericLocked f im = Inr (concat (map (\<lambda>k. put_u16 (pf_BigEndian f \<noteq> 0) (ucast (F k))) [0..<im_height im * im_width im]))"
    by (simp add: pushGenericLocked_def put_pixels_16 [OF bpp] rows_flat comp_def)
  moreover have "ucast (F k) = thousand (pix ! (4 * k)) (pix ! (4 * k + 1)) (pix ! (4 * k + 2))" for k
    unfolding F_def using assms(1) by (rule thousand_pixel_value)
  ultimately show ?thesis
    using thousands_loop_pixels [OF assms(3), of 0] by (simp add: pushRGBAScreensThousandsLocked_def)
qed

theorem vnc_fast_path_witness:
  "pushGenericLocked server_format \<lparr>im_MinX = 0, im_MinY = 0, im_width = 2, im_height = 1, im_pixels = RGBA [255, 128, 8, 255, 1, 2, 250, 0]\<rparr>
     = Inr (pushRGBAScreensThousandsLocked server_format [255, 128, 8, 255, 1, 2, 250, 0]) \<and>
   pushRGBAScreensThousandsLocked server_format [255, 128, 8, 255, 1, 2, 250, 0] = [1, 126, 31, 0]"
proof
  show "pushGenericLocked server_format \<lparr>im_MinX = 0, im_MinY = 0, im_width = 2, im_height = 1, im_pixels = RGBA [255, 128, 8, 255, 1, 2, 250, 0]\<rparr>
     = Inr (pushRGBAScreensThousandsLocked server_format [255, 128, 8, 255, 1, 2, 250, 0])"
    by (rule vnc_fast_path) (simp_all add: server_format_def isScreensThousands_def)
  show "pushRGBAScreensThousandsLocked server_format [255, 128, 8, 255, 1, 2, 250, 0] = [1, 126, 31, 0]"
    by code_simp
qed

section \<open>The frames loop\<close>

lemma put_pixel_ok: "good_format f \<Longrightarrow> \<exists>bs. put_pixel f v = Inr bs"
  by (auto simp: good_format_def put_pixel_def)

lemma put_pixels_ok: "good_format f \<Longrightarrow> \<exists>bs. put_pixels f vs = Inr bs"
proof (induction vs)
  case (Cons v vs)
  then show ?case
    using put_pixel_ok [of f v] by auto
qed simp

lemma pushImage_ok: "good_format f \<Longrightarrow> \<exists>bs. pushImage f im = Inr bs"
proof -
  assume f: "good_format f"
  then obtain bs where "pushGenericLocked f im = Inr bs"
    using put_pixels_ok by (fastforce simp: pushGenericLocked_def)
  with f show ?thesis
    by (cases "im_pixels im") (simp_all add: pushImage_def good_format_def)
qed

lemma pushFrame_ok: "good_format f \<Longrightarrow> \<exists>bs. pushFrame f lst ur = Inr bs"
  using pushImage_ok by (auto simp: pushFrame_def split: option.splits)

lemma vnc_command_status: "vnc_command c = Some c' \<Longrightarrow> vc_status c' = vc_status c"
  by (auto simp: vnc_command_def handleSetPixelFormat_def handleSetEncodings_def handleUpdateRequest_def handleKeyEvent_def
      handlePointerEvent_def send_event_def first_frame_def Let_def split: if_splits bind_splits)

lemma sent_simps [simp]:
  "vc_format (sent c r) = vc_format c"
  "vc_status (sent c (Inr bs)) = vc_status c"
  "vc_status (sent c (Inl (Panic q))) = Crashed q"
  by (simp_all add: sent_def split: sum.splits failure.splits)

lemma vnc_step_crashed:
  assumes "vnc_step im c c'" and "vc_status c' = Crashed p"
  shows "\<not> good_format (vc_format c')"
  using assms
proof cases
  case serve
  then show ?thesis
    using assms(2) vnc_command_status [of c]
    by (auto simp: serve_step_def first_frame_def split: option.splits)
next
  case (push_request ur urs)
  then show ?thesis
    using assms(2) pushFrame_ok [of "vc_format c" "vc_last c" ur]
    by (auto simp: alive_def)
next
  case (push_frame li lis)
  then show ?thesis
    using assms(2) pushImage_ok [of "vc_format c" li]
    by (auto simp: alive_def)
qed (auto simp: alive_def)

lemma vnc_run_crashed:
  assumes "vnc_handshake width height name input = Some c0" and "vnc_run im c0 c" and "vc_status c = Crashed p"
  shows "\<not> good_format (vc_format c)"
proof -
  have "vc_status c0 = Serving"
    using assms(1) by (auto simp: vnc_handshake_def split: bind_splits if_splits)
  from assms(2) this assms(3) show ?thesis
    by cases (simp_all add: vnc_step_crashed)
qed

lemma vnc_run_step: "vnc_step im c c1 \<Longrightarrow> vnc_run im c1 c2 \<Longrightarrow> vnc_run im c c2"
  by (rotate_tac 1, induction rule: vnc_run.induct) (auto intro: vnc_run.intros)

lemma palette_handshake:
  "vnc_handshake width height name palette_client =
     Some \<lparr>vc_in = [0, 0, 0, 0, 8, 8, 0, 0, 0, 0, 0, 0, 0, 0, 0, 0, 0, 0, 0, 0, 3, 0, 0, 0, 0, 0, 0, 1, 0, 1],
       vc_out = v8 @ [1, 1] @ put_be32 0 @ server_init width height name server_format, vc_format = server_format, vc_feed = [],
       vc_last = None, vc_fbupc = [], vc_event = [], vc_gotFirstFrame = False, vc_pushing = False, vc_closec = False, vc_status = Serving\<rparr>"
proof -
  have "read_line palette_client = Some (v8, [1, 1] @ [0, 0, 0, 0, 8, 8, 0, 0, 0, 0, 0, 0, 0, 0, 0, 0, 0, 0, 0, 0, 3, 0, 0, 0, 0, 0, 0, 1, 0, 1])"
    by code_simp
  moreover have "v8 \<noteq> v3" "v8 \<noteq> v7"
    by code_simp+
  ultimately show ?thesis
    by (simp add: vnc_handshake_def)
qed

lemma palette_format:
  assumes "vc_in c = [0, 0, 0, 0, 8, 8, 0, 0, 0, 0, 0, 0, 0, 0, 0, 0, 0, 0, 0, 0, 3, 0, 0, 0, 0, 0, 0, 1, 0, 1]"
  shows "\<not> vnc_blocked c" "serve_step c = c\<lparr>vc_in := [3, 0, 0, 0, 0, 0, 0, 1, 0, 1],
    vc_format := \<lparr>pf_BPP = 8, pf_Depth = 8, pf_BigEndian = 0, pf_TrueColour = 0, pf_RedMax = 0, pf_GreenMax = 0, pf_BlueMax = 0,
      pf_RedShift = 0, pf_GreenShift = 0, pf_BlueShift = 0\<rparr>\<rparr>"
  using assms by (simp_all add: vnc_blocked_def serve_step_def vnc_command_def handleSetPixelFormat_def readPadding_def be16_def)

lemma first_request:
  assumes "vc_in c = [3, 0, 0, 0, 0, 0, 0, 1, 0, 1]" "\<not> vc_gotFirstFrame c" "vc_feed c = [im]" "vc_fbupc c = []"
  shows "\<not> vnc_blocked c" "serve_step c = c\<lparr>vc_in := [], vc_last := Some im, vc_feed := [], vc_gotFirstFrame := True, vc_pushing := True,
    vc_fbupc := [\<lparr>fb_IncrementalFlag = 0, fb_X = 0, fb_Y = 0, fb_Width = 1, fb_Height = 1\<rparr>]\<rparr>"
  using assms by (simp_all add: vnc_blocked_def serve_step_def vnc_command_def handleUpdateRequest_def first_frame_def be16_def)

lemma palette_run:
  assumes "im_MinX im = 0" and "im_MinY im = 0"
  shows "\<exists>c0 c. vnc_handshake width height name palette_client = Some c0 \<and> vnc_run im c0 c \<and>
    vc_status c = Crashed (ExplicitPanic ''only true-colour supported'')"
proof -
  obtain c0 where c0: "vnc_handshake width height name palette_client = Some c0"
    and f0: "vc_in c0 = [0, 0, 0, 0, 8, 8, 0, 0, 0, 0, 0, 0, 0, 0, 0, 0, 0, 0, 0, 0, 3, 0, 0, 0, 0, 0, 0, 1, 0, 1]"
      "vc_feed c0 = []" "vc_fbupc c0 = []" "\<not> vc_gotFirstFrame c0" "\<not> vc_closec c0" "vc_status c0 = Serving"
    using palette_handshake [of width height name] by simp
  define c1 where "c1 = c0\<lparr>vc_feed := [im]\<rparr>"
  define c2 where "c2 = serve_step c1"
  define c3 where "c3 = serve_step c2"
  have s1: "vnc_step im c0 c1"
    using vnc_step.tick [of c0 im] f0 by (simp add: c1_def alive_def)
  have in1: "vc_in c1 = [0, 0, 0, 0, 8, 8, 0, 0, 0, 0, 0, 0, 0, 0, 0, 0, 0, 0, 0, 0, 3, 0, 0, 0, 0, 0, 0, 1, 0, 1]"
    by (simp add: c1_def f0)
  have s2: "vnc_step im c1 c2"
    unfolding c2_def by (rule vnc_step.serve [OF _ palette_format(1) [OF in1]]) (simp add: c1_def f0)
  have f2: "vc_in c2 = [3, 0, 0, 0, 0, 0, 0, 1, 0, 1]" "vc_feed c2 = [im]" "vc_fbupc c2 = []" "\<not> vc_gotFirstFrame c2"
    "vc_status c2 = Serving" "pf_TrueColour (vc_format c2) = 0"
    unfolding c2_def palette_format(2) [OF in1] unfolding c1_def by (simp_all add: f0)
  note r2 = first_request [OF f2(1,4,2,3)]
  have s3: "vnc_step im c2 c3"
    unfolding c3_def by (rule vnc_step.serve [OF f2(5) r2(1)])
  have "vc_status (sent (c3\<lparr>vc_fbupc := []\<rparr>) (pushFrame (vc_format c3) (vc_last c3) \<lparr>fb_IncrementalFlag = 0, fb_X = 0, fb_Y = 0, fb_Width = 1, fb_Height = 1\<rparr>))
      = Crashed (ExplicitPanic ''only true-colour supported'')"
    by (simp add: c3_def r2(2) pushFrame_def pushImage_def assms f2(6))
  moreover have "vnc_step im c3 (sent (c3\<lparr>vc_fbupc := []\<rparr>) (pushFrame (vc_format c3) (vc_last c3)
      \<lparr>fb_IncrementalFlag = 0, fb_X = 0, fb_Y = 0, fb_Width = 1, fb_Height = 1\<rparr>))"
    by (rule vnc_step.push_request) (simp_all add: c3_def r2(2) f2 alive_def)
  ultimately show ?thesis
    using c0 vnc_run_step [OF s1 vnc_run_step [OF s2 vnc_run_step [OF s3 vnc_run_step [OF _ vnc_run.refl]]]] by blast
qed

text \<open>
  C34: the frames loop, whose panics nothing recovers, can end the process, and only under a pixel format with a colour map or
  with a number of bits that is not supported. A client that asks for a colour map and then for a frame does it: in a
  run of its connection the frames loop panics.
\<close>

theorem vnc_crash_format:
  assumes "im_MinX im = 0" and "im_MinY im = 0"
  shows "(\<exists>c0 c. vnc_handshake width height name palette_client = Some c0 \<and> vnc_run im c0 c \<and>
      vc_status c = Crashed (ExplicitPanic ''only true-colour supported'')) \<and>
    (\<forall>input c0 c p. vnc_handshake width height name input = Some c0 \<longrightarrow> vnc_run im c0 c \<longrightarrow> vc_status c = Crashed p \<longrightarrow>
      \<not> good_format (vc_format c))"
  using palette_run [OF assms, of width height name] vnc_run_crashed by blast

theorem vnc_crash_format_witness:
  "(\<exists>c0 c. vnc_handshake 1 1 ''desk'' palette_client = Some c0 \<and> vnc_run dot_image c0 c \<and>
      vc_status c = Crashed (ExplicitPanic ''only true-colour supported'') \<and> \<not> good_format (vc_format c))"
proof -
  have "im_MinX dot_image = 0" "im_MinY dot_image = 0"
    by (simp_all add: dot_image_def)
  from vnc_crash_format [OF this, of 1 1 "''desk''"] show ?thesis
    by blast
qed

end
