(* ===== verification/Smtp.thy ===== *)
theory Smtp
  imports Go_Text Events
begin

text \<open>
  The SMTP service (\<^verbatim>\<open>services/smtp\<close>): the state functions of a session with their replies, the message a
  session collects, and the events of the service. The parsers of \<^verbatim>\<open>net/mail\<close>, the hash, the quotes of error texts and what a TLS handshake
  yields are parameters. A session is total: every state reads a line, counts or ends.
\<close>

section \<open>Reading\<close>

text \<open>\<^verbatim>\<open>textproto.Conn.ReadLine\<close>: a line without its end; what precedes the end of the input is a line too.\<close>

definition text_ReadLine :: "string \<Rightarrow> (string \<times> string) option" where
  "text_ReadLine inp =
     (if inp = [] then None
      else let l = takeWhile (\<lambda>c. c \<noteq> CHR 0x0A) inp in
        if length l = length inp then Some (l, [])
        else Some (if l \<noteq> [] \<and> last l = CHR 0x0D then butlast l else l, drop (length l + 1) inp))"

text \<open>
  \<^verbatim>\<open>textproto.Conn.DotReader\<close> read to its end: the text up to a line with a single dot. In the states after a
  carriage return a byte that is no line feed is given back.
\<close>

datatype dot_state = BeginLine | Dot | DotCR | CR | Data

function (sequential) dot_read :: "dot_state \<Rightarrow> string \<Rightarrow> (string \<times> string) option" where
  "dot_read st [] = None"
| "dot_read BeginLine (c # r) =
     (if c = CHR ''.'' then dot_read Dot r
      else if c = CHR 0x0D then dot_read CR r
      else map_option (map_prod ((#) c) id) (dot_read Data r))"
| "dot_read Dot (c # r) =
     (if c = CHR 0x0D then dot_read DotCR r
      else if c = CHR 0x0A then Some ([], r)
      else map_option (map_prod ((#) c) id) (dot_read Data r))"
| "dot_read DotCR (c # r) =
     (if c = CHR 0x0A then Some ([], r) else map_option (map_prod ((#) (CHR 0x0D)) id) (dot_read Data (c # r)))"
| "dot_read CR (c # r) =
     (if c = CHR 0x0A then map_option (map_prod ((#) c) id) (dot_read BeginLine r)
      else map_option (map_prod ((#) (CHR 0x0D)) id) (dot_read Data (c # r)))"
| "dot_read Data (c # r) =
     (if c = CHR 0x0D then dot_read CR r
      else map_option (map_prod ((#) c) id) (dot_read (if c = CHR 0x0A then BeginLine else Data) r))"
  by pat_completeness auto
termination
  by (relation "measure (\<lambda>(st, r). 2 * length r + (if st = DotCR \<or> st = CR then 1 else 0))") auto

text \<open>What a client sends for the lines of a message, and the text they are.\<close>

definition dot_stuff :: "string list \<Rightarrow> string" where
  "dot_stuff ls = concat (map (\<lambda>l. (if take 1 l = ''.'' then CHR ''.'' # l else l) @ CRLF) ls) @ ''.'' @ CRLF"

definition text_of :: "string list \<Rightarrow> string" where
  "text_of ls = concat (map (\<lambda>l. l @ [CHR 0x0A]) ls)"

definition plain_line :: "string \<Rightarrow> bool" where
  "plain_line l \<longleftrightarrow> CHR 0x0D \<notin> set l \<and> CHR 0x0A \<notin> set l"

section \<open>Messages\<close>

type_synonym mail_Header = "(string \<times> string list) list"

record Message =
  m_From :: "string option"
  m_To :: "string option list"
  m_Domain :: string
  m_RemoteAddr :: string
  m_Header :: mail_Header
  m_Buffer :: string
  m_Body :: string

record smtp_env =
  se_Banner :: string
  se_RemoteAddr :: string
  se_tls :: "(nat \<Rightarrow> string option) option"
  se_ParseAddress :: "string \<Rightarrow> string option"
  se_ReadMessage :: "string \<Rightarrow> string + mail_Header \<times> string"
  se_sha1 :: "string \<Rightarrow> string"
  se_Quote :: "string \<Rightarrow> string"

text \<open>\<^verbatim>\<open>Message.Read\<close> with the text that the reader yields.\<close>

definition m_Read :: "smtp_env \<Rightarrow> Message \<Rightarrow> string \<Rightarrow> Message \<times> string option" where
  "m_Read env m buff = (case se_ReadMessage env buff of
     Inl err \<Rightarrow> (m\<lparr>m_Body := buff\<rparr>, Some err)
   | Inr (hdr, body) \<Rightarrow> (m\<lparr>m_Header := hdr, m_Body := body\<rparr>, None))"

section \<open>Sessions\<close>

datatype smtp_state = StartState | HelloState | LoopState | MailFromState | UnrecognizedState | ErrorState string
  | Finished | Panicked panic

text \<open>
  A session, with the lines it sent and logged, the messages it handed to the handler and the number
  of TLS handshakes so far.
\<close>

record smtp_conn =
  sc_in :: string
  sc_out :: "string list"
  sc_domain :: string
  sc_msg :: Message
  sc_i :: nat
  sc_log :: "string list"
  sc_served :: "Message list"
  sc_handshakes :: nat

definition newMessage :: "smtp_env \<Rightarrow> string \<Rightarrow> Message" where
  "newMessage env domain = \<lparr>m_From = None, m_To = [], m_Domain = domain, m_RemoteAddr = se_RemoteAddr env, m_Header = [], m_Buffer = [], m_Body = []\<rparr>"

definition smtp_newConn :: "smtp_env \<Rightarrow> string \<Rightarrow> smtp_conn" where
  "smtp_newConn env inp = \<lparr>sc_in = inp, sc_out = [], sc_domain = [], sc_msg = newMessage env [], sc_i = 0, sc_log = [], sc_served = [], sc_handshakes = 0\<rparr>"

definition PrintfLine :: "smtp_conn \<Rightarrow> string \<Rightarrow> smtp_conn" where
  "PrintfLine c l = c\<lparr>sc_out := sc_out c @ [l]\<rparr>"

text \<open>Every line is logged, the empty one of a failed read included.\<close>

definition smtp_ReadLine :: "smtp_conn \<Rightarrow> smtp_conn \<times> string \<times> bool" where
  "smtp_ReadLine c = (case text_ReadLine (sc_in c) of
     None \<Rightarrow> (c\<lparr>sc_log := sc_log c @ [[]]\<rparr>, [], False)
   | Some (l, r) \<Rightarrow> (c\<lparr>sc_in := r, sc_log := sc_log c @ [l]\<rparr>, l, True))"

definition isCommand :: "string \<Rightarrow> string \<Rightarrow> bool" where
  "isCommand line cmd = HasPrefix (ToUpper line) cmd"

definition reset_msg :: "smtp_env \<Rightarrow> smtp_conn \<Rightarrow> smtp_conn" where
  "reset_msg env c = c\<lparr>sc_msg := newMessage env (sc_domain c)\<rparr>"

text \<open>\<^verbatim>\<open>serverHandler.Serve\<close>, and the end that \<^verbatim>\<open>BDAT\<close> and \<^verbatim>\<open>DATA\<close> share.\<close>

definition smtp_Serve :: "smtp_conn \<Rightarrow> smtp_conn" where
  "smtp_Serve c = c\<lparr>sc_served := sc_served c @ [sc_msg c]\<rparr>"

definition smtp_queue :: "smtp_env \<Rightarrow> string \<Rightarrow> smtp_conn \<Rightarrow> string \<Rightarrow> smtp_conn \<times> smtp_state" where
  "smtp_queue env tag c text = (case m_Read env (sc_msg c) text of
     (m, Some err) \<Rightarrow> (c\<lparr>sc_msg := m\<rparr>, ErrorState (tag @ '': error '' @ err))
   | (m, None) \<Rightarrow>
       (reset_msg env (smtp_Serve (PrintfLine (c\<lparr>sc_msg := m\<rparr>) (''250 Ok : queued as +'' @ se_sha1 env text))), LoopState))"

definition num_error :: "smtp_env \<Rightarrow> int parsed \<Rightarrow> string \<Rightarrow> string" where
  "num_error env n s = ''strconv.ParseInt: parsing '' @ se_Quote env s @ (case n of NumSyntax \<Rightarrow> '': invalid syntax'' | _ \<Rightarrow> '': value out of range'')"

definition smtp_bdat :: "smtp_env \<Rightarrow> smtp_conn \<Rightarrow> string \<Rightarrow> smtp_conn \<times> smtp_state" where
  "smtp_bdat env c line = (case split_on (CHR '' '') line of
     w # arg # rest \<Rightarrow>
       (case ParseInt arg 32 of
          NumOk count \<Rightarrow>
            let n = nat count; c1 = c\<lparr>sc_in := drop n (sc_in c), sc_msg := (sc_msg c)\<lparr>m_Buffer := m_Buffer (sc_msg c) @ take n (sc_in c)\<rparr>\<rparr> in
            if length (sc_in c) < n then (c1, ErrorState ''[bdat]: error EOF'')
            else if rest \<noteq> [''LAST''] then (PrintfLine c1 ''250 Ok'', MailFromState)
            else smtp_queue env ''[bdat]'' (c1\<lparr>sc_msg := (sc_msg c1)\<lparr>m_Buffer := []\<rparr>\<rparr>) (m_Buffer (sc_msg c1))
        | bad \<Rightarrow> (c, ErrorState (''[bdat]: error '' @ num_error env bad arg)))
   | _ \<Rightarrow> (c, Panicked IndexOutOfRange))"

definition smtp_data :: "smtp_env \<Rightarrow> smtp_conn \<Rightarrow> smtp_conn \<times> smtp_state" where
  "smtp_data env c0 =
     (let c = PrintfLine c0 (''354 Enter message, ending with '' @ [CHR 0x22, CHR ''.'', CHR 0x22] @ '' on a line by itself'') in
      case dot_read BeginLine (sc_in c) of
        None \<Rightarrow> (c\<lparr>sc_in := []\<rparr>, ErrorState ''[data]: error unexpected EOF'')
      | Some (text, r) \<Rightarrow> smtp_queue env ''[data]'' (c\<lparr>sc_in := r\<rparr>) text)"

definition mailFromState :: "smtp_env \<Rightarrow> smtp_conn \<Rightarrow> smtp_conn \<times> smtp_state" where
  "mailFromState env c0 = (case smtp_ReadLine c0 of (c, line, ok) \<Rightarrow>
     if \<not> ok then (c, Finished)
     else if line = [] then (c, LoopState)
     else if isCommand line ''RSET'' then (reset_msg env (PrintfLine c ''250 Ok''), LoopState)
     else if isCommand line ''RCPT TO'' then
       (if length line < 8 then (c, Panicked SliceOutOfRange)
        else (PrintfLine (c\<lparr>sc_msg := (sc_msg c)\<lparr>m_To := m_To (sc_msg c) @ [se_ParseAddress env (drop 8 line)]\<rparr>\<rparr>) ''250 Ok'', MailFromState))
     else if isCommand line ''BDAT'' then smtp_bdat env c line
     else if isCommand line ''DATA'' then smtp_data env c
     else (c, UnrecognizedState))"

definition smtp_starttls :: "smtp_env \<Rightarrow> smtp_conn \<Rightarrow> smtp_conn \<times> smtp_state" where
  "smtp_starttls env c0 =
     (let c = PrintfLine c0 ''220 Ready to start TLS'' in
      case se_tls env of
        None \<Rightarrow> (c, Finished)
      | Some tls \<Rightarrow> (case tls (sc_handshakes c) of
            None \<Rightarrow> (c, Finished)
          | Some inp \<Rightarrow> (c\<lparr>sc_in := inp, sc_handshakes := sc_handshakes c + 1\<rparr>, HelloState)))"

definition loopState :: "smtp_env \<Rightarrow> smtp_conn \<Rightarrow> smtp_conn \<times> smtp_state" where
  "loopState env c0 = (case smtp_ReadLine c0 of (c1, line, ok) \<Rightarrow>
     if \<not> ok then (c1, Finished)
     else if line = [] then (c1, LoopState)
     else let c = c1\<lparr>sc_i := sc_i c1 + 1\<rparr> in
       if 100 < sc_i c then (c, ErrorState ''Error: invalid.'')
       else if isCommand line ''MAIL FROM'' then
         (if length line < 10 then (c, Panicked SliceOutOfRange)
          else (PrintfLine (c\<lparr>sc_msg := (sc_msg c)\<lparr>m_From := se_ParseAddress env (drop 10 line)\<rparr>\<rparr>) ''250 Ok'', MailFromState))
       else if isCommand line ''STARTTLS'' then smtp_starttls env c
       else if isCommand line ''RSET'' then (PrintfLine (reset_msg env c) ''250 Ok'', LoopState)
       else if isCommand line ''QUIT'' then (PrintfLine c ''221 Bye'', Finished)
       else if isCommand line ''NOOP'' then (PrintfLine c ''250 Ok'', LoopState)
       else if trim (\<lambda>x. x = CHR '' '' \<or> x = CHR 0x0D \<or> x = CHR 0x0A) line = [] then (c, LoopState)
       else (c, UnrecognizedState))"

definition parseHelloArgument :: "string \<Rightarrow> string option" where
  "parseHelloArgument arg =
     (let domain = (if CHR '' '' \<in> set arg then tl (dropWhile (\<lambda>c. c \<noteq> CHR '' '') arg) else arg)
      in if domain = [] then None else Some domain)"

definition ehlo_lines :: "string \<Rightarrow> string list" where
  "ehlo_lines domain = [''250-Hello '' @ domain, ''250-SIZE 35882577'', ''250-8BITMIME'', ''250-STARTTLS'',
     ''250-ENHANCEDSTATUSCODES'', ''250-PIPELINING'', ''250-CHUNKING'', ''250 SMTPUTF8'']"

definition helloState :: "smtp_conn \<Rightarrow> smtp_conn \<times> smtp_state" where
  "helloState c0 = (case smtp_ReadLine c0 of (c, line, ok) \<Rightarrow>
     if isCommand line ''HELO'' \<or> isCommand line ''EHLO'' then
       (case parseHelloArgument line of
          None \<Rightarrow> (c, ErrorState ''Invalid domain'')
        | Some domain \<Rightarrow>
            let c1 = c\<lparr>sc_domain := domain, sc_msg := (sc_msg c)\<lparr>m_Domain := domain\<rparr>\<rparr> in
            if isCommand line ''HELO'' then (PrintfLine c1 (''250 Hello '' @ domain @ '', I am glad to meet you''), LoopState)
            else (foldl PrintfLine c1 (ehlo_lines domain), LoopState))
     else (c, ErrorState ''Before we shake hands it will be appropriate to tell me who you are.''))"

fun smtp_step :: "smtp_env \<Rightarrow> smtp_conn \<Rightarrow> smtp_state \<Rightarrow> smtp_conn \<times> smtp_state" where
  "smtp_step env c StartState = (PrintfLine c (''220 '' @ se_Banner env), HelloState)"
| "smtp_step env c HelloState = helloState c"
| "smtp_step env c LoopState = loopState env c"
| "smtp_step env c MailFromState = mailFromState env c"
| "smtp_step env c UnrecognizedState = (PrintfLine c ''500 unrecognized command'', LoopState)"
| "smtp_step env c (ErrorState msg) = (PrintfLine c (''500 '' @ msg), Finished)"
| "smtp_step env c Finished = (c, Finished)"
| "smtp_step env c (Panicked p) = (c, Panicked p)"

section \<open>The service\<close>

text \<open>
  \<^verbatim>\<open>Service.Handle\<close> starts a goroutine that reports the lines of its session and the messages of the
  service, with the addresses of its own connection; nothing ends it. All these goroutines receive
  from the one channel of messages, so a message is reported by any of them.
\<close>

record smtp_listener =
  sl_remote :: net_addr
  sl_local :: net_addr

definition smtp_line_event :: "smtp_listener \<Rightarrow> string \<Rightarrow> ev_option list" where
  "smtp_line_event a line = [ev_Sensor ''services'', ev_Category ''smtp'', ev_Type ''input'', ev_SourceAddr (sl_remote a), ev_DestinationAddr (sl_local a),
     ev_Custom ''smtp.line'' (VString line)]"

definition smtp_email_event :: "smtp_listener \<Rightarrow> Message \<Rightarrow> ev_option list" where
  "smtp_email_event a m = [ev_Sensor ''services'', ev_Category ''smtp'', ev_Type ''email'', ev_SourceAddr (sl_remote a), ev_DestinationAddr (sl_local a),
     ev_Custom ''smtp.from'' (VAddress (m_From m)), ev_Custom ''smtp.to'' (VAddresses (m_To m)), ev_Custom ''smtp.body'' (VString (m_Body m))]"

inductive smtp_reports :: "smtp_listener list \<Rightarrow> Message list \<Rightarrow> ev_option list list \<Rightarrow> bool" where
  no_message: "smtp_reports as [] []"
| message: "a \<in> set as \<Longrightarrow> smtp_reports as ms evs \<Longrightarrow> smtp_reports as (m # ms) (smtp_email_event a m # evs)"

text \<open>A parser for the examples: an address is taken as it stands, the text after the first empty line is the body.\<close>

fun after_empty_line :: "string \<Rightarrow> string" where
  "after_empty_line (a # b # r) = (if a = CHR 0x0A \<and> b = CHR 0x0A then r else after_empty_line (b # r))"
| "after_empty_line _ = []"

definition smtp_example_env :: smtp_env where
  "smtp_example_env = \<lparr>se_Banner = ''SMTPd'', se_RemoteAddr = ''10.0.0.1:2525'', se_tls = None, se_ParseAddress = Some,
     se_ReadMessage = (\<lambda>t. Inr ([], after_empty_line t)), se_sha1 = (\<lambda>t. ''0''), se_Quote = id\<rparr>"

section \<open>Sessions end\<close>

text \<open>A step either raises the counter of commands, or consumes input, or moves on to a state of lower rank.\<close>

fun smtp_rank :: "smtp_state \<Rightarrow> nat" where
  "smtp_rank StartState = 4"
| "smtp_rank UnrecognizedState = 3"
| "smtp_rank HelloState = 2"
| "smtp_rank LoopState = 2"
| "smtp_rank MailFromState = 2"
| "smtp_rank (ErrorState msg) = 1"
| "smtp_rank Finished = 0"
| "smtp_rank (Panicked p) = 0"

definition smtp_measure :: "smtp_conn \<times> smtp_state \<Rightarrow> nat \<times> nat \<times> nat" where
  "smtp_measure x = (101 - sc_i (fst x), length (sc_in (fst x)), smtp_rank (snd x))"

definition smtp_less :: "((smtp_conn \<times> smtp_state) \<times> smtp_conn \<times> smtp_state) set" where
  "smtp_less = inv_image (less_than <*lex*> less_than <*lex*> less_than) smtp_measure"

lemma smtp_less_iff:
  "((c', st'), (c, st)) \<in> smtp_less \<longleftrightarrow>
     101 - sc_i c' < 101 - sc_i c \<or> 101 - sc_i c' = 101 - sc_i c \<and> (length (sc_in c') < length (sc_in c) \<or>
       length (sc_in c') = length (sc_in c) \<and> smtp_rank st' < smtp_rank st)"
  by (auto simp: smtp_less_def smtp_measure_def)

lemma wf_smtp_less: "wf smtp_less"
  by (auto simp: smtp_less_def)

lemma text_ReadLine_shorter: "text_ReadLine inp = Some (l, r) \<Longrightarrow> length r < length inp"
  by (auto simp: text_ReadLine_def Let_def split: if_splits)

lemma dot_read_shorter: "dot_read st inp = Some (t, r) \<Longrightarrow> length r < length inp"
proof (induction st inp arbitrary: t r rule: dot_read.induct)
qed (fastforce split: if_splits)+

lemma PrintfLine_simps [simp]:
  "sc_in (PrintfLine c l) = sc_in c" "sc_i (PrintfLine c l) = sc_i c" "sc_log (PrintfLine c l) = sc_log c"
  "sc_msg (PrintfLine c l) = sc_msg c" "sc_domain (PrintfLine c l) = sc_domain c" "sc_served (PrintfLine c l) = sc_served c"
  "sc_handshakes (PrintfLine c l) = sc_handshakes c"
  by (simp_all add: PrintfLine_def)

lemma foldl_PrintfLine_simps [simp]:
  "sc_in (foldl PrintfLine c ls) = sc_in c" "sc_i (foldl PrintfLine c ls) = sc_i c" "sc_log (foldl PrintfLine c ls) = sc_log c"
  "sc_msg (foldl PrintfLine c ls) = sc_msg c" "sc_domain (foldl PrintfLine c ls) = sc_domain c"
  "sc_served (foldl PrintfLine c ls) = sc_served c" "sc_handshakes (foldl PrintfLine c ls) = sc_handshakes c"
  by (induction ls arbitrary: c) simp_all

lemma reset_msg_simps [simp]:
  "sc_in (reset_msg env c) = sc_in c" "sc_i (reset_msg env c) = sc_i c" "sc_log (reset_msg env c) = sc_log c"
  "sc_domain (reset_msg env c) = sc_domain c" "sc_served (reset_msg env c) = sc_served c"
  "sc_msg (reset_msg env c) = newMessage env (sc_domain c)"
  by (simp_all add: reset_msg_def)

lemma smtp_Serve_simps [simp]:
  "sc_in (smtp_Serve c) = sc_in c" "sc_i (smtp_Serve c) = sc_i c" "sc_log (smtp_Serve c) = sc_log c"
  "sc_domain (smtp_Serve c) = sc_domain c" "sc_served (smtp_Serve c) = sc_served c @ [sc_msg c]" "sc_msg (smtp_Serve c) = sc_msg c"
  by (simp_all add: smtp_Serve_def)

lemma isCommand_Nil [simp]: "isCommand [] cmd \<longleftrightarrow> cmd = []"
  by (auto simp: isCommand_def HasPrefix_def ToUpper_def)

lemma smtp_ReadLine_cases:
  assumes "smtp_ReadLine c0 = (c, line, ok)"
  obtains (eof) "\<not> ok" "line = []" "c = c0\<lparr>sc_log := sc_log c0 @ [[]]\<rparr>" "sc_in c0 = []"
    | (line) r where "ok" "c = c0\<lparr>sc_in := r, sc_log := sc_log c0 @ [line]\<rparr>" "length r < length (sc_in c0)"
  using assms text_ReadLine_shorter
  by (fastforce simp: smtp_ReadLine_def text_ReadLine_def Let_def split: option.splits if_splits)

lemma smtp_queue_simps:
  assumes "smtp_queue env tag c text = (c', st')"
  shows "sc_in c' = sc_in c \<and> sc_i c' = sc_i c"
  using assms by (auto simp: smtp_queue_def split: prod.splits option.splits)

lemma smtp_bdat_shorter:
  assumes "smtp_bdat env c line = (c', st')"
  shows "length (sc_in c') \<le> length (sc_in c) \<and> sc_i c' = sc_i c"
  using assms
  by (auto simp: smtp_bdat_def Let_def dest!: smtp_queue_simps split: list.splits parsed.splits if_splits)

lemma smtp_data_shorter:
  assumes "smtp_data env c = (c', st')"
  shows "length (sc_in c') \<le> length (sc_in c) \<and> sc_i c' = sc_i c"
  using assms
  by (auto simp: smtp_data_def Let_def dest!: smtp_queue_simps dest: dot_read_shorter split: option.splits prod.splits)

lemma mailFromState_less:
  assumes "mailFromState env c = (c', st')"
  shows "((c', st'), (c, MailFromState)) \<in> smtp_less"
proof -
  obtain c1 line ok where rd: "smtp_ReadLine c = (c1, line, ok)"
    by (cases "smtp_ReadLine c") auto
  from rd show ?thesis
  proof (cases rule: smtp_ReadLine_cases)
    case eof
    with assms rd show ?thesis
      by (auto simp: mailFromState_def smtp_less_iff)
  next
    case (line r)
    have "length (sc_in c') \<le> length (sc_in c1) \<and> sc_i c' = sc_i c1"
      using assms rd line
      by (auto simp: mailFromState_def split: if_splits dest!: smtp_bdat_shorter smtp_data_shorter)
    with line show ?thesis
      by (auto simp: smtp_less_iff)
  qed
qed

lemma loopState_less:
  assumes "loopState env c = (c', st')"
  shows "((c', st'), (c, LoopState)) \<in> smtp_less"
proof -
  obtain c1 line ok where rd: "smtp_ReadLine c = (c1, line, ok)"
    by (cases "smtp_ReadLine c") auto
  from rd show ?thesis
  proof (cases rule: smtp_ReadLine_cases)
    case eof
    with assms rd show ?thesis
      by (auto simp: loopState_def smtp_less_iff)
  next
    case (line r)
    show ?thesis
    proof (cases "100 \<le> sc_i c \<or> line = []")
      case True
      then show ?thesis
        using assms rd line
        by (auto simp: loopState_def Let_def smtp_less_iff split: if_splits)
    next
      case False
      then have "sc_i c' = sc_i c + 1"
        using assms rd line
        by (auto simp: loopState_def Let_def smtp_starttls_def split: if_splits option.splits)
      with False show ?thesis
        by (auto simp: smtp_less_iff)
    qed
  qed
qed

lemma helloState_less:
  assumes "helloState c = (c', st')"
  shows "((c', st'), (c, HelloState)) \<in> smtp_less"
proof -
  obtain c1 line ok where rd: "smtp_ReadLine c = (c1, line, ok)"
    by (cases "smtp_ReadLine c") auto
  from rd show ?thesis
  proof (cases rule: smtp_ReadLine_cases)
    case eof
    with assms rd show ?thesis
      by (auto simp: helloState_def smtp_less_iff)
  next
    case (line r)
    with assms rd show ?thesis
      by (auto simp: helloState_def Let_def smtp_less_iff split: if_splits option.splits)
  qed
qed

definition smtp_done :: "smtp_state \<Rightarrow> bool" where
  "smtp_done st \<longleftrightarrow> smtp_rank st = 0"

lemma smtp_step_less:
  "\<not> smtp_done st \<Longrightarrow> (smtp_step env c st, (c, st)) \<in> smtp_less"
  by (cases st; cases "smtp_step env c st")
    (auto simp: smtp_done_def smtp_less_iff [of _ _ _ StartState] smtp_less_iff [of _ _ _ UnrecognizedState] smtp_less_iff [of _ _ _ "ErrorState _"]
      intro: helloState_less loopState_less mailFromState_less)

text \<open>\<^verbatim>\<open>conn.serve\<close>: the session from a state on, up to the state that ends it.\<close>

function smtp_serve :: "smtp_env \<Rightarrow> smtp_conn \<Rightarrow> smtp_state \<Rightarrow> smtp_conn \<times> smtp_state" where
  "smtp_serve env c st = (if smtp_done st then (c, st) else (case smtp_step env c st of (c', st') \<Rightarrow> smtp_serve env c' st'))"
  by pat_completeness auto
termination
  by (relation "inv_image smtp_less (\<lambda>(env, c, st). (c, st))") (auto simp: wf_smtp_less dest: smtp_step_less [of _ _ _] split: prod.splits)

declare smtp_serve.simps [simp del]

section \<open>Invariants of a session\<close>

locale smtp_invariant =
  fixes env :: smtp_env and P :: "smtp_conn \<Rightarrow> smtp_state \<Rightarrow> bool"
  assumes step: "P c st \<Longrightarrow> \<not> smtp_done st \<Longrightarrow> smtp_step env c st = (c', st') \<Longrightarrow> P c' st'"
begin

lemma serve: "P c st \<Longrightarrow> smtp_serve env c st = (c', st') \<Longrightarrow> P c' st' \<and> smtp_done st'"
proof (induction "(c, st)" arbitrary: c st rule: wf_induct_rule [OF wf_smtp_less])
  case 1
  show ?case
  proof (cases "smtp_done st")
    case True
    with "1.prems" show ?thesis by (simp add: smtp_serve.simps)
  next
    case False
    obtain c1 st1 where s: "smtp_step env c st = (c1, st1)"
      by (cases "smtp_step env c st")
    have "smtp_serve env c1 st1 = (c', st')"
      using "1.prems"(2) False by (simp add: smtp_serve.simps [of env c st] s)
    with "1.hyps" smtp_step_less [OF False, of env c] step [OF "1.prems"(1) False s] show ?thesis
      by (simp add: s)
  qed
qed

end

text \<open>A message is counted by the command that opened it.\<close>

definition smtp_counted :: "smtp_conn \<Rightarrow> smtp_state \<Rightarrow> bool" where
  "smtp_counted c st \<longleftrightarrow> length (sc_served c) \<le> 100 \<and> length (sc_served c) \<le> sc_i c \<and> sc_i c \<le> 101 \<and>
     (smtp_rank st \<ge> 2 \<longrightarrow> sc_i c \<le> 100) \<and> (st = MailFromState \<longrightarrow> length (sc_served c) < sc_i c)"

text \<open>
  The envelope of a message comes from the lines of the session: the domain from a greeting, the sender
  from a \<^verbatim>\<open>MAIL FROM\<close>, the recipients from \<^verbatim>\<open>RCPT TO\<close>.
\<close>

definition greeted :: "string list \<Rightarrow> string \<Rightarrow> bool" where
  "greeted log d \<longleftrightarrow> (\<exists>l\<in>set log. (isCommand l ''HELO'' \<or> isCommand l ''EHLO'') \<and> parseHelloArgument l = Some d)"

definition mail_from :: "smtp_env \<Rightarrow> string list \<Rightarrow> string option \<Rightarrow> bool" where
  "mail_from env log a \<longleftrightarrow> (\<exists>l\<in>set log. isCommand l ''MAIL FROM'' \<and> 10 \<le> length l \<and> a = se_ParseAddress env (drop 10 l))"

definition rcpt_to :: "smtp_env \<Rightarrow> string list \<Rightarrow> string option \<Rightarrow> bool" where
  "rcpt_to env log a \<longleftrightarrow> (\<exists>l\<in>set log. isCommand l ''RCPT TO'' \<and> 8 \<le> length l \<and> a = se_ParseAddress env (drop 8 l))"

definition envelope :: "smtp_env \<Rightarrow> string list \<Rightarrow> Message \<Rightarrow> bool" where
  "envelope env log m \<longleftrightarrow> greeted log (m_Domain m) \<and> mail_from env log (m_From m) \<and>
     list_all (rcpt_to env log) (m_To m) \<and> m_RemoteAddr m = se_RemoteAddr env"

definition smtp_enveloped :: "smtp_env \<Rightarrow> smtp_conn \<Rightarrow> smtp_state \<Rightarrow> bool" where
  "smtp_enveloped env c st \<longleftrightarrow> list_all (envelope env (sc_log c)) (sc_served c) \<and>
     m_RemoteAddr (sc_msg c) = se_RemoteAddr env \<and> list_all (rcpt_to env (sc_log c)) (m_To (sc_msg c)) \<and>
     (st = LoopState \<or> st = MailFromState \<or> st = UnrecognizedState \<longrightarrow> greeted (sc_log c) (sc_domain c) \<and> m_Domain (sc_msg c) = sc_domain c) \<and>
     (st = MailFromState \<longrightarrow> mail_from env (sc_log c) (m_From (sc_msg c)))"

lemma smtp_ReadLine_keeps:
  assumes "smtp_ReadLine c0 = (c, line, ok)"
  shows "sc_i c = sc_i c0 \<and> sc_served c = sc_served c0 \<and> sc_msg c = sc_msg c0 \<and> sc_domain c = sc_domain c0 \<and>
    sc_log c = sc_log c0 @ [line]"
  using assms by (auto simp: smtp_ReadLine_def split: option.splits)

lemma smtp_queue_cases:
  assumes "smtp_queue env tag c text = (c', st')"
  obtains (fails) m err where "m_Read env (sc_msg c) text = (m, Some err)" "c' = c\<lparr>sc_msg := m\<rparr>" "st' = ErrorState (tag @ '': error '' @ err)"
  | (served) m where "m_Read env (sc_msg c) text = (m, None)" "st' = LoopState"
      "c' = c\<lparr>sc_out := sc_out c @ [''250 Ok : queued as +'' @ se_sha1 env text], sc_msg := newMessage env (sc_domain c), sc_served := sc_served c @ [m]\<rparr>"
proof (cases "m_Read env (sc_msg c) text")
  case (Pair m r)
  show ?thesis
  proof (cases r)
    case None
    with Pair assms show ?thesis
      by (intro that(2)) (auto simp: smtp_queue_def PrintfLine_def smtp_Serve_def reset_msg_def)
  next
    case (Some err)
    with Pair assms show ?thesis
      by (intro that(1)) (auto simp: smtp_queue_def)
  qed
qed


lemma newMessage_simps [simp]:
  "m_From (newMessage env d) = None" "m_To (newMessage env d) = []" "m_Domain (newMessage env d) = d"
  "m_RemoteAddr (newMessage env d) = se_RemoteAddr env"
  by (simp_all add: newMessage_def)

text \<open>What the two ways to end a message do to a session that has read the line.\<close>

lemma smtp_queue_counted:
  assumes "smtp_queue env tag c text = (c', st')" and "smtp_counted c MailFromState"
  shows "smtp_counted c' st'"
  using assms(1) by (cases rule: smtp_queue_cases) (use assms(2) in \<open>auto simp: smtp_counted_def\<close>)


lemma smtp_bdat_counted:
  assumes "smtp_bdat env c line = (c', st')" and "smtp_counted c MailFromState"
  shows "smtp_counted c' st'"
proof (cases "split_on (CHR '' '') line")
  case (Cons w ws)
  then show ?thesis
    using assms
    by (cases ws; cases "ParseInt (hd ws) 32")
      (auto simp: smtp_bdat_def Let_def smtp_counted_def elim!: smtp_queue_cases split: if_splits)
qed (use assms in \<open>auto simp: smtp_bdat_def smtp_counted_def\<close>)


lemma smtp_data_counted:
  assumes "smtp_data env c = (c', st')" and "smtp_counted c MailFromState"
  shows "smtp_counted c' st'"
  using assms by (auto simp: smtp_data_def Let_def split: option.splits prod.splits elim!: smtp_queue_counted, auto simp: smtp_counted_def)





lemma smtp_enveloped_simps [simp]:
  "smtp_enveloped env (PrintfLine c l) st = smtp_enveloped env c st"
  "smtp_enveloped env (foldl PrintfLine c ls) st = smtp_enveloped env c st"
  "smtp_enveloped env (c\<lparr>sc_i := i\<rparr>) st = smtp_enveloped env c st"
  "smtp_enveloped env (c\<lparr>sc_in := inp, sc_handshakes := n\<rparr>) st = smtp_enveloped env c st"
  by (auto simp: smtp_enveloped_def)







lemma mailFromState_counted:
  assumes "mailFromState env c0 = (c', st')" and "smtp_counted c0 MailFromState"
  shows "smtp_counted c' st'"
proof -
  obtain c line ok where rd: "smtp_ReadLine c0 = (c, line, ok)"
    by (cases "smtp_ReadLine c0") auto
  have inv: "smtp_counted c MailFromState"
    using assms(2) smtp_ReadLine_keeps [OF rd] by (auto simp: smtp_counted_def)
  then show ?thesis
    using assms(1)
    by (auto simp: mailFromState_def rd split: if_splits intro: smtp_bdat_counted smtp_data_counted, auto simp: smtp_counted_def)
qed

lemma loopState_counted:
  assumes "loopState env c0 = (c', st')" and "smtp_counted c0 LoopState"
  shows "smtp_counted c' st'"
proof -
  obtain c line ok where rd: "smtp_ReadLine c0 = (c, line, ok)"
    by (cases "smtp_ReadLine c0") auto
  have "smtp_counted c LoopState"
    using assms(2) smtp_ReadLine_keeps [OF rd] by (auto simp: smtp_counted_def)
  then show ?thesis
    using assms(1)
    by (auto simp: loopState_def rd Let_def smtp_starttls_def smtp_counted_def split: if_splits option.splits)
qed

lemma helloState_counted:
  assumes "helloState c0 = (c', st')" and "smtp_counted c0 HelloState"
  shows "smtp_counted c' st'"
proof -
  obtain c line ok where rd: "smtp_ReadLine c0 = (c, line, ok)"
    by (cases "smtp_ReadLine c0") auto
  show ?thesis
    using assms smtp_ReadLine_keeps [OF rd]
    by (auto simp: helloState_def rd Let_def smtp_counted_def split: if_splits option.splits)
qed

interpretation counts: smtp_invariant env smtp_counted for env
proof unfold_locales
  fix c st c' st'
  assume "smtp_counted c st" "smtp_step env c st = (c', st')"
  then show "smtp_counted c' st'"
    by (cases st) (auto intro: helloState_counted loopState_counted mailFromState_counted, auto simp: smtp_counted_def)
qed

text \<open>
  C27: every session ends, whatever the client sends and however often it starts TLS, and has then handed at
  most a hundred messages to the handler.
\<close>

theorem smtp_session_bounded:
  "\<exists>c st. smtp_serve env (smtp_newConn env inp) StartState = (c, st) \<and> smtp_done st \<and> length (sc_served c) \<le> 100 \<and> sc_i c \<le> 101"
proof -
  obtain c st where s: "smtp_serve env (smtp_newConn env inp) StartState = (c, st)"
    by (cases "smtp_serve env (smtp_newConn env inp) StartState")
  have "smtp_counted (smtp_newConn env inp) StartState"
    by (simp add: smtp_counted_def smtp_newConn_def)
  from counts.serve [OF this s] s show ?thesis
    by (simp add: smtp_counted_def)
qed



section \<open>Messages arrive\<close>

lemma dot_read_data:
  "plain_line l \<Longrightarrow> dot_read Data (l @ CRLF @ r) = map_option (map_prod ((@) (l @ [CHR 0x0A])) id) (dot_read BeginLine r)"
  by (induction l) (auto simp: plain_line_def option.map_comp comp_def map_prod_def split_def)

lemma dot_read_line:
  assumes "plain_line l"
  shows "dot_read BeginLine ((if take 1 l = ''.'' then CHR ''.'' # l else l) @ CRLF @ r) =
    map_option (map_prod ((@) (l @ [CHR 0x0A])) id) (dot_read BeginLine r)"
proof (cases l)
  case (Cons c l')
  then have "dot_read Data (l' @ CRLF @ r) = map_option (map_prod ((@) (l' @ [CHR 0x0A])) id) (dot_read BeginLine r)"
    using assms by (intro dot_read_data) (simp add: plain_line_def)
  then show ?thesis
    using Cons assms by (auto simp: plain_line_def option.map_comp comp_def map_prod_def split_def)
qed (simp add: map_prod_def split_def)

lemma dot_read_stuff: "list_all plain_line ls \<Longrightarrow> dot_read BeginLine (dot_stuff ls @ r) = Some (text_of ls, r)"
proof (induction ls)
  case (Cons l ls)
  then have "dot_read BeginLine (dot_stuff (l # ls) @ r) = map_option (map_prod ((@) (l @ [CHR 0x0A])) id) (Some (text_of ls, r))"
    using dot_read_line [of l "dot_stuff ls @ r"] by (simp add: dot_stuff_def)
  then show ?case
    by (simp add: text_of_def)
qed (simp add: dot_stuff_def text_of_def)

lemma text_ReadLine_crlf:
  assumes "plain_line l"
  shows "text_ReadLine (l @ CRLF @ r) = Some (l, r)"
proof -
  have "takeWhile (\<lambda>c. c \<noteq> CHR 0x0A) (l @ CRLF @ r) = l @ [CHR 0x0D]"
    using assms by (subst takeWhile_append2) (auto simp: plain_line_def)
  then show ?thesis
    by (simp add: text_ReadLine_def Let_def)
qed

text \<open>
  C14: a message that a client sends with \<^verbatim>\<open>DATA\<close>, its lines stuffed with dots, arrives at the handler as its text
  was: header and body are those of the text, the session answers with its hash and goes on behind
  the final dot with a new message.
\<close>

theorem smtp_data_delivers:
  assumes "list_all plain_line ls" and "sc_in c = ''DATA'' @ CRLF @ dot_stuff ls @ r"
    and "se_ReadMessage env (text_of ls) = Inr (hdr, body)"
  shows "smtp_step env c MailFromState =
    (c\<lparr>sc_in := r, sc_log := sc_log c @ [''DATA''],
       sc_out := sc_out c @ [''354 Enter message, ending with '' @ [CHR 0x22, CHR ''.'', CHR 0x22] @ '' on a line by itself'',
                             ''250 Ok : queued as +'' @ se_sha1 env (text_of ls)],
       sc_served := sc_served c @ [(sc_msg c)\<lparr>m_Header := hdr, m_Body := body\<rparr>],
       sc_msg := newMessage env (sc_domain c)\<rparr>, LoopState)"
proof -
  have rd: "smtp_ReadLine c = (c\<lparr>sc_in := dot_stuff ls @ r, sc_log := sc_log c @ [''DATA'']\<rparr>, ''DATA'', True)"
    using text_ReadLine_crlf [of "''DATA''" "dot_stuff ls @ r"] by (simp add: smtp_ReadLine_def assms(2) plain_line_def)
  have "\<not> isCommand ''DATA'' ''RSET''" "\<not> isCommand ''DATA'' ''RCPT TO''" "\<not> isCommand ''DATA'' ''BDAT''" "isCommand ''DATA'' ''DATA''"
    by code_simp+
  then show ?thesis
    using assms(3)
    by (simp add: mailFromState_def rd smtp_data_def Let_def dot_read_stuff [OF assms(1)] smtp_queue_def m_Read_def PrintfLine_def
        smtp_Serve_def reset_msg_def)
qed

definition smtp_open_conn :: smtp_conn where
  "smtp_open_conn = (smtp_newConn smtp_example_env (''DATA'' @ CRLF @ dot_stuff [''Subject: hi'', [], ''.text''] @ ''QUIT'' @ CRLF))\<lparr>sc_domain := ''me''\<rparr>"

theorem smtp_data_delivers_witness:
  "sc_served (fst (smtp_step smtp_example_env smtp_open_conn MailFromState)) =
     [(sc_msg smtp_open_conn)\<lparr>m_Header := [], m_Body := ''.text'' @ [CHR 0x0A]\<rparr>]"
proof -
  have r: "se_ReadMessage smtp_example_env (text_of [''Subject: hi'', [], ''.text'']) = Inr ([], ''.text'' @ [CHR 0x0A])"
    by (simp add: smtp_example_env_def text_of_def)
  have "sc_in smtp_open_conn = ''DATA'' @ CRLF @ dot_stuff [''Subject: hi'', [], ''.text''] @ ''QUIT'' @ CRLF"
    by (simp add: smtp_open_conn_def smtp_newConn_def)
  from smtp_data_delivers [OF _ this r] show ?thesis
    by (simp add: plain_line_def) (simp add: smtp_open_conn_def smtp_newConn_def)
qed

text \<open>
  A message may be reported with the address of any connection the service has had: the goroutines
  of sessions that are over still receive from the channel of messages.
\<close>

theorem smtp_mail_misattributed:
  "a \<in> set as \<Longrightarrow> \<exists>evs. smtp_reports as ms evs \<and> list_all2 (\<lambda>m ev. ev = smtp_email_event a m) ms evs"
  by (induction ms) (auto intro: smtp_reports.intros)

end
