(* ===== verification/Redis.thy ===== *)
theory Redis
  imports Go_Text Events
begin

text \<open>
  The Redis service (\<^verbatim>\<open>services/redis\<close>): the scanner it reads lines with, the parser of the protocol, the answers, and
  the loop of a connection. The loop may run forever, so it is a partial function.
\<close>

section \<open>bufio.Scanner\<close>

text \<open>
  The input a scanner has not handed out, and whether it met a line that its buffer of 64 KB cannot hold. After such
  a line it hands out the buffer once more; at the end of the input every scan yields nothing.
\<close>

record scanner =
  bs_rest :: string
  bs_failed :: bool

definition dropCR :: "string \<Rightarrow> string" where
  "dropCR l = (if l \<noteq> [] \<and> last l = CHR 0x0D then butlast l else l)"

definition Scan :: "scanner \<Rightarrow> string \<times> scanner" where
  "Scan sc =
     (let rest = bs_rest sc; l = takeWhile (\<lambda>c. c \<noteq> CHR 0x0A) rest in
      if \<not> bs_failed sc \<and> 65536 \<le> length l then ([], \<lparr>bs_rest = take 65536 rest, bs_failed = True\<rparr>)
      else (dropCR l, sc\<lparr>bs_rest := drop (length l + 1) rest\<rparr>))"

section \<open>Parsing\<close>

text \<open>A datum with its type; the empty line gives the datum of type 0.\<close>

datatype redisDatum = NoDatum | ArrayDatum "redisDatum list" | SimpleString string | BulkString string | IntegerDatum nat

fun DataType :: "redisDatum \<Rightarrow> nat" where
  "DataType NoDatum = 0"
| "DataType (ArrayDatum items) = 0x2a"
| "DataType (SimpleString s) = 0x2b"
| "DataType (BulkString s) = 0x24"
| "DataType (IntegerDatum n) = 0x3a"

fun redis_ToString :: "redisDatum \<Rightarrow> string option" where
  "redis_ToString (SimpleString s) = Some s"
| "redis_ToString (BulkString s) = Some s"
| "redis_ToString _ = None"

function (sequential) parseRedisData :: "scanner \<Rightarrow> redisDatum result \<times> scanner"
  and parse_items :: "nat \<Rightarrow> scanner \<Rightarrow> redisDatum list result \<times> scanner" where
  "parseRedisData sc0 = (case Scan sc0 of
     ([], sc) \<Rightarrow> (Inr NoDatum, sc)
   | (dataType # arg, sc) \<Rightarrow>
       if dataType = CHR ''*'' then
         (case ParseUint arg 64 of
            NumOk n \<Rightarrow> map_prod (\<lambda>r. bindR r (\<lambda>items. Inr (ArrayDatum items))) id (parse_items n sc)
          | _ \<Rightarrow> (Inl (Error ''Error parsing command array size''), sc))
       else if dataType = CHR ''+'' then (Inr (SimpleString arg), sc)
       else if dataType = CHR ''$'' then
         (if parsed_ok (ParseUint arg 64) then (case Scan sc of (str, sc') \<Rightarrow> (Inr (BulkString str), sc'))
          else (Inl (Error ''strconv.ParseUint''), sc))
       else if dataType = CHR '':'' then
         (case ParseUint arg 64 of NumOk n \<Rightarrow> (Inr (IntegerDatum n), sc) | _ \<Rightarrow> (Inl (Error ''strconv.ParseUint''), sc))
       else (Inl (Error ''Unexpected data type''), sc))"
| "parse_items 0 sc = (Inr [], sc)"
| "parse_items (Suc n) sc = (case parseRedisData sc of
     (Inl err, sc') \<Rightarrow> (Inl err, sc')
   | (Inr item, sc') \<Rightarrow> map_prod (\<lambda>r. bindR r (\<lambda>items. Inr (item # items))) id (parse_items n sc'))"
  by pat_completeness auto

lemma length_dropCR: "length (dropCR l) \<le> length l"
  by (simp add: dropCR_def)

lemma Scan_shorter:
  assumes "Scan sc = (l, sc')"
  shows "length (bs_rest sc') \<le> length (bs_rest sc)" and "l \<noteq> [] \<Longrightarrow> length (bs_rest sc') < length (bs_rest sc)"
  using assms
  by (cases "bs_rest sc"; auto simp: Scan_def Let_def dropCR_def split: if_splits)+

lemma parse_shorter:
  "parseRedisData_parse_items_dom (Inl sc) \<Longrightarrow> length (bs_rest (snd (parseRedisData sc))) \<le> length (bs_rest sc)"
  "parseRedisData_parse_items_dom (Inr (n, sc)) \<Longrightarrow> length (bs_rest (snd (parse_items n sc))) \<le> length (bs_rest sc)"
proof (induction rule: parseRedisData_parse_items.pinduct)
  case (1 sc0)
  obtain l sc where s: "Scan sc0 = (l, sc)"
    by (cases "Scan sc0")
  have items: "length (bs_rest (snd (parse_items n sc))) \<le> length (bs_rest sc)" if "l = CHR ''*'' # arg" "ParseUint arg 64 = NumOk n" for arg n
    using "1.IH" s that by simp
  have "length (bs_rest (snd (parse_items n sc))) \<le> length (bs_rest sc0)" if "l = CHR ''*'' # arg" "ParseUint arg 64 = NumOk n" for arg n
    using items [OF that] Scan_shorter(1) [OF s] by simp
  then show ?case
    using Scan_shorter [OF s]
    by (auto simp: parseRedisData.psimps [OF "1.hyps"] s dest: Scan_shorter(1) split: list.splits parsed.splits prod.splits)
next
  case (2 sc)
  then show ?case
    by (simp add: parse_items.psimps)
next
  case (3 n sc)
  then show ?case
    by (auto simp: parse_items.psimps split: prod.splits sum.splits)
qed

termination parseRedisData
proof (relation "measures [\<lambda>x. case x of Inl sc \<Rightarrow> length (bs_rest sc) | Inr (n, sc) \<Rightarrow> length (bs_rest sc),
    \<lambda>x. case x of Inl sc \<Rightarrow> 0 | Inr (n, sc) \<Rightarrow> Suc n]", goal_cases)
  case 1
  then show ?case by simp
next
  case (2 sc0 l sc c cs n)
  then show ?case
    using Scan_shorter(2) [of sc0 l sc] by simp
next
  case (3 n sc)
  then show ?case by simp
next
  case (4 n sc r sc' item)
  then show ?case
    using parse_shorter(1) [of sc] by (cases "parseRedisData sc") auto
qed

declare parseRedisData.simps [simp del] parse_items.simps [simp del]

section \<open>Answers\<close>

record redisServiceConfig =
  rs_Version :: string
  rs_Os :: string

definition infoServerMsg :: "redisServiceConfig \<Rightarrow> string" where
  "infoServerMsg s = join_with [CHR 0x0A]
    [''# Server'', ''redis_version:'' @ rs_Version s, ''redis_git_sha1:00000000'', ''redis_git_dirty:0'',
     ''redis_build_id:f1060845dd32471a'', ''redis_mode:standalone'', ''os:'' @ rs_Os s, ''arch_bits:64'',
     ''multiplexing_api:epoll'', ''atomicvar_api:atomic-builtin'', ''gcc_version:4.9.2'', ''process_id:1'',
     ''run_id:15444ca686daa4cfcf621e65a7aed097110bb598'', ''tcp_port:6379'', ''uptime_in_seconds:10396'',
     ''uptime_in_days:0'', ''hz:10'', ''lru_clock:5820570'', ''executable:/data/redis-server'', ''config_file:'', [],
     []]"

definition infoClientsMsg :: "redisServiceConfig \<Rightarrow> string" where
  "infoClientsMsg s = join_with [CHR 0x0A]
    [''# Clients'', ''connected_clients:0'', ''client_longest_output_list:0'', ''client_biggest_input_buf:0'',
     ''blocked_clients:0'', [], []]"

definition infoMemoryMsg :: "redisServiceConfig \<Rightarrow> string" where
  "infoMemoryMsg s = join_with [CHR 0x0A]
    [''# Memory'', ''used_memory:1828264'', ''used_memory_human:808.85K'', ''used_memory_rss:4120576'',
     ''used_memory_rss_human:3.93M'', ''used_memory_peak:828264'', ''used_memory_peak_human:808.85K'',
     ''used_memory_peak_perc:100.00%'', ''used_memory_overhead:815150'', ''used_memory_startup:765520'',
     ''used_memory_dataset:13114'', ''used_memory_dataset_perc:20.90%'', ''total_system_memory:2096160768'',
     ''total_system_memory_human:1.95G'', ''used_memory_lua:37888'', ''used_memory_lua_human:37.00K'',
     ''maxmemory:0'', ''maxmemory_human:0B'', ''maxmemory_policy:noeviction'', ''mem_fragmentation_ratio:4.97'',
     ''mem_allocator:jemalloc-4.0.3'', ''active_defrag_running:0'', ''lazyfree_pending_objects:0'', [], []]"

definition infoPersistenceMsg :: "redisServiceConfig \<Rightarrow> string" where
  "infoPersistenceMsg s = join_with [CHR 0x0A]
    [''# Persistence'', ''loading:0'', ''rdb_changes_since_last_save:0'', ''rdb_bgsave_in_progress:0'',
     ''rdb_last_save_time:1515759614'', ''rdb_last_bgsave_status:ok'', ''rdb_last_bgsave_time_sec:-1'',
     ''rdb_current_bgsave_time_sec:-1'', ''rdb_last_cow_size:0'', ''aof_enabled:0'', ''aof_rewrite_in_progress:0'',
     ''aof_rewrite_scheduled:0'', ''aof_last_rewrite_time_sec:-1'', ''aof_current_rewrite_time_sec:-1'',
     ''aof_last_bgrewrite_status:ok'', ''aof_last_write_status:ok'', ''aof_last_cow_size:0'', [], []]"

definition infoStatsMsg :: "redisServiceConfig \<Rightarrow> string" where
  "infoStatsMsg s = join_with [CHR 0x0A]
    [''total_connections_received:2'', ''total_commands_processed:1'', ''instantaneous_ops_per_sec:0'',
     ''total_net_input_bytes:14'', ''total_net_output_bytes:2664'', ''instantaneous_input_kbps:0.00'',
     ''instantaneous_output_kbps:0.00'', ''rejected_connections:0'', ''sync_full:0'', ''sync_partial_ok:0'',
     ''sync_partial_err:0'', ''expired_keys:0'', ''evicted_keys:0'', ''keyspace_hits:0'', ''keyspace_misses:0'',
     ''pubsub_channels:0'', ''pubsub_patterns:0'', ''latest_fork_usec:0'', ''migrate_cached_sockets:0'',
     ''slave_expires_tracked_keys:0'', ''active_defrag_hits:0'', ''active_defrag_misses:0'',
     ''active_defrag_key_hits:0'', ''active_defrag_key_misses:0'', [], []]"

definition infoReplicationMsg :: "redisServiceConfig \<Rightarrow> string" where
  "infoReplicationMsg s = join_with [CHR 0x0A]
    [''# Replication'', ''role:master'', ''connected_slaves:0'',
     ''master_replid:29e814284ae0619c1b2c09175f4b5b6a5aafff48'',
     ''master_replid2:0000000000000000000000000000000000000000'', ''master_repl_offset:0'', ''second_repl_offset:-1'',
     ''repl_backlog_active:0'', ''repl_backlog_size:1048576'', ''repl_backlog_first_byte_offset:0'',
     ''repl_backlog_histlen:0'', [], []]"

definition infoCPUMsg :: "redisServiceConfig \<Rightarrow> string" where
  "infoCPUMsg s = join_with [CHR 0x0A]
    [''# CPU'', ''used_cpu_sys:20.83'', ''used_cpu_user:3.02'', ''used_cpu_sys_children:0.00'',
     ''used_cpu_user_children:0.00'', [], []]"

definition infoCommandstatsMsg :: "redisServiceConfig \<Rightarrow> string" where
  "infoCommandstatsMsg s = join_with [CHR 0x0A]
    [''# Commandstats'', ''cmdstat_info:calls=3,usec=181,usec_per_call=60.33'', [], []]"

definition infoClusterMsg :: "redisServiceConfig \<Rightarrow> string" where
  "infoClusterMsg s = join_with [CHR 0x0A]
    [''# Cluster'', ''cluster_enabled:0'', [], []]"

definition infoKeyspaceMsg :: "redisServiceConfig \<Rightarrow> string" where
  "infoKeyspaceMsg s = join_with [CHR 0x0A]
    [''# Keyspace'', [], []]"

definition sectionsMsg :: "redisServiceConfig \<Rightarrow> string" where
  "sectionsMsg s = infoServerMsg s @ infoClientsMsg s @ infoMemoryMsg s @ infoPersistenceMsg s @ infoStatsMsg s @
     infoReplicationMsg s @ infoCPUMsg s @ infoClusterMsg s"

definition infoSectionsMsg :: "redisServiceConfig \<Rightarrow> string" where
  "infoSectionsMsg s = sectionsMsg s @ infoKeyspaceMsg s"

definition allSectionsMsg :: "redisServiceConfig \<Rightarrow> string" where
  "allSectionsMsg s = sectionsMsg s @ infoCommandstatsMsg s @ infoKeyspaceMsg s"

text \<open>The format of \<^verbatim>\<open>lenMsg\<close> with its two arguments, and the two error messages.\<close>

definition lenMsg :: "string \<Rightarrow> string" where
  "lenMsg m = ''$'' @ itoa (length m) @ CRLF @ m @ CRLF"

definition syntax_errorMsg :: string where
  "syntax_errorMsg = ''-ERR syntax error'' @ CRLF"

definition unknown_errorMsg :: "string \<Rightarrow> string" where
  "unknown_errorMsg command = ''-ERR unknown command '' @ [CHR 0x27] @ command @ [CHR 0x27] @ CRLF"

definition mapInfoCmds :: "(string \<times> (redisServiceConfig \<Rightarrow> string)) list" where
  "mapInfoCmds = [(''server'', infoServerMsg), (''clients'', infoClientsMsg), (''memory'', infoMemoryMsg), (''persistence'', infoPersistenceMsg),
     (''stats'', infoStatsMsg), (''replication'', infoReplicationMsg), (''cpu'', infoCPUMsg), (''cluster'', infoClusterMsg),
     (''keyspace'', infoKeyspaceMsg)]"

fun infoCmd :: "redisServiceConfig \<Rightarrow> redisDatum list \<Rightarrow> string \<times> bool" where
  "infoCmd s [] = (lenMsg (infoSectionsMsg s), False)"
| "infoCmd s [arg] = (case redis_ToString arg of
     None \<Rightarrow> (''Expected string argument, got something else'', False)
   | Some word \<Rightarrow> (case map_of mapInfoCmds word of
         Some fn \<Rightarrow> (lenMsg (fn s), False)
       | None \<Rightarrow> if word = ''default'' then (lenMsg (infoSectionsMsg s), False)
                 else if word = ''all'' then (lenMsg (allSectionsMsg s), False)
                 else (lenMsg [], False)))"
| "infoCmd s _ = (syntax_errorMsg, False)"

definition mapCmds :: "(string \<times> (redisServiceConfig \<Rightarrow> redisDatum list \<Rightarrow> string \<times> bool)) list" where
  "mapCmds = [(''info'', infoCmd)]"

definition REDISHandler :: "redisServiceConfig \<Rightarrow> string \<Rightarrow> redisDatum list \<Rightarrow> string \<times> bool" where
  "REDISHandler s command args =
     (let command = ToLower command in
      case map_of mapCmds command of
        None \<Rightarrow> (unknown_errorMsg command, False)
      | Some fn \<Rightarrow> fn s args)"

section \<open>Connections\<close>

record redis_conn =
  rc_scanner :: scanner
  rc_out :: string
  rc_events :: "ev_option list list"

definition redis_event :: "net_addr \<Rightarrow> net_addr \<Rightarrow> string \<Rightarrow> ev_option list" where
  "redis_event remote local command = [ev_Sensor ''services'', ev_Category ''redis'', ev_Type ''redis-command'', ev_SourceAddr remote,
     ev_DestinationAddr local, ev_Custom ''redis.command'' (VString command)]"

text \<open>One turn of the loop of \<^verbatim>\<open>Handle\<close>, with whether it leaves the loop.\<close>

definition redis_turn :: "redisServiceConfig \<Rightarrow> net_addr \<Rightarrow> net_addr \<Rightarrow> redis_conn \<Rightarrow> (redis_conn \<times> bool) result" where
  "redis_turn s remote local c0 = (case parseRedisData (rc_scanner c0) of (datum, sc) \<Rightarrow>
     let c = c0\<lparr>rc_scanner := sc\<rparr> in
     case datum of
       Inl err \<Rightarrow> Inr (c, False)
     | Inr (ArrayDatum items) \<Rightarrow>
         bindR (go_at items 0) (\<lambda>firstItem.
           case redis_ToString firstItem of
             None \<Rightarrow> Inr (c, False)
           | Some command \<Rightarrow> (case REDISHandler s command (drop 1 items) of (answer, closeConn) \<Rightarrow>
               let c1 = c\<lparr>rc_events := rc_events c @ [redis_event remote local command]\<rparr> in
               if closeConn then Inr (c1, True) else Inr (c1\<lparr>rc_out := rc_out c1 @ answer\<rparr>, False)))
     | Inr d \<Rightarrow> Inr (c, False))"

partial_function (option) redis_Handle :: "redisServiceConfig \<Rightarrow> net_addr \<Rightarrow> net_addr \<Rightarrow> redis_conn \<Rightarrow> redis_conn result option" where
  "redis_Handle s remote local c = (case redis_turn s remote local c of
     Inl e \<Rightarrow> Some (Inl e)
   | Inr (c', leave) \<Rightarrow> if leave then Some (Inr c') else redis_Handle s remote local c')"

section \<open>Commands arrive\<close>











text \<open>No answer asks to close the connection.\<close>

lemma REDISHandler_stays: "\<not> snd (REDISHandler s w args)"
proof -
  have "\<not> snd (infoCmd s as)" for as
    by (cases "(s, as)" rule: infoCmd.cases) (auto split: option.splits)
  then show ?thesis
    by (simp add: REDISHandler_def mapCmds_def Let_def)
qed



section \<open>Connections never end\<close>

lemma redis_turn_stays:
  assumes "redis_turn s remote local c = Inr (c', leave)"
  shows "\<not> leave"
proof -
  obtain d sc where d: "parseRedisData (rc_scanner c) = (d, sc)"
    by (cases "parseRedisData (rc_scanner c)")
  show ?thesis
  proof (cases d)
    case (Inr datum)
    then show ?thesis
      using assms REDISHandler_stays [of s] 
      by (cases datum) (auto simp: redis_turn_def d Let_def go_at_def split_beta split: if_splits option.splits)
  qed (use assms in \<open>simp add: redis_turn_def d Let_def\<close>)
qed

lemma redis_turn_panics:
  assumes "redis_turn s remote local c = Inl e"
  shows "e = Panic IndexOutOfRange"
proof -
  obtain d sc where d: "parseRedisData (rc_scanner c) = (d, sc)"
    by (cases "parseRedisData (rc_scanner c)")
  show ?thesis
  proof (cases d)
    case (Inr datum)
    then show ?thesis
      using assms by (cases datum) (auto simp: redis_turn_def d Let_def go_at_def split: if_splits option.splits prod.splits)
  qed (use assms in \<open>simp add: redis_turn_def d Let_def\<close>)
qed

lemma redis_Handle_result:
  assumes "redis_Handle s remote local c = Some r"
  shows "r = Inl (Panic IndexOutOfRange)"
  using assms
proof (rule redis_Handle.raw_induct [where P = "\<lambda>s remote local c r. r = Inl (Panic IndexOutOfRange)", rotated], goal_cases)
  case (1 loop s remote local c r)
  then show ?case
    using redis_turn_stays redis_turn_panics by (fastforce split: sum.splits prod.splits if_splits)
qed

lemma redis_turn_end: "bs_rest (rc_scanner c) = [] \<Longrightarrow> redis_turn s remote local c = Inr (c, False)"
  by (cases "rc_scanner c") (simp add: redis_turn_def parseRedisData.simps Scan_def Let_def dropCR_def)

lemma redis_Handle_end:
  assumes "bs_rest (rc_scanner c) = []"
  shows "redis_Handle s remote local c = None"
proof (rule ccontr)
  assume "redis_Handle s remote local c \<noteq> None"
  then obtain r where "redis_Handle s remote local c = Some r" by blast
  then have "bs_rest (rc_scanner c) \<noteq> []"
  proof (rule redis_Handle.raw_induct [where P = "\<lambda>s remote local c r. bs_rest (rc_scanner c) \<noteq> []", rotated], goal_cases)
    case (1 loop s remote local c r)
    then show ?case
      using redis_turn_end by fastforce
  qed
  with assms show False by simp
qed

text \<open>
  C37: \<^verbatim>\<open>Handle\<close> never returns: it ends in a panic on an empty array, or it runs forever. In particular it
  runs forever once the client has closed the connection, for every scan then yields the empty line that is ignored.
\<close>

theorem redis_never_returns:
  "redis_Handle s remote local c \<in> {None, Some (Inl (Panic IndexOutOfRange))} \<and>
   (bs_rest (rc_scanner c) = [] \<longrightarrow> redis_Handle s remote local c = None)"
  using redis_Handle_result [of s remote local c] redis_Handle_end [of c s remote local] by (cases "redis_Handle s remote local c") auto

definition closed_conn :: redis_conn where
  "closed_conn = \<lparr>rc_scanner = \<lparr>bs_rest = [], bs_failed = False\<rparr>, rc_out = [], rc_events = []\<rparr>"

theorem redis_never_returns_witness:
  "redis_Handle \<lparr>rs_Version = ''4.0.6'', rs_Os = ''Linux''\<rparr> (TCPAddr [] 1) (TCPAddr [] 6379) closed_conn = None"
  using redis_never_returns [of _ _ _ closed_conn] by (simp add: closed_conn_def)

end
