(* ===== verification/Go_Bufio.thy ===== *)
theory Go_Bufio
  imports Go_IO
begin

text \<open>
  Go's \<^verbatim>\<open>bufio.Reader\<close> with its buffer of 4096 bytes over a connection. A read that finds the buffer empty fills it
  with one read of the connection. A connection that stands for a datagram yields empty reads at its end,
  not an error.
\<close>

section \<open>Reader\<close>

record bufio =
  bf_buf :: bytes
  bf_conn :: stream
  bf_udp :: bool

definition bf_New :: "bool \<Rightarrow> stream \<Rightarrow> bufio" where
  "bf_New udp c = \<lparr>bf_buf = [], bf_conn = c, bf_udp = udp\<rparr>"

definition bf_content :: "bufio \<Rightarrow> bytes" where
  "bf_content b = bf_buf b @ concat (bf_conn b)"

text \<open>\<^verbatim>\<open>Read\<close> into a slice that is smaller than the buffer.\<close>

definition bf_Read :: "bufio \<Rightarrow> nat \<Rightarrow> bytes option \<times> bufio" where
  "bf_Read b n =
     (if bf_buf b \<noteq> [] then (Some (take n (bf_buf b)), b\<lparr>bf_buf := drop n (bf_buf b)\<rparr>)
      else case conn_Read (bf_conn b) 4096 of
        (None, c) \<Rightarrow> (if bf_udp b then Some [] else None, b\<lparr>bf_conn := c\<rparr>)
      | (Some x, c) \<Rightarrow> (Some (take n x), b\<lparr>bf_buf := drop n x, bf_conn := c\<rparr>))"

lemma conn_Read_less:
  "conn_Read c n = (Some x, c') \<Longrightarrow> 0 < n \<Longrightarrow> sum_list (map (\<lambda>x. length x + 1) c') < sum_list (map (\<lambda>x. length x + 1) c)"
  by (cases c) (auto simp: conn_Read_def split: if_splits)

text \<open>
  \<^verbatim>\<open>ReadBytes\<close>: the bytes up to the delimiter, collected over as many buffers as it takes, or all there are
  with an error.
\<close>

function bf_ReadBytes :: "byte \<Rightarrow> bytes \<Rightarrow> bufio \<Rightarrow> (bytes \<times> bool) \<times> bufio" where
  "bf_ReadBytes d full b =
     (if d \<in> set (bf_buf b)
      then let l = takeWhile (\<lambda>x. x \<noteq> d) (bf_buf b) in ((full @ l @ [d], True), b\<lparr>bf_buf := drop (length l + 1) (bf_buf b)\<rparr>)
      else if 4096 \<le> length (bf_buf b) then bf_ReadBytes d (full @ bf_buf b) (b\<lparr>bf_buf := []\<rparr>)
      else case conn_Read (bf_conn b) (4096 - length (bf_buf b)) of
        (None, c) \<Rightarrow> ((full @ bf_buf b, False), b\<lparr>bf_buf := [], bf_conn := c\<rparr>)
      | (Some x, c) \<Rightarrow> bf_ReadBytes d full (b\<lparr>bf_buf := bf_buf b @ x, bf_conn := c\<rparr>))"
  by pat_completeness auto
termination
proof (relation "measures [\<lambda>(d, full, b). sum_list (map (\<lambda>x. length x + 1) (bf_conn b)), \<lambda>(d, full, b). length (bf_buf b)]", goal_cases)
  case (3 d full b r c x)
  then show ?case
    using conn_Read_less [of "bf_conn b" "4096 - length (bf_buf b)" x c] by simp
qed auto

declare bf_ReadBytes.simps [simp del]

text \<open>\<^verbatim>\<open>Discard\<close>: it skips bytes until the count is reached or a read fails; a negative count is refused.\<close>

function bf_Discard :: "nat \<Rightarrow> bufio \<Rightarrow> bufio" where
  "bf_Discard n b =
     (if n \<le> length (bf_buf b) then b\<lparr>bf_buf := drop n (bf_buf b)\<rparr>
      else case conn_Read (bf_conn b) 4096 of
        (None, c) \<Rightarrow> b\<lparr>bf_buf := [], bf_conn := c\<rparr>
      | (Some x, c) \<Rightarrow> bf_Discard (n - length (bf_buf b)) (b\<lparr>bf_buf := x, bf_conn := c\<rparr>))"
  by pat_completeness auto
termination
proof (relation "measure (\<lambda>(n, b). sum_list (map (\<lambda>x. length x + 1) (bf_conn b)))", goal_cases)
  case (2 n b r c x)
  then show ?case
    using conn_Read_less [of "bf_conn b" 4096 x c] by simp
qed simp

declare bf_Discard.simps [simp del]

section \<open>What is read\<close>

lemma conn_Read_content:
  "conn_Read c n = (None, c') \<Longrightarrow> c = [] \<and> c' = []"
  "conn_Read c n = (Some x, c') \<Longrightarrow> concat c = x @ concat c'"
  by (cases c; auto simp: conn_Read_def split: if_splits)+

interpretation bufio_reader: io_reader bf_Read bf_content
proof
  fix b n bs b'
  assume "bf_Read b n = (Some bs, b')"
  then show "bf_content b = bs @ bf_content b' \<and> length bs \<le> n"
    by (auto simp: bf_Read_def bf_content_def dest: conn_Read_content split: if_splits option.splits prod.splits)
next
  fix b n b'
  assume "bf_Read b n = (None, b')"
  then show "bf_content b' = bf_content b"
    by (auto simp: bf_Read_def bf_content_def dest: conn_Read_content split: if_splits option.splits prod.splits)
qed

lemma takeWhile_split: "d \<in> set xs \<Longrightarrow> xs = takeWhile (\<lambda>x. x \<noteq> d) xs @ d # drop (length (takeWhile (\<lambda>x. x \<noteq> d) xs) + 1) xs"
  by (induction xs) auto

text \<open>Buffers do not matter for \<^verbatim>\<open>ReadBytes\<close>: it splits the content at the first delimiter.\<close>

lemma bf_ReadBytes_split:
  assumes "bf_ReadBytes d full b = ((line, ok), b')"
  shows "if ok then \<exists>l. line = full @ l @ [d] \<and> d \<notin> set l \<and> bf_content b = l @ [d] @ bf_content b'
    else line = full @ bf_content b \<and> d \<notin> set (bf_content b) \<and> bf_content b' = []"
  using assms
proof (induction d full b rule: bf_ReadBytes.induct)
  case (1 d full b)
  consider (found) "d \<in> set (bf_buf b)" | (full) "d \<notin> set (bf_buf b)" "4096 \<le> length (bf_buf b)"
    | (fill) "d \<notin> set (bf_buf b)" "length (bf_buf b) < 4096"
    by linarith
  then show ?case
  proof cases
    case found
    let ?l = "takeWhile (\<lambda>x. x \<noteq> d) (bf_buf b)"
    have "bf_buf b = ?l @ d # drop (length ?l + 1) (bf_buf b)"
      using found by (rule takeWhile_split)
    moreover have "d \<notin> set ?l"
      by (auto dest: set_takeWhileD)
    ultimately show ?thesis
      using found "1.prems" by (auto simp: bf_ReadBytes.simps [of d full b] Let_def bf_content_def)
  next
    case full
    then have "bf_ReadBytes d (full @ bf_buf b) (b\<lparr>bf_buf := []\<rparr>) = ((line, ok), b')"
      using "1.prems" by (simp add: bf_ReadBytes.simps [of d full b])
    from "1.IH"(1) [OF full(1) _ this] full show ?thesis
      by (auto simp: bf_content_def split: if_splits)
  next
    case fill
    obtain r c where r: "conn_Read (bf_conn b) (4096 - length (bf_buf b)) = (r, c)"
      by (cases "conn_Read (bf_conn b) (4096 - length (bf_buf b))")
    show ?thesis
    proof (cases r)
      case None
      then have "bf_conn b = []" "c = []"
        using r conn_Read_content(1) [of "bf_conn b"] by auto
      then show ?thesis
        using fill r None "1.prems"
        by (auto simp: bf_ReadBytes.simps [of d full b] bf_content_def)
    next
      case (Some x)
      then have "bf_ReadBytes d full (b\<lparr>bf_buf := bf_buf b @ x, bf_conn := c\<rparr>) = ((line, ok), b')"
        using fill r "1.prems" by (simp add: bf_ReadBytes.simps [of d full b])
      moreover have "bf_content (b\<lparr>bf_buf := bf_buf b @ x, bf_conn := c\<rparr>) = bf_content b"
        using conn_Read_content(2) [of "bf_conn b"] r Some by (auto simp: bf_content_def)
      ultimately show ?thesis
        using "1.IH"(2) fill r Some by auto
    qed
  qed
qed

end
