(* ===== verification/Datagram_Services.thy ===== *)
theory Datagram_Services
  imports Go_Bufio Go_Text Events "HOL-Library.More_List"
begin

text \<open>
  The rate limiter of the services (\<^verbatim>\<open>services/limiter.go\<close>) and the services that answer datagrams with it:
  TFTP, Counter-Strike and the echo service. The token buckets of the library below the limiter are a parameter, and
  so is the time.
\<close>

section \<open>Limiter\<close>

record 'l rate_lib =
  rl_NewLimiter :: 'l
  rl_Allow :: "int \<Rightarrow> 'l \<Rightarrow> bool \<times> 'l"

type_synonym 'l Limiter = "string \<Rightarrow> 'l option"

text \<open>There is one bucket per address; addresses of other kinds are never allowed.\<close>

definition bucket_Allow :: "'l rate_lib \<Rightarrow> int \<Rightarrow> 'l Limiter \<Rightarrow> string \<Rightarrow> bool \<times> 'l Limiter" where
  "bucket_Allow lib now m key =
     (let v = (case m key of None \<Rightarrow> rl_NewLimiter lib | Some v \<Rightarrow> v) in
      case rl_Allow lib now v of (ok, v') \<Rightarrow> (ok, m(key \<mapsto> v')))"

fun lim_Allow :: "'l rate_lib \<Rightarrow> int \<Rightarrow> 'l Limiter \<Rightarrow> net_addr \<Rightarrow> bool \<times> 'l Limiter" where
  "lim_Allow lib now m (TCPAddr ip port) = bucket_Allow lib now m (ip_String ip)"
| "lim_Allow lib now m (UDPAddr ip port) = bucket_Allow lib now m (ip_String ip)"
| "lim_Allow lib now m (OtherAddr s) = (False, m)"

section \<open>Connections of a service\<close>

record svc_conn =
  sv_in :: stream
  sv_Raddr :: net_addr
  sv_Laddr :: net_addr

datatype svc_effect = SvcSent event | SvcWrite bytes

definition is_udp :: "svc_conn \<Rightarrow> bool" where
  "is_udp cn \<longleftrightarrow> addr_Network (sv_Raddr cn) = ''udp''"

definition svc_reader :: "svc_conn \<Rightarrow> bufio" where
  "svc_reader cn = bf_New (is_udp cn) (sv_in cn)"

definition read_error :: "svc_conn \<Rightarrow> string" where
  "read_error cn = (if is_udp cn then ''multiple Read calls return no data or error'' else ''EOF'')"

definition svc_event :: "int \<Rightarrow> svc_conn \<Rightarrow> string \<Rightarrow> string \<Rightarrow> ev_option list \<Rightarrow> svc_effect" where
  "svc_event now cn category t opts =
     SvcSent (ev_New now ([ev_Sensor ''services'', ev_Category category, ev_Protocol (addr_Network (sv_Raddr cn)), ev_Type t,
       ev_SourceAddr (sv_Raddr cn), ev_DestinationAddr (sv_Laddr cn)] @ opts))"

section \<open>TFTP\<close>

record tftpFile =
  tf_filename :: bytes
  tf_mode :: bytes
  tf_content :: bytes

record 'l tftpService =
  ts_limiter :: "'l Limiter"
  ts_buffers :: "string \<Rightarrow> tftpFile option"

text \<open>The file name and the mode of a request; the strings keep the zero byte that ends them.\<close>

definition tftp_names :: "bufio \<Rightarrow> (bytes \<times> bytes) option" where
  "tftp_names b =
     (case bf_ReadBytes 0 [] b of ((filename, ok), b1) \<Rightarrow>
        if \<not> ok then None
        else case bf_ReadBytes 0 [] b1 of ((mode, ok'), b2) \<Rightarrow> if ok' then Some (filename, mode) else None)"

definition name_options :: "bytes \<Rightarrow> bytes \<Rightarrow> ev_option list" where
  "name_options filename mode =
     [ev_Custom ''tftp.filename'' (VString (string_of_bytes filename)), ev_Custom ''tftp.mode'' (VString (string_of_bytes mode))]"

definition tftp_write_file :: "int \<Rightarrow> svc_conn \<Rightarrow> tftpFile \<Rightarrow> svc_effect" where
  "tftp_write_file now cn file = svc_event now cn ''tftp'' ''tftp-write-file'' (name_options (tf_filename file) (tf_mode file) @
     [ev_Custom ''tftp.file'' (VBytes (tf_content file)), ev_Custom ''tftp.file-hex'' (VString (hex_encode (tf_content file)))])"

definition tftp_data :: "int \<Rightarrow> 'l tftpService \<Rightarrow> svc_conn \<Rightarrow> bufio \<Rightarrow> 'l tftpService \<times> svc_effect list \<times> string option" where
  "tftp_data now s cn b =
     (case bf_Read b 2 of
        (None, b1) \<Rightarrow> (s, [], Some (read_error cn))
      | (Some blkNum, b1) \<Rightarrow> (case bf_Read b1 512 of
            (None, b2) \<Rightarrow> (s, [], Some (read_error cn))
          | (Some buffer, b2) \<Rightarrow>
              let addr = addr_String (sv_Raddr cn) in
              (case ts_buffers s addr of
                 None \<Rightarrow> (s, [SvcWrite [0, 5, 0, 4, 0]], None)
               | Some f \<Rightarrow>
                   let f' = f\<lparr>tf_content := tf_content f @ buffer\<rparr>;
                       ack = SvcWrite [0, 4, nth_default 0 blkNum 0, nth_default 0 blkNum 1] in
                   if length buffer \<noteq> 512
                   then (s\<lparr>ts_buffers := (ts_buffers s)(addr := None)\<rparr>, [ack, tftp_write_file now cn f'], None)
                   else (s\<lparr>ts_buffers := (ts_buffers s)(addr \<mapsto> f')\<rparr>, [ack], None))))"

definition tftp_packet :: "int \<Rightarrow> 'l tftpService \<Rightarrow> svc_conn \<Rightarrow> 'l tftpService \<times> svc_effect list \<times> string option" where
  "tftp_packet now s cn =
     (case bf_Read (svc_reader cn) 2 of
        (None, b) \<Rightarrow> (s, [], Some (read_error cn))
      | (Some packetType, b) \<Rightarrow>
          let t = nth_default 0 packetType 1 in
          if t = 1 then
            (case tftp_names b of
               None \<Rightarrow> (s, [], Some (read_error cn))
             | Some (filename, mode) \<Rightarrow> (s, [svc_event now cn ''tftp'' ''tftp-read'' (name_options filename mode), SvcWrite [0, 5, 0, 1, 0]], None))
          else if t = 2 then
            (case tftp_names b of
               None \<Rightarrow> (s, [], Some (read_error cn))
             | Some (filename, mode) \<Rightarrow>
                 (s\<lparr>ts_buffers := (ts_buffers s)(addr_String (sv_Raddr cn) \<mapsto> \<lparr>tf_filename = filename, tf_mode = mode, tf_content = []\<rparr>)\<rparr>,
                  [svc_event now cn ''tftp'' ''tftp-write'' (name_options filename mode), SvcWrite [0, 4, 0, 0]], None))
          else if t = 3 then tftp_data now s cn b
          else (s, [], None))"

definition tftp_Handle ::
  "'l rate_lib \<Rightarrow> int \<Rightarrow> 'l tftpService \<Rightarrow> svc_conn \<Rightarrow> 'l tftpService \<times> svc_effect list \<times> string option" where
  "tftp_Handle lib now s cn =
     (case (if is_udp cn then lim_Allow lib now (ts_limiter s) (sv_Raddr cn) else (True, ts_limiter s)) of (ok, m) \<Rightarrow>
        let s1 = s\<lparr>ts_limiter := m\<rparr> in
        if ok then tftp_packet now s1 cn else (s1, [], None))"

text \<open>The datagrams of a client, one after the other.\<close>

fun tftp_run :: "'l rate_lib \<Rightarrow> net_addr \<Rightarrow> net_addr \<Rightarrow> 'l tftpService \<Rightarrow> (int \<times> bytes) list \<Rightarrow> 'l tftpService \<times> svc_effect list" where
  "tftp_run lib raddr laddr s [] = (s, [])"
| "tftp_run lib raddr laddr s ((now, p) # ps) =
     (case tftp_Handle lib now s \<lparr>sv_in = [p], sv_Raddr = raddr, sv_Laddr = laddr\<rparr> of (s1, effs, err) \<Rightarrow>
        map_prod id ((@) effs) (tftp_run lib raddr laddr s1 ps))"

text \<open>The limiter lets packets at these times pass.\<close>

fun grants :: "'l rate_lib \<Rightarrow> 'l Limiter \<Rightarrow> net_addr \<Rightarrow> int list \<Rightarrow> bool" where
  "grants lib m a [] = True"
| "grants lib m a (t # ts) = (case lim_Allow lib t m a of (ok, m') \<Rightarrow> ok \<and> grants lib m' a ts)"

text \<open>An upload as a client sends it: the request, and blocks of 512 bytes with a shorter one at the end.\<close>

definition tftp_wrq :: "bytes \<Rightarrow> bytes \<Rightarrow> bytes" where
  "tftp_wrq filename mode = [0, 2] @ filename @ [0] @ mode @ [0]"

function tftp_blocks :: "u16 \<Rightarrow> bytes \<Rightarrow> (u16 \<times> bytes) list" where
  "tftp_blocks n bs = (if length bs < 512 then [(n, bs)] else (n, take 512 bs) # tftp_blocks (n + 1) (drop 512 bs))"
  by pat_completeness auto
termination
  by (relation "measure (\<lambda>(n, bs). length bs)") auto

declare tftp_blocks.simps [simp del]

definition tftp_block :: "u16 \<times> bytes \<Rightarrow> bytes" where
  "tftp_block b = [0, 3] @ put_be16 (fst b) @ snd b"

section \<open>Counter-Strike\<close>

definition a2s_info_message :: bytes where
  "a2s_info_message = [
     0xff, 0xff, 0xff, 0xff, 0x49, 0x11, 0x43, 0x6f, 0x75, 0x6e, 0x74, 0x65,
     0x72, 0x2d, 0x53, 0x74, 0x72, 0x69, 0x6b, 0x65, 0x3a, 0x20, 0x47, 0x6c,
     0x6f, 0x62, 0x61, 0x6c, 0x20, 0x4f, 0x66, 0x66, 0x65, 0x6e, 0x73, 0x69,
     0x76, 0x65, 0x00, 0x64, 0x65, 0x5f, 0x64, 0x75, 0x73, 0x74, 0x32, 0x00,
     0x63, 0x73, 0x67, 0x6f, 0x00, 0x43, 0x6f, 0x75, 0x6e, 0x74, 0x65, 0x72,
     0x2d, 0x53, 0x74, 0x72, 0x69, 0x6b, 0x65, 0x3a, 0x20, 0x47, 0x6c, 0x6f,
     0x62, 0x61, 0x6c, 0x20, 0x4f, 0x66, 0x66, 0x65, 0x6e, 0x73, 0x69, 0x76,
     0x65, 0x00, 0xda, 0x02, 0x00, 0x0a, 0x00, 0x64, 0x6c, 0x00, 0x01, 0x31,
     0x2e, 0x33, 0x36, 0x2e, 0x33, 0x2e, 0x34, 0x00, 0xa1, 0x88, 0x69, 0x76,
     0x61, 0x6c, 0x76, 0x65, 0x5f, 0x64, 0x73, 0x2c, 0x65, 0x6d, 0x70, 0x74,
     0x79, 0x2c, 0x73, 0x65, 0x63, 0x75, 0x72, 0x65, 0x00, 0xda, 0x02, 0x00]"

definition cs_query_options :: "bytes \<Rightarrow> byte \<Rightarrow> ev_option list option" where
  "cs_query_options buf query =
     (if query = 0x54 then Some [ev_Custom ''counterstrike.query'' (VString ''a2s_info''),
          ev_Custom ''counterstrike.payload'' (VString (string_of_bytes (drop 5 buf))), ev_Payload buf]
      else if query = 0x55 then Some [ev_Custom ''counterstrike.query'' (VString ''a2s_player''), ev_Payload buf]
      else if query = 0x56 then Some [ev_Custom ''counterstrike.query'' (VString ''a2s_rules''), ev_Payload buf]
      else if query = 0x57 then Some [ev_Custom ''counterstrike.query'' (VString ''a2s_serverquery_challenge''), ev_Payload buf]
      else if query = 0x69 then Some [ev_Custom ''counterstrike.query'' (VString ''a2s_ping''), ev_Payload buf]
      else None)"

text \<open>
  The slice of the first four bytes is taken within the capacity of the buffer, so it does not panic on a short packet: the
  rest of the buffer is zero.
\<close>

definition cs_Handle :: "'l rate_lib \<Rightarrow> int \<Rightarrow> 'l Limiter \<Rightarrow> svc_conn \<Rightarrow> ('l Limiter \<times> svc_effect list) result" where
  "cs_Handle lib now m cn =
     (if \<not> is_udp cn then Inr (m, [])
      else let buf = (case bf_Read (svc_reader cn) 1024 of (None, b) \<Rightarrow> [] | (Some x, b) \<Rightarrow> x);
               head = take 4 (buf @ [0, 0, 0, 0]) in
           if head \<noteq> [0xff, 0xff, 0xff, 0xff] \<and> head \<noteq> [0xff, 0xff, 0xff, 0xfe] then Inr (m, [])
           else bindR (go_at buf 4) (\<lambda>query.
             let effs = (case cs_query_options buf query of None \<Rightarrow> [] | Some opts \<Rightarrow> [svc_event now cn ''counterstrike'' ''request'' opts]) in
             case lim_Allow lib now m (sv_Raddr cn) of (ok, m') \<Rightarrow>
               Inr (m', effs @ (if ok then [SvcWrite a2s_info_message] else []))))"

section \<open>Echo\<close>

text \<open>Datagrams are reported and sent back; everything else is copied until its end, here as one write.\<close>

definition echo_event :: "int \<Rightarrow> svc_conn \<Rightarrow> bytes \<Rightarrow> svc_effect" where
  "echo_event now cn payload = SvcSent (ev_New now [ev_Sensor ''services'', ev_Category ''echo'', ev_SourceAddr (sv_Raddr cn),
     ev_DestinationAddr (sv_Laddr cn), ev_Payload payload])"

definition echo_Handle :: "int \<Rightarrow> bool \<Rightarrow> svc_conn \<Rightarrow> svc_effect list" where
  "echo_Handle now dummy cn =
     (if \<not> dummy then [SvcWrite (concat (sv_in cn))]
      else let payload = take 65535 (concat (sv_in cn)) in [echo_event now cn payload, SvcWrite payload])"

section \<open>Uploads arrive\<close>

lemma reader_Read:
  "length p \<le> 4096 \<Longrightarrow> bf_Read (bf_New udp [p]) n = (Some (take n p), \<lparr>bf_buf = drop n p, bf_conn = [], bf_udp = udp\<rparr>)"
  by (simp add: bf_Read_def bf_New_def conn_Read_def)

lemma rest_Read: "bf_Read \<lparr>bf_buf = r, bf_conn = [], bf_udp = True\<rparr> n = (Some (take n r), \<lparr>bf_buf = drop n r, bf_conn = [], bf_udp = True\<rparr>)"
  by (simp add: bf_Read_def conn_Read_def)

lemma rest_ReadBytes:
  assumes "0 \<notin> set l"
  shows "bf_ReadBytes 0 [] \<lparr>bf_buf = l @ 0 # r, bf_conn = [], bf_udp = True\<rparr> = ((l @ [0], True), \<lparr>bf_buf = r, bf_conn = [], bf_udp = True\<rparr>)"
proof -
  have "takeWhile (\<lambda>x. x \<noteq> 0) (l @ 0 # r) = l"
    using assms by (subst takeWhile_append2) auto
  then show ?thesis
    by (simp add: bf_ReadBytes.simps Let_def)
qed

lemma tftp_wrq_packet:
  assumes "0 \<notin> set filename" "0 \<notin> set mode" "length (tftp_wrq filename mode) \<le> 4096" "is_udp cn" "sv_in cn = [tftp_wrq filename mode]"
  shows "tftp_packet now s cn =
    (s\<lparr>ts_buffers := (ts_buffers s)(addr_String (sv_Raddr cn) \<mapsto> \<lparr>tf_filename = filename @ [0], tf_mode = mode @ [0], tf_content = []\<rparr>)\<rparr>,
     [svc_event now cn ''tftp'' ''tftp-write'' (name_options (filename @ [0]) (mode @ [0])), SvcWrite [0, 4, 0, 0]], None)"
proof -
  have "bf_Read (svc_reader cn) 2 = (Some [0, 2], \<lparr>bf_buf = filename @ 0 # mode @ [0], bf_conn = [], bf_udp = True\<rparr>)"
    using reader_Read [OF assms(3), of True 2] assms(4,5) by (simp add: svc_reader_def tftp_wrq_def)
  then show ?thesis
    by (simp add: tftp_packet_def tftp_names_def rest_ReadBytes [OF assms(1)] rest_ReadBytes [OF assms(2)])
qed

lemma tftp_data_packet:
  assumes "length data \<le> 512" "is_udp cn" "sv_in cn = [tftp_block (n, data)]" "ts_buffers s (addr_String (sv_Raddr cn)) = Some f"
  shows "tftp_packet now s cn =
    (let f' = f\<lparr>tf_content := tf_content f @ data\<rparr>; ack = SvcWrite ([0, 4] @ put_be16 n) in
     if length data < 512
     then (s\<lparr>ts_buffers := (ts_buffers s)(addr_String (sv_Raddr cn) := None)\<rparr>, [ack, tftp_write_file now cn f'], None)
     else (s\<lparr>ts_buffers := (ts_buffers s)(addr_String (sv_Raddr cn) \<mapsto> f')\<rparr>, [ack], None))"
proof -
  obtain h l where hl: "put_be16 n = [h, l]"
    by (simp add: put_be16_def)
  then have "bf_Read (svc_reader cn) 2 = (Some [0, 3], \<lparr>bf_buf = h # l # data, bf_conn = [], bf_udp = True\<rparr>)"
    using reader_Read [of "tftp_block (n, data)" True 2] assms(1-3) by (simp add: svc_reader_def tftp_block_def)
  then show ?thesis
    using assms(1) by (auto simp: tftp_packet_def tftp_data_def rest_Read assms(4) hl Let_def)
qed

lemma tftp_Handle_granted:
  assumes "lim_Allow lib now (ts_limiter s) (sv_Raddr cn) = (True, m)" "is_udp cn"
  shows "tftp_Handle lib now s cn = tftp_packet now (s\<lparr>ts_limiter := m\<rparr>) cn"
  using assms by (simp add: tftp_Handle_def)

text \<open>The datagrams of a transfer with their times, and what the service does: it acknowledges every block and reports the file.\<close>

definition tftp_datagrams :: "int list \<Rightarrow> (u16 \<times> bytes) list \<Rightarrow> (int \<times> bytes) list" where
  "tftp_datagrams ts bs = zip ts (map tftp_block bs)"

definition acks :: "(u16 \<times> bytes) list \<Rightarrow> svc_effect list" where
  "acks bs = map (\<lambda>b. SvcWrite ([0, 4] @ put_be16 (fst b))) bs"

lemma tftp_run_blocks:
  assumes "length ts = length (tftp_blocks n bs)" "grants lib (ts_limiter s) a ts"
    and "ts_buffers s (addr_String a) = Some f" and "addr_Network a = ''udp''"
  shows "\<exists>m. tftp_run lib a laddr s (tftp_datagrams ts (tftp_blocks n bs)) =
    (s\<lparr>ts_limiter := m, ts_buffers := (ts_buffers s)(addr_String a := None)\<rparr>,
     acks (tftp_blocks n bs) @ [tftp_write_file (last ts) \<lparr>sv_in = [tftp_block (last (tftp_blocks n bs))], sv_Raddr = a, sv_Laddr = laddr\<rparr>
       (f\<lparr>tf_content := tf_content f @ bs\<rparr>)])"
  using assms
proof (induction n bs arbitrary: ts s f rule: tftp_blocks.induct)
  case (1 n bs)
  let ?k = "addr_String a"
  have ne: "tftp_blocks n bs \<noteq> []"
    by (simp add: tftp_blocks.simps [of n bs])
  with "1.prems"(1) obtain t ts' where ts: "ts = t # ts'"
    by (cases ts) auto
  with "1.prems"(2) obtain m where al: "lim_Allow lib t (ts_limiter s) a = (True, m)" and gr: "grants lib m a ts'"
    by (auto split: prod.splits)
  have pk: "tftp_Handle lib t s \<lparr>sv_in = [tftp_block (n, data)], sv_Raddr = a, sv_Laddr = laddr\<rparr> =
      (let f' = f\<lparr>tf_content := tf_content f @ data\<rparr>; ack = SvcWrite ([0, 4] @ put_be16 n) in
       if length data < 512
       then (s\<lparr>ts_limiter := m, ts_buffers := (ts_buffers s)(?k := None)\<rparr>,
         [ack, tftp_write_file t \<lparr>sv_in = [tftp_block (n, data)], sv_Raddr = a, sv_Laddr = laddr\<rparr> f'], None)
       else (s\<lparr>ts_limiter := m, ts_buffers := (ts_buffers s)(?k \<mapsto> f')\<rparr>, [ack], None))" if "length data \<le> 512" for data
    using that "1.prems"(3,4) al
    by (simp add: tftp_Handle_granted tftp_data_packet [where n = n and data = data and f = f] is_udp_def Let_def)
  show ?case
  proof (cases "length bs < 512")
    case True
    then have b: "tftp_blocks n bs = [(n, bs)]"
      by (simp add: tftp_blocks.simps [of n bs])
    then have "ts' = []"
      using "1.prems"(1) ts by simp
    then show ?thesis
      using True pk [of bs] by (intro exI [of _ m]) (simp add: b ts tftp_datagrams_def acks_def Let_def fun_upd_def)
  next
    case False
    let ?f = "f\<lparr>tf_content := tf_content f @ take 512 bs\<rparr>"
    let ?s = "s\<lparr>ts_limiter := m, ts_buffers := (ts_buffers s)(?k \<mapsto> ?f)\<rparr>"
    have b: "tftp_blocks n bs = (n, take 512 bs) # tftp_blocks (n + 1) (drop 512 bs)"
      using False by (simp add: tftp_blocks.simps [of n bs])
    have ne': "tftp_blocks (n + 1) (drop 512 bs) \<noteq> []"
      by (subst tftp_blocks.simps) simp
    have len: "length ts' = length (tftp_blocks (n + 1) (drop 512 bs))"
      using "1.prems"(1) ts b by simp
    then have "ts' \<noteq> []"
      using ne' by auto
    have "\<exists>m'. tftp_run lib a laddr ?s (tftp_datagrams ts' (tftp_blocks (n + 1) (drop 512 bs))) =
        (?s\<lparr>ts_limiter := m', ts_buffers := (ts_buffers ?s)(?k := None)\<rparr>,
         acks (tftp_blocks (n + 1) (drop 512 bs)) @
         [tftp_write_file (last ts') \<lparr>sv_in = [tftp_block (last (tftp_blocks (n + 1) (drop 512 bs)))], sv_Raddr = a, sv_Laddr = laddr\<rparr>
            (?f\<lparr>tf_content := tf_content ?f @ drop 512 bs\<rparr>)])"
      by (rule "1.IH" [OF False len]) (use gr "1.prems"(4) in simp_all)
    then show ?thesis
      using False pk [of "take 512 bs"] ne' \<open>ts' \<noteq> []\<close>
      by (auto simp: b ts tftp_datagrams_def acks_def Let_def fun_upd_def if_distrib cong: if_cong)
  qed
qed

text \<open>
  C16: an upload whose packets the limiter lets pass is reported as a whole: the request and every block are acknowledged, the
  report has the bytes of the blocks in order, and the buffer of the client is gone afterwards. The file name and the mode are
  reported with the zero byte that ends them.
\<close>

theorem tftp_upload:
  assumes "addr_Network a = ''udp''" and "0 \<notin> set filename" and "0 \<notin> set mode" and "length (tftp_wrq filename mode) \<le> 4096"
    and "length ts = length (tftp_blocks 1 content)" and "grants lib (ts_limiter s) a (t # ts)"
  shows "\<exists>m. tftp_run lib a laddr s ((t, tftp_wrq filename mode) # tftp_datagrams ts (tftp_blocks 1 content)) =
    (s\<lparr>ts_limiter := m, ts_buffers := (ts_buffers s)(addr_String a := None)\<rparr>,
     [svc_event t \<lparr>sv_in = [tftp_wrq filename mode], sv_Raddr = a, sv_Laddr = laddr\<rparr> ''tftp'' ''tftp-write'' (name_options (filename @ [0]) (mode @ [0])),
      SvcWrite [0, 4, 0, 0]] @
     acks (tftp_blocks 1 content) @
     [tftp_write_file (last ts) \<lparr>sv_in = [tftp_block (last (tftp_blocks 1 content))], sv_Raddr = a, sv_Laddr = laddr\<rparr>
        \<lparr>tf_filename = filename @ [0], tf_mode = mode @ [0], tf_content = content\<rparr>])"
proof -
  let ?cn = "\<lparr>sv_in = [tftp_wrq filename mode], sv_Raddr = a, sv_Laddr = laddr\<rparr>"
  let ?f = "\<lparr>tf_filename = filename @ [0], tf_mode = mode @ [0], tf_content = []\<rparr>"
  obtain m where m: "lim_Allow lib t (ts_limiter s) a = (True, m)" "grants lib m a ts"
    using assms(6) by (auto split: prod.splits)
  let ?s = "s\<lparr>ts_limiter := m, ts_buffers := (ts_buffers s)(addr_String a \<mapsto> ?f)\<rparr>"
  have u: "is_udp ?cn"
    using assms(1) by (simp add: is_udp_def)
  have w: "tftp_Handle lib t s ?cn = (?s, [svc_event t ?cn ''tftp'' ''tftp-write'' (name_options (filename @ [0]) (mode @ [0])), SvcWrite [0, 4, 0, 0]], None)"
    using m(1) by (simp add: tftp_Handle_granted [OF _ u] tftp_wrq_packet [OF assms(2-4) u])
  obtain m' where r: "tftp_run lib a laddr ?s (tftp_datagrams ts (tftp_blocks 1 content)) =
      (?s\<lparr>ts_limiter := m', ts_buffers := (ts_buffers ?s)(addr_String a := None)\<rparr>,
       acks (tftp_blocks 1 content) @ [tftp_write_file (last ts) \<lparr>sv_in = [tftp_block (last (tftp_blocks 1 content))], sv_Raddr = a, sv_Laddr = laddr\<rparr>
         (?f\<lparr>tf_content := tf_content ?f @ content\<rparr>)])"
    using tftp_run_blocks [of ts 1 content lib ?s a ?f laddr] assms(1,5) m(2) by auto
  show ?thesis
    by (intro exI [of _ m']) (simp add: w r)
qed

definition four_tokens :: "nat rate_lib" where
  "four_tokens = \<lparr>rl_NewLimiter = 4, rl_Allow = (\<lambda>t n. (0 < n, n - 1))\<rparr>"

theorem tftp_upload_witness:
  "\<exists>m. tftp_run four_tokens (UDPAddr [10, 0, 0, 1] 4000) (UDPAddr [10, 0, 0, 2] 69) \<lparr>ts_limiter = Map.empty, ts_buffers = Map.empty\<rparr>
     ((0, tftp_wrq [97] [98]) # tftp_datagrams [1, 2] (tftp_blocks 1 (replicate 600 7))) =
    (\<lparr>ts_limiter = m, ts_buffers = Map.empty\<rparr>,
     [svc_event 0 \<lparr>sv_in = [tftp_wrq [97] [98]], sv_Raddr = UDPAddr [10, 0, 0, 1] 4000, sv_Laddr = UDPAddr [10, 0, 0, 2] 69\<rparr>
        ''tftp'' ''tftp-write'' (name_options [97, 0] [98, 0]), SvcWrite [0, 4, 0, 0]] @
     acks (tftp_blocks 1 (replicate 600 7)) @
     [tftp_write_file 2 \<lparr>sv_in = [tftp_block (last (tftp_blocks 1 (replicate 600 7)))], sv_Raddr = UDPAddr [10, 0, 0, 1] 4000, sv_Laddr = UDPAddr [10, 0, 0, 2] 69\<rparr>
        \<lparr>tf_filename = [97, 0], tf_mode = [98, 0], tf_content = replicate 600 7\<rparr>])"
proof -
  have "length (tftp_blocks 1 (replicate 600 (7 :: byte))) = 2"
    by (subst tftp_blocks.simps, subst tftp_blocks.simps) simp
  then show ?thesis
    using tftp_upload [of "UDPAddr [10, 0, 0, 1] 4000" "[97]" "[98]" "[1, 2]" "replicate 600 7" four_tokens
        "\<lparr>ts_limiter = Map.empty, ts_buffers = Map.empty\<rparr>" 0 "UDPAddr [10, 0, 0, 2] 69"]
    by (simp add: tftp_wrq_def four_tokens_def bucket_Allow_def)
qed

section \<open>Panics\<close>

text \<open>Exactly the datagrams that consist of one of the two headers make the Counter-Strike service panic.\<close>

theorem cs_panics_iff:
  assumes "addr_Network (sv_Raddr cn) = ''udp''" and "sv_in cn = [p]"
  shows "is_panic (cs_Handle lib now m cn) \<longleftrightarrow> p \<in> {[0xff, 0xff, 0xff, 0xff], [0xff, 0xff, 0xff, 0xfe]}"
proof -
  have b: "bf_Read (svc_reader cn) 1024 = (Some (take 1024 p), \<lparr>bf_buf = drop 1024 (take 4096 p), bf_conn = (if length p \<le> 4096 then [] else [drop 4096 p]), bf_udp = True\<rparr>)"
    using assms by (simp add: svc_reader_def bf_New_def bf_Read_def conn_Read_def is_udp_def)
  have u: "is_udp cn"
    using assms(1) by (simp add: is_udp_def)
  consider (short) "length p \<le> 4" | (long) "4 < length p"
    by linarith
  then show ?thesis
  proof cases
    case short
    then have "p = [] \<or> (\<exists>x. p = [x]) \<or> (\<exists>x y. p = [x, y]) \<or> (\<exists>x y z. p = [x, y, z]) \<or> (\<exists>x y z w. p = [x, y, z, w])"
      by (cases p rule: remdups_adj.cases; auto simp: length_Suc_conv numeral_eq_Suc le_Suc_eq)
    then show ?thesis
      by (auto simp: cs_Handle_def b u Let_def go_at_def split: prod.splits)
  next
    case long
    then show ?thesis
      by (auto simp: cs_Handle_def b u Let_def go_at_def split: prod.splits)
  qed
qed

end
