(* ===== verification/Memcached.thy ===== *)
theory Memcached
  imports Datagram_Services
begin

text \<open>
  The memcached service (\<^verbatim>\<open>services/memcached.go\<close>) over connections and datagrams. Every turn of its loop consumes a
  line, so it ends with the input.
\<close>

section \<open>Commands\<close>

text \<open>Raw string literals: the backslashes are sent as they stand.\<close>

definition ok_reply :: bytes where
  "ok_reply = bytes_of_string (''OK'' @ [CHR 0x5C, CHR ''r'', CHR 0x5C, CHR ''n''])"

definition stats_reply :: bytes where
  "stats_reply = bytes_of_string (join_with [CHR 0x0A]
     [[], ''STAT pid 2080'', ''STAT uptime 3151236'', ''STAT time 1520550684'', ''STAT version 1.4.13'',
      ''STAT libevent 2.0.16-stable'', ''STAT pointer_size 64'', ''STAT rusage_user 371.247201'',
      ''STAT rusage_system 1839.982991'', ''STAT curr_connections 8'', ''STAT total_connections 5547233'',
      ''STAT connection_structures 55'', ''STAT reserved_fds 20'', ''STAT cmd_get 22076096'', ''STAT cmd_set 21'',
      ''STAT cmd_flush 3'', ''STAT cmd_touch 0'', ''STAT get_hits 22076066'', ''STAT get_misses 30'',
      ''STAT delete_misses 0'', ''STAT delete_hits 0'', ''STAT incr_misses 0'', ''STAT incr_hits 0'',
      ''STAT decr_misses 0'', ''STAT decr_hits 0'', ''STAT cas_misses 0'', ''STAT cas_hits 0'', ''STAT cas_badval 0'',
      ''STAT touch_hits 0'', ''STAT touch_misses 0'', ''STAT auth_cmds 0'', ''STAT auth_errors 0'',
      ''STAT bytes_read 286857265'', ''STAT bytes_written 129670828957'', ''STAT limit_maxbytes 67108864'',
      ''STAT accepting_conns 1'', ''STAT listen_disabled_num 0'', ''STAT threads 4'', ''STAT conn_yields 0'',
      ''STAT hash_power_level 16'', ''STAT hash_bytes 524288'', ''STAT hash_is_expanding 0'', ''STAT expired_unfetched 0'',
      ''STAT evicted_unfetched 0'', ''STAT bytes 29828'', ''STAT curr_items 5'', ''STAT total_items 21'',
      ''STAT evictions 0'', ''STAT reclaimed 3'', ''END'' @ [CHR 0x5C, CHR ''r'', CHR 0x5C, CHR ''n''], []])"

definition strip_line :: "bytes \<Rightarrow> bytes" where
  "strip_line command = (if 2 \<le> length command then take (length command - 2) command else command)"

definition command_event :: "int \<Rightarrow> svc_conn \<Rightarrow> bytes \<Rightarrow> svc_effect" where
  "command_event now cn command = svc_event now cn ''memcached'' ''memcached-command''
     [ev_Custom ''memcached.command'' (VString (string_of_bytes command)), ev_Custom ''memcached.command-hex'' (VString (hex_encode command))]"

definition storage_event :: "int \<Rightarrow> svc_conn \<Rightarrow> string list \<Rightarrow> bytes \<Rightarrow> svc_effect" where
  "storage_event now cn parts buff = svc_event now cn ''memcached'' (''memcached-'' @ parts ! 0)
     [ev_Custom ''memcached.command'' (VString (parts ! 0)), ev_Custom ''memcached.key'' (VString (parts ! 1)),
      ev_Custom ''memcached.flags'' (VString (parts ! 2)), ev_Custom ''memcached.expire-time'' (VString (parts ! 3)),
      ev_Custom ''memcached.bytes'' (VString (parts ! 4)), ev_Payload buff]"

definition storage_commands :: "string list" where
  "storage_commands = [''add'', ''replace'', ''prepend'', ''append'', ''cas'', ''set'']"

text \<open>A storage command reads at most 80 bytes of the value and skips what the count leaves; a negative rest skips nothing.\<close>

definition mc_storage :: "int \<Rightarrow> svc_conn \<Rightarrow> string \<Rightarrow> string list \<Rightarrow> bufio \<Rightarrow> string + svc_effect list \<times> bufio" where
  "mc_storage now cn command parts b =
     (if length parts < 5 then Inl (''Invalid number of arguments: '' @ command)
      else case Atoi (parts ! 4) of
        NumOk v \<Rightarrow> (case bf_Read b 80 of
            (None, b1) \<Rightarrow> Inl (read_error cn)
          | (Some buff, b1) \<Rightarrow>
              let count = v - int (length buff); b2 = (if count < 0 then b1 else bf_Discard (nat count) b1) in
              Inr ([storage_event now cn parts buff, SvcWrite (bytes_of_string (''STORED'' @ CRLF))], b2))
      | _ \<Rightarrow> Inl (''Byte count is not a number: '' @ command))"

definition mc_command :: "int \<Rightarrow> svc_conn \<Rightarrow> string \<Rightarrow> bufio \<Rightarrow> string + svc_effect list \<times> bufio" where
  "mc_command now cn command b =
     (let parts = split_on (CHR '' '') command in
      if parts ! 0 = ''flush_all'' then Inr ([SvcWrite ok_reply], b)
      else if parts ! 0 = ''stats'' then Inr ([SvcWrite stats_reply], b)
      else if parts ! 0 \<in> set storage_commands then mc_storage now cn command parts b
      else Inr ([SvcWrite (bytes_of_string (''ERROR'' @ CRLF))], b))"

section \<open>The loop\<close>

text \<open>The times of the calls of the limiter are those of the commands.\<close>

record 'l mc_state =
  mc_limiter :: "'l Limiter"
  mc_effects :: "svc_effect list"

lemma bf_Discard_shorter: "length (bf_content (bf_Discard n b)) \<le> length (bf_content b)"
proof (induction n b rule: bf_Discard.induct)
  case (1 n b)
  show ?case
  proof (cases "n \<le> length (bf_buf b)")
    case False
    obtain r c where r: "conn_Read (bf_conn b) 4096 = (r, c)"
      by (cases "conn_Read (bf_conn b) 4096")
    show ?thesis
    proof (cases r)
      case None
      then have "c = []"
        using r conn_Read_content(1) [of "bf_conn b" 4096 c] by simp
      then show ?thesis
        using False r None by (simp add: bf_Discard.simps [of n b] bf_content_def)
    next
      case (Some x)
      then have "length (bf_content (b\<lparr>bf_buf := x, bf_conn := c\<rparr>)) \<le> length (bf_content b)"
        using r conn_Read_content(2) [of "bf_conn b" 4096 x c] by (simp add: bf_content_def)
      then show ?thesis
        using "1.IH" [OF False r [symmetric] Some] False r Some by (simp add: bf_Discard.simps [of n b])
    qed
  qed (simp add: bf_Discard.simps [of n b] bf_content_def)
qed

lemma mc_command_shorter: "mc_command now cn command b = Inr (effs, b') \<Longrightarrow> length (bf_content b') \<le> length (bf_content b)"
proof -
  have "bf_Read b 80 = (Some x, b1) \<Longrightarrow> length (bf_content b1) \<le> length (bf_content b)" for x b1
    using bufio_reader.read_some [of b 80 x b1] by simp
  then show "mc_command now cn command b = Inr (effs, b') \<Longrightarrow> length (bf_content b') \<le> length (bf_content b)"
    using bf_Discard_shorter order_trans
    by (fastforce simp: mc_command_def mc_storage_def Let_def split: if_splits parsed.splits prod.splits option.splits)
qed

lemma bf_ReadBytes_shorter: "bf_ReadBytes d [] b = ((line, ok), b') \<Longrightarrow> ok \<Longrightarrow> length (bf_content b') < length (bf_content b)"
  using bf_ReadBytes_split [of d "[]" b line ok b'] by auto

function mc_loop :: "'l rate_lib \<Rightarrow> int \<Rightarrow> svc_conn \<Rightarrow> 'l mc_state \<Rightarrow> bufio \<Rightarrow> 'l mc_state \<times> string option" where
  "mc_loop lib now cn s b =
     (case bf_ReadBytes 0x0A [] b of ((line, ok), b1) \<Rightarrow>
        if \<not> ok then (s, None)
        else let command = strip_line line;
                 s1 = s\<lparr>mc_effects := mc_effects s @ [command_event now cn command]\<rparr> in
          case (if is_udp cn then lim_Allow lib now (mc_limiter s1) (sv_Raddr cn) else (True, mc_limiter s1)) of (allowed, m) \<Rightarrow>
            let s2 = s1\<lparr>mc_limiter := m\<rparr> in
            if \<not> allowed then (s2, None)
            else case mc_command now cn (string_of_bytes command) b1 of
              Inl err \<Rightarrow> (s2, Some err)
            | Inr (effs, b2) \<Rightarrow> mc_loop lib now cn (s2\<lparr>mc_effects := mc_effects s2 @ effs\<rparr>) b2)"
  by pat_completeness auto
termination
proof (relation "measure (\<lambda>(lib, now, cn, s, b). length (bf_content b))", goal_cases)
  case 2
  have "length (bf_content (snd p)) \<le> length (bf_content b1)" if "mc_command now cn command b1 = Inr p" for now cn command b1 p
    using mc_command_shorter [of now cn command b1 "fst p" "snd p"] that by simp
  from this [OF 2(9)] bf_ReadBytes_shorter [OF 2(1) [folded 2(2), symmetric]] 2(3) show ?case
    using 2(10) [symmetric] by simp
qed simp

declare mc_loop.simps [simp del]

definition mc_Handle :: "'l rate_lib \<Rightarrow> int \<Rightarrow> 'l Limiter \<Rightarrow> svc_conn \<Rightarrow> 'l mc_state \<times> string option" where
  "mc_Handle lib now m cn =
     (let b = svc_reader cn; b1 = (if is_udp cn then snd (bf_Read b 8) else b) in
      mc_loop lib now cn \<lparr>mc_limiter = m, mc_effects = []\<rparr> b1)"

section \<open>Storing a value\<close>

text \<open>What a service has written, and a storage command with its value as a client sends it.\<close>

fun svc_written :: "svc_effect list \<Rightarrow> bytes" where
  "svc_written [] = []"
| "svc_written (SvcWrite bs # effs) = bs @ svc_written effs"
| "svc_written (SvcSent e # effs) = svc_written effs"

definition mc_word :: "string \<Rightarrow> bool" where
  "mc_word w \<longleftrightarrow> CHR '' '' \<notin> set w \<and> CHR 0x0A \<notin> set w"

definition set_line :: "string \<Rightarrow> string \<Rightarrow> string \<Rightarrow> nat \<Rightarrow> string" where
  "set_line key flags expire n = ''set '' @ key @ '' '' @ flags @ '' '' @ expire @ '' '' @ itoa n"

definition set_request :: "string \<Rightarrow> string \<Rightarrow> string \<Rightarrow> bytes \<Rightarrow> bytes" where
  "set_request key flags expire v = bytes_of_string (set_line key flags expire (length v) @ CRLF) @ v @ bytes_of_string CRLF"

lemma buf_ReadBytes:
  assumes "d \<notin> set l"
  shows "bf_ReadBytes d [] \<lparr>bf_buf = l @ d # r, bf_conn = c, bf_udp = u\<rparr> = ((l @ [d], True), \<lparr>bf_buf = r, bf_conn = c, bf_udp = u\<rparr>)"
proof -
  have "takeWhile (\<lambda>x. x \<noteq> d) (l @ d # r) = l"
    using assms by (subst takeWhile_append2) auto
  then show ?thesis
    by (simp add: bf_ReadBytes.simps Let_def)
qed

lemma conn_ReadBytes:
  "length p \<le> 4096 \<Longrightarrow> bf_ReadBytes d full \<lparr>bf_buf = [], bf_conn = [p], bf_udp = u\<rparr> = bf_ReadBytes d full \<lparr>bf_buf = p, bf_conn = [], bf_udp = u\<rparr>"
  by (subst bf_ReadBytes.simps) (simp add: conn_Read_def)

lemma end_ReadBytes: "bf_ReadBytes d [] \<lparr>bf_buf = [], bf_conn = [], bf_udp = u\<rparr> = (([], False), \<lparr>bf_buf = [], bf_conn = [], bf_udp = u\<rparr>)"
  by (subst bf_ReadBytes.simps) (simp add: conn_Read_def)

lemma newline_notin:
  assumes "CHR 0x0A \<notin> set s"
  shows "0x0A \<notin> set (bytes_of_string s)"
proof
  assume "0x0A \<in> set (bytes_of_string s)"
  then have "char_of (unat (0x0A :: byte)) \<in> set (string_of_bytes (bytes_of_string s))"
    unfolding string_of_bytes_def set_map by (rule imageI)
  moreover have "char_of (unat (0x0A :: byte)) = CHR 0x0A"
    by code_simp
  ultimately show False
    using assms by simp
qed

lemma mc_loop_line:
  assumes "\<not> is_udp cn" "0x0A \<notin> set l"
  shows "mc_loop lib now cn s \<lparr>bf_buf = l @ 0x0A # r, bf_conn = [], bf_udp = u\<rparr> =
    (let command = strip_line (l @ [0x0A]); s1 = s\<lparr>mc_effects := mc_effects s @ [command_event now cn command]\<rparr> in
     case mc_command now cn (string_of_bytes command) \<lparr>bf_buf = r, bf_conn = [], bf_udp = u\<rparr> of
       Inl err \<Rightarrow> (s1, Some err)
     | Inr (effs, b) \<Rightarrow> mc_loop lib now cn (s1\<lparr>mc_effects := mc_effects s1 @ effs\<rparr>) b)"
  by (cases s, subst mc_loop.simps) (simp add: buf_ReadBytes [OF assms(2)] assms(1) Let_def split: sum.split prod.split)

lemma mc_loop_end: "mc_loop lib now cn s \<lparr>bf_buf = [], bf_conn = [], bf_udp = u\<rparr> = (s, None)"
  by (subst mc_loop.simps) (simp add: end_ReadBytes)

lemma mc_loop_chunk:
  "length p \<le> 4096 \<Longrightarrow> mc_loop lib now cn s \<lparr>bf_buf = [], bf_conn = [p], bf_udp = u\<rparr> = mc_loop lib now cn s \<lparr>bf_buf = p, bf_conn = [], bf_udp = u\<rparr>"
  by (subst (1 2) mc_loop.simps) (simp add: conn_ReadBytes)

lemma set_parts:
  assumes "mc_word key" "mc_word flags" "mc_word expire"
  shows "split_on (CHR '' '') (set_line key flags expire n) = [''set'', key, flags, expire, itoa n]"
proof -
  have "set_line key flags expire n = ''set'' @ CHR '' '' # key @ CHR '' '' # flags @ CHR '' '' # expire @ CHR '' '' # itoa n"
    by (simp add: set_line_def)
  moreover have "CHR '' '' \<notin> set (itoa n)"
    by (rule sep_notin_itoa) (simp add: digit_val_def)
  moreover have "CHR '' '' \<notin> set ''set''"
    by simp
  ultimately show ?thesis
    using assms by (simp only: split_on_sep split_on_no_sep mc_word_def not_False_eq_True)
qed

lemma mc_set:
  assumes "mc_word key" "mc_word flags" "mc_word expire" "n < 2 ^ 63" "r \<noteq> []"
  shows "mc_command now cn (set_line key flags expire n) \<lparr>bf_buf = r, bf_conn = [], bf_udp = u\<rparr> =
    Inr ([storage_event now cn [''set'', key, flags, expire, itoa n] (take 80 r), SvcWrite (bytes_of_string (''STORED'' @ CRLF))],
         \<lparr>bf_buf = (if n < length (take 80 r) then drop 80 r else drop (n - length (take 80 r)) (drop 80 r)), bf_conn = [], bf_udp = u\<rparr>)"
proof -
  have "bf_Discard k \<lparr>bf_buf = q, bf_conn = [], bf_udp = u\<rparr> = \<lparr>bf_buf = drop k q, bf_conn = [], bf_udp = u\<rparr>" for k q
    by (subst bf_Discard.simps) (simp add: conn_Read_def)
  then show ?thesis
    using assms(4,5)
    by (auto simp: mc_command_def set_parts [OF assms(1-3)] storage_commands_def mc_storage_def Atoi_itoa bf_Read_def Let_def nat_diff_distrib)
qed

lemma svc_written_events [simp]:
  "svc_written (command_event now cn c # effs) = svc_written effs"
  "svc_written (storage_event now cn parts buff # effs) = svc_written effs"
  by (simp_all add: command_event_def storage_event_def svc_event_def)

lemma mc_error:
  assumes "x \<in> {[], [CHR 0x0A]}"
  shows "mc_command now cn x b = Inr ([SvcWrite (bytes_of_string (''ERROR'' @ CRLF))], b)"
  using assms by (auto simp: mc_command_def storage_commands_def)

lemma mc_loop_blank:
  assumes "\<not> is_udp cn"
  shows "mc_loop lib now cn s \<lparr>bf_buf = [0x0A], bf_conn = [], bf_udp = u\<rparr> =
      (s\<lparr>mc_effects := mc_effects s @ [command_event now cn [0x0A], SvcWrite (bytes_of_string (''ERROR'' @ CRLF))]\<rparr>, None)"
    and "mc_loop lib now cn s \<lparr>bf_buf = [0x0D, 0x0A], bf_conn = [], bf_udp = u\<rparr> =
      (s\<lparr>mc_effects := mc_effects s @ [command_event now cn [], SvcWrite (bytes_of_string (''ERROR'' @ CRLF))]\<rparr>, None)"
proof -
  have "string_of_bytes [0x0A] = [CHR 0x0A]"
    by code_simp
  then show "mc_loop lib now cn s \<lparr>bf_buf = [0x0A], bf_conn = [], bf_udp = u\<rparr> =
      (s\<lparr>mc_effects := mc_effects s @ [command_event now cn [0x0A], SvcWrite (bytes_of_string (''ERROR'' @ CRLF))]\<rparr>, None)"
    using mc_loop_line [OF assms, of "[]" lib now s "[]" u] by (simp add: strip_line_def Let_def mc_error mc_loop_end)
  have "string_of_bytes [] = []"
    by code_simp
  then show "mc_loop lib now cn s \<lparr>bf_buf = [0x0D, 0x0A], bf_conn = [], bf_udp = u\<rparr> =
      (s\<lparr>mc_effects := mc_effects s @ [command_event now cn [], SvcWrite (bytes_of_string (''ERROR'' @ CRLF))]\<rparr>, None)"
    using mc_loop_line [OF assms, of "[0x0D]" lib now s "[]" u] by (simp add: strip_line_def Let_def mc_error mc_loop_end)
qed

text \<open>
  A value that a client stores with a \<^verbatim>\<open>set\<close> command is confirmed once. If it has 79 bytes or more, the line break behind it
  is not skipped: it is taken for a command of its own and answered with an error.
\<close>

theorem memcached_set_replies:
  assumes "mc_word key" and "mc_word flags" and "mc_word expire" and "length (set_request key flags expire v) \<le> 4096"
    and "sv_in cn = [set_request key flags expire v]" and "\<not> is_udp cn"
  shows "svc_written (mc_effects (fst (mc_Handle lib now m cn))) =
    bytes_of_string (''STORED'' @ CRLF @ (if 79 \<le> length v then ''ERROR'' @ CRLF else []))"
proof -
  let ?l = "set_line key flags expire (length v)"
  have crlf: "bytes_of_string CRLF = [0x0D, 0x0A]"
    by (simp add: bytes_of_string_def)
  have req: "set_request key flags expire v = (bytes_of_string ?l @ [0x0D]) @ 0x0A # v @ [0x0D, 0x0A]"
    by (simp add: set_request_def crlf) (simp add: bytes_of_string_def)
  have nl: "0x0A \<notin> set (bytes_of_string ?l @ [0x0D])"
  proof -
    have "CHR 0x0A \<notin> set (itoa (length v))"
      by (rule sep_notin_itoa) (simp add: digit_val_def)
    then have "CHR 0x0A \<notin> set ?l"
      using assms(1-3) by (simp add: set_line_def mc_word_def)
    then show ?thesis
      using newline_notin by simp
  qed
  have len: "length v < 2 ^ 63"
    using assms(4) by (simp add: set_request_def)
  have strip: "strip_line ((bytes_of_string ?l @ [0x0D]) @ [0x0A]) = bytes_of_string ?l"
    by (simp add: strip_line_def)
  have start: "mc_Handle lib now m cn = mc_loop lib now cn \<lparr>mc_limiter = m, mc_effects = []\<rparr>
      \<lparr>bf_buf = (bytes_of_string ?l @ [0x0D]) @ 0x0A # v @ [0x0D, 0x0A], bf_conn = [], bf_udp = False\<rparr>"
    using mc_loop_chunk [OF assms(4)] assms(5,6) by (simp add: mc_Handle_def svc_reader_def bf_New_def req)
  consider (short) "length v < 79" | (edge) "length v = 79" | (long) "80 \<le> length v"
    by linarith
  then show ?thesis
  proof cases
    case short
    then show ?thesis
      unfolding start mc_loop_line [OF assms(6) nl] strip
      by (simp add: Let_def mc_set [OF assms(1-3) len] mc_loop_end)
  next
    case edge
    then show ?thesis
      unfolding start mc_loop_line [OF assms(6) nl] strip
      by (simp add: Let_def mc_set [OF assms(1-3)] mc_loop_blank [OF assms(6)]) (simp add: bytes_of_string_def)
  next
    case long
    then show ?thesis
      unfolding start mc_loop_line [OF assms(6) nl] strip
      by (simp add: Let_def mc_set [OF assms(1-3) len] mc_loop_blank [OF assms(6)]) (simp add: bytes_of_string_def)
  qed
qed

definition mc_example_conn :: svc_conn where
  "mc_example_conn = \<lparr>sv_in = [set_request ''k'' ''0'' ''0'' (replicate 100 7)], sv_Raddr = TCPAddr [10, 0, 0, 1] 4000, sv_Laddr = TCPAddr [10, 0, 0, 2] 11211\<rparr>"

theorem memcached_set_replies_witness:
  "svc_written (mc_effects (fst (mc_Handle four_tokens 0 Map.empty mc_example_conn))) = bytes_of_string (''STORED'' @ CRLF @ ''ERROR'' @ CRLF)"
proof -
  have "length (itoa 100) = 3"
    by code_simp
  then have "length (set_request ''k'' ''0'' ''0'' (replicate 100 7)) \<le> 4096"
    by (simp add: set_request_def set_line_def bytes_of_string_def)
  from memcached_set_replies [OF _ _ _ this, of mc_example_conn four_tokens 0 Map.empty] show ?thesis
    by (simp add: mc_word_def mc_example_conn_def is_udp_def)
qed

end
