(* ===== verification/Web.thy ===== *)
theory Web
  imports Events
begin

text \<open>
  The web interface (\<^verbatim>\<open>web\<close>): the arrays it keeps, the goroutines that an event passes, the hub that hands messages to the
  websocket connections, and the goroutines of a connection, as a step relation. An unbuffered channel is
  a hand-over: it happens when both sides are ready. The websocket library is a parameter: a write succeeds, takes its time
  or fails, and a read fails at any time.
\<close>

section \<open>SafeArray\<close>

record 'a SafeArray =
  sa_array :: "'a list"
  sa_limit :: nat

definition NewLimitedSafeArray :: "nat \<Rightarrow> 'a SafeArray" where
  "NewLimitedSafeArray limit = \<lparr>sa_array = [], sa_limit = limit\<rparr>"

definition NewSafeArray :: "'a SafeArray" where
  "NewSafeArray = \<lparr>sa_array = [], sa_limit = 0\<rparr>"

definition sa_Append :: "'a SafeArray \<Rightarrow> 'a \<Rightarrow> 'a SafeArray" where
  "sa_Append sa v =
     (let arr = (if sa_limit sa = 0 then sa_array sa
                 else if sa_limit sa < length (sa_array sa) then drop 1 (sa_array sa) else sa_array sa)
      in sa\<lparr>sa_array := arr @ [v]\<rparr>)"

text \<open>\<^verbatim>\<open>Range\<close> with a function that may change the item and says whether to go on.\<close>

fun sa_Range :: "('a \<Rightarrow> 'a \<times> bool) \<Rightarrow> 'a list \<Rightarrow> 'a list" where
  "sa_Range fn [] = []"
| "sa_Range fn (v # vs) = (case fn v of (v', go_on) \<Rightarrow> if go_on then v' # sa_Range fn vs else v' # vs)"

section \<open>Hot countries\<close>

record HotCountry =
  ho_ISOCode :: string
  ho_Count :: int
  ho_Last :: int

definition count_country :: "string \<Rightarrow> int \<Rightarrow> HotCountry SafeArray \<Rightarrow> HotCountry SafeArray" where
  "count_country isoCode now hot =
     (let fn = (\<lambda>h. if ho_ISOCode h \<noteq> isoCode then (h, True) else (h\<lparr>ho_Last := now, ho_Count := ho_Count h + 1\<rparr>, False));
          found = (\<exists>h\<in>set (sa_array hot). ho_ISOCode h = isoCode) in
      if found then hot\<lparr>sa_array := sa_Range fn (sa_array hot)\<rparr>
      else sa_Append hot \<lparr>ho_ISOCode = isoCode, ho_Count = 1, ho_Last = now\<rparr>)"

section \<open>Stages of an event\<close>

definition web_filter :: "event \<Rightarrow> event option" where
  "web_filter evt = (if ev_Get evt ''category'' = ''heartbeat'' then None else Some evt)"

text \<open>The database of countries is a parameter; a failed look-up leaves the event as it is.\<close>

definition web_resolver :: "(string \<Rightarrow> string option) \<Rightarrow> event \<Rightarrow> event" where
  "web_resolver lookup evt =
     (let v = ev_Get evt ''source-ip'' in
      if v = [] then evt
      else case lookup v of None \<Rightarrow> evt | Some isoCode \<Rightarrow> ev_Store evt ''source.country.isocode'' (VString isoCode))"

section \<open>Connections and hub\<close>

datatype web_msg = Metadata | EventsData | HotCountries | EventData event

text \<open>What is in the channel of a connection: messages of its own start and messages of the hub.\<close>

datatype item = Initial web_msg | Broadcast web_msg

datatype pump = NoPump | Waiting | Writing item | Stopped

datatype stage = Registering | Starting "web_msg list" | Reading | Leaving | Gone

record connection =
  wc_send :: "item list"
  wc_open :: bool
  wc_pump :: pump
  wc_stage :: stage
  wc_written :: "item list"
  wc_since :: nat

datatype loop_state = LoopIdle | LoopEvent event | LoopHot

text \<open>
  \<open>wb_hub\<close> is the message the hub is handing out, with the connections that have not got it. \<open>wb_broadcast\<close> records all
  messages the hub has taken, and \<open>wc_since\<close> how many there were when a connection was registered.
\<close>

record web =
  wb_filter :: "event option"
  wb_resolver :: "event option"
  wb_loop :: loop_state
  wb_events :: "event SafeArray"
  wb_hotCountries :: "HotCountry SafeArray"
  wb_conns :: "connection list"
  wb_connections :: "nat list"
  wb_hub :: "(web_msg \<times> nat list) option"
  wb_broadcast :: "web_msg list"
  wb_panicked :: bool

definition web_New :: web where
  "web_New = \<lparr>wb_filter = None, wb_resolver = None, wb_loop = LoopIdle, wb_events = NewLimitedSafeArray 1000, wb_hotCountries = NewSafeArray,
     wb_conns = [], wb_connections = [], wb_hub = None, wb_broadcast = [], wb_panicked = False\<rparr>"

definition new_connection :: connection where
  "new_connection = \<lparr>wc_send = [], wc_open = True, wc_pump = NoPump, wc_stage = Registering, wc_written = [], wc_since = 0\<rparr>"

definition upd :: "nat \<Rightarrow> (connection \<Rightarrow> connection) \<Rightarrow> web \<Rightarrow> web" where
  "upd c f w = w\<lparr>wb_conns := (wb_conns w)[c := f (wb_conns w ! c)]\<rparr>"

text \<open>The loop over the connections is in any order.\<close>

definition broadcast :: "web_msg \<Rightarrow> nat list \<Rightarrow> web \<Rightarrow> web" where
  "broadcast m cs w = w\<lparr>wb_hub := Some (m, cs), wb_broadcast := wb_broadcast w @ [m]\<rparr>"

text \<open>\<^verbatim>\<open>web.Send\<close> with the hand-over to the first stage, and the hand-overs between the stages.\<close>

inductive event_step :: "(string \<Rightarrow> string option) \<Rightarrow> web \<Rightarrow> web \<Rightarrow> bool" for lookup where
  send: "wb_filter w = None \<Longrightarrow> event_step lookup w (w\<lparr>wb_filter := web_filter evt\<rparr>)"
| resolve: "wb_filter w = Some evt \<Longrightarrow> wb_resolver w = None \<Longrightarrow>
    event_step lookup w (w\<lparr>wb_filter := None, wb_resolver := Some (web_resolver lookup evt)\<rparr>)"
| collect: "wb_resolver w = Some evt \<Longrightarrow> wb_loop w = LoopIdle \<Longrightarrow>
    event_step lookup w (w\<lparr>wb_resolver := None, wb_loop := LoopEvent evt, wb_events := sa_Append (wb_events w) evt\<rparr>)"

text \<open>\<^verbatim>\<open>web.run\<close>, with the two sends of the event loop.\<close>

inductive hub_step :: "web \<Rightarrow> web \<Rightarrow> bool" where
  take_event: "wb_hub w = None \<Longrightarrow> wb_loop w = LoopEvent evt \<Longrightarrow> distinct cs \<Longrightarrow> set cs = set (wb_connections w) \<Longrightarrow>
    isoCode = ev_Get evt ''source.country.isocode'' \<Longrightarrow>
    hub_step w (broadcast (EventData evt) cs
      (if isoCode = [] then w\<lparr>wb_loop := LoopIdle\<rparr>
       else w\<lparr>wb_loop := LoopHot, wb_hotCountries := count_country isoCode now (wb_hotCountries w)\<rparr>))"
| take_hot: "wb_hub w = None \<Longrightarrow> wb_loop w = LoopHot \<Longrightarrow> distinct cs \<Longrightarrow> set cs = set (wb_connections w) \<Longrightarrow>
    hub_step w (broadcast HotCountries cs (w\<lparr>wb_loop := LoopIdle\<rparr>))"
| deliver: "wb_hub w = Some (m, c # cs) \<Longrightarrow> wc_open (wb_conns w ! c) \<Longrightarrow> length (wc_send (wb_conns w ! c)) < 100 \<Longrightarrow>
    hub_step w (upd c (\<lambda>x. x\<lparr>wc_send := wc_send x @ [Broadcast m]\<rparr>) (w\<lparr>wb_hub := Some (m, cs)\<rparr>))"
| deliver_closed: "wb_hub w = Some (m, c # cs) \<Longrightarrow> \<not> wc_open (wb_conns w ! c) \<Longrightarrow> hub_step w (w\<lparr>wb_panicked := True\<rparr>)"
| delivered: "wb_hub w = Some (m, []) \<Longrightarrow> hub_step w (w\<lparr>wb_hub := None\<rparr>)"
| register: "wb_hub w = None \<Longrightarrow> c < length (wb_conns w) \<Longrightarrow> wc_stage (wb_conns w ! c) = Registering \<Longrightarrow>
    hub_step w (upd c (\<lambda>x. x\<lparr>wc_stage := Starting [Metadata, EventsData, HotCountries], wc_since := length (wb_broadcast w)\<rparr>)
      (w\<lparr>wb_connections := wb_connections w @ [c]\<rparr>))"
| unregister: "wb_hub w = None \<Longrightarrow> c < length (wb_conns w) \<Longrightarrow> wc_stage (wb_conns w ! c) = Leaving \<Longrightarrow> c \<in> set (wb_connections w) \<Longrightarrow>
    hub_step w (upd c (\<lambda>x. x\<lparr>wc_stage := Gone, wc_open := False\<rparr>) (w\<lparr>wb_connections := remove1 c (wb_connections w)\<rparr>))"

text \<open>\<^verbatim>\<open>ServeWS\<close> and the two pumps of a connection.\<close>

inductive conn_step :: "connection \<Rightarrow> connection \<Rightarrow> bool" where
  start_send: "wc_stage x = Starting (m # ms) \<Longrightarrow> length (wc_send x) < 100 \<Longrightarrow>
    conn_step x (x\<lparr>wc_stage := Starting ms, wc_send := wc_send x @ [Initial m]\<rparr>)"
| start_pumps: "wc_stage x = Starting [] \<Longrightarrow> conn_step x (x\<lparr>wc_stage := Reading, wc_pump := Waiting\<rparr>)"
| pump_take: "wc_pump x = Waiting \<Longrightarrow> wc_send x = i # is \<Longrightarrow> conn_step x (x\<lparr>wc_pump := Writing i, wc_send := is\<rparr>)"
| pump_write: "wc_pump x = Writing i \<Longrightarrow> conn_step x (x\<lparr>wc_pump := Waiting, wc_written := wc_written x @ [i]\<rparr>)"
| pump_fail: "wc_pump x = Writing i \<Longrightarrow> conn_step x (x\<lparr>wc_pump := Stopped\<rparr>)"
| pump_ping_fail: "wc_pump x = Waiting \<Longrightarrow> conn_step x (x\<lparr>wc_pump := Stopped\<rparr>)"
| pump_closed: "wc_pump x = Waiting \<Longrightarrow> wc_send x = [] \<Longrightarrow> \<not> wc_open x \<Longrightarrow> conn_step x (x\<lparr>wc_pump := Stopped\<rparr>)"
| read_fail: "wc_stage x = Reading \<Longrightarrow> conn_step x (x\<lparr>wc_stage := Leaving\<rparr>)"

inductive web_step :: "(string \<Rightarrow> string option) \<Rightarrow> web \<Rightarrow> web \<Rightarrow> bool" for lookup where
  event: "\<not> wb_panicked w \<Longrightarrow> event_step lookup w w' \<Longrightarrow> web_step lookup w w'"
| hub: "\<not> wb_panicked w \<Longrightarrow> hub_step w w' \<Longrightarrow> web_step lookup w w'"
| upgrade: "\<not> wb_panicked w \<Longrightarrow> web_step lookup w (w\<lparr>wb_conns := wb_conns w @ [new_connection]\<rparr>)"
| connection: "\<not> wb_panicked w \<Longrightarrow> c < length (wb_conns w) \<Longrightarrow> conn_step (wb_conns w ! c) x \<Longrightarrow> web_step lookup w (w\<lparr>wb_conns := (wb_conns w)[c := x]\<rparr>)"

inductive web_run :: "(string \<Rightarrow> string option) \<Rightarrow> web \<Rightarrow> web \<Rightarrow> bool" for lookup where
  refl: "web_run lookup w w"
| step: "web_run lookup w w1 \<Longrightarrow> web_step lookup w1 w2 \<Longrightarrow> web_run lookup w w2"

section \<open>Messages reach their connections\<close>

text \<open>A limited array keeps one item more than its limit: it drops the oldest when it has more than the limit, and then appends.\<close>

lemma limited_array_length:
  assumes "0 < limit"
  shows "length (sa_array (foldl sa_Append (NewLimitedSafeArray limit) vs)) = min (length vs) (limit + 1) \<and>
    sa_limit (foldl sa_Append (NewLimitedSafeArray limit) vs) = limit"
  by (induction vs rule: rev_induct) (use assms in \<open>auto simp: NewLimitedSafeArray_def sa_Append_def Let_def\<close>)

fun broadcasts :: "item list \<Rightarrow> web_msg list" where
  "broadcasts [] = []"
| "broadcasts (Broadcast m # is) = m # broadcasts is"
| "broadcasts (Initial m # is) = broadcasts is"

fun initials :: "item list \<Rightarrow> web_msg list" where
  "initials [] = []"
| "initials (Broadcast m # is) = initials is"
| "initials (Initial m # is) = m # initials is"

definition wc_items :: "connection \<Rightarrow> item list" where
  "wc_items x = wc_written x @ (case wc_pump x of Writing i \<Rightarrow> [i] | _ \<Rightarrow> []) @ wc_send x"

definition wc_start :: "connection \<Rightarrow> web_msg list" where
  "wc_start x = initials (wc_items x) @ (case wc_stage x of Starting ms \<Rightarrow> ms | _ \<Rightarrow> [])"

definition registered_stage :: "stage \<Rightarrow> bool" where
  "registered_stage st \<longleftrightarrow> st \<noteq> Registering \<and> st \<noteq> Gone"

lemma items_append [simp]:
  "broadcasts (xs @ ys) = broadcasts xs @ broadcasts ys" "initials (xs @ ys) = initials xs @ initials ys"
  by (induction xs rule: broadcasts.induct; simp)+

definition pending :: "web \<Rightarrow> nat \<Rightarrow> web_msg list" where
  "pending w c = (case wb_hub w of None \<Rightarrow> [] | Some (m, cs) \<Rightarrow> if c \<in> set cs then [m] else [])"

text \<open>A connection that is registered: its channel is open, and while its pump works it has got all that was sent since.\<close>

definition conn_ok :: "web \<Rightarrow> nat \<Rightarrow> bool" where
  "conn_ok w c \<longleftrightarrow> (let x = wb_conns w ! c in
     registered_stage (wc_stage x) \<and> wc_open x \<and>
     (wc_pump x \<noteq> Stopped \<longrightarrow> broadcasts (wc_items x) @ pending w c = drop (wc_since x) (wb_broadcast w) \<and> wc_since x \<le> length (wb_broadcast w) \<and>
        wc_start x = [Metadata, EventsData, HotCountries]))"

definition fresh_conn :: "connection \<Rightarrow> bool" where
  "fresh_conn x \<longleftrightarrow> (wc_stage x = Registering \<longrightarrow> wc_send x = [] \<and> wc_written x = [] \<and> wc_pump x = NoPump \<and> wc_open x) \<and>
     (\<forall>ms. wc_stage x = Starting ms \<longrightarrow> wc_pump x = NoPump)"

definition web_inv :: "web \<Rightarrow> bool" where
  "web_inv w \<longleftrightarrow> \<not> wb_panicked w \<and> distinct (wb_connections w) \<and>
     (\<forall>c<length (wb_conns w). (c \<in> set (wb_connections w) \<longleftrightarrow> registered_stage (wc_stage (wb_conns w ! c))) \<and>
        length (wc_send (wb_conns w ! c)) \<le> 100 \<and> fresh_conn (wb_conns w ! c)) \<and>
     (\<forall>c\<in>set (wb_connections w). c < length (wb_conns w) \<and> conn_ok w c) \<and>
     (\<forall>m cs. wb_hub w = Some (m, cs) \<longrightarrow> distinct cs \<and> set cs \<subseteq> set (wb_connections w)) \<and>
     sa_limit (wb_events w) = 1000 \<and> length (sa_array (wb_events w)) \<le> 1001"

lemma conn_step_keeps:
  assumes "conn_step x y"
  shows "wc_since y = wc_since x" "wc_open y = wc_open x" "registered_stage (wc_stage y) \<longleftrightarrow> registered_stage (wc_stage x)"
    "length (wc_send x) \<le> 100 \<Longrightarrow> length (wc_send y) \<le> 100" "fresh_conn x \<Longrightarrow> fresh_conn y"
    "fresh_conn x \<Longrightarrow> wc_pump y \<noteq> Stopped \<Longrightarrow> wc_pump x \<noteq> Stopped \<and> broadcasts (wc_items y) = broadcasts (wc_items x) \<and> (registered_stage (wc_stage x) \<longrightarrow> wc_start y = wc_start x)"
  using assms
  by (induction rule: conn_step.induct)
    (auto simp: wc_items_def wc_start_def registered_stage_def fresh_conn_def split: pump.splits stage.splits)

lemma web_inv_New: "web_inv web_New"
  by (simp add: web_inv_def web_New_def NewLimitedSafeArray_def)

lemma conn_ok_cong:
  "wb_conns w' ! c = wb_conns w ! c \<Longrightarrow> wb_broadcast w' = wb_broadcast w \<Longrightarrow> pending w' c = pending w c \<Longrightarrow> conn_ok w' c = conn_ok w c"
  by (simp add: conn_ok_def)

lemma event_step_inv:
  assumes "event_step lookup w w'" and "web_inv w"
  shows "web_inv w'"
  using assms
proof (induction rule: event_step.induct)
  case (send w evt)
  then show ?case
    by (auto simp: web_inv_def conn_ok_def pending_def)
next
  case (resolve w evt)
  then show ?case
    by (auto simp: web_inv_def conn_ok_def pending_def)
next
  case (collect w evt)
  then show ?case
    by (auto simp: web_inv_def conn_ok_def pending_def sa_Append_def Let_def)
qed

lemma connection_inv:
  assumes "conn_step (wb_conns w ! c) x" and "c < length (wb_conns w)" and "web_inv w"
  shows "web_inv (w\<lparr>wb_conns := (wb_conns w)[c := x]\<rparr>)"
proof -
  note k = conn_step_keeps [OF assms(1)]
  have f: "fresh_conn (wb_conns w ! c)"
    using assms(2,3) by (simp add: web_inv_def)
  have "conn_ok (w\<lparr>wb_conns := (wb_conns w)[c := x]\<rparr>) c'" if "c' \<in> set (wb_connections w)" for c'
  proof -
    have ok: "conn_ok w c'"
      using assms(3) that by (simp add: web_inv_def)
    show ?thesis
    proof (cases "c' = c")
      case True
      then show ?thesis
        using ok k(1-3) k(6) [OF f] assms(2) by (auto simp: conn_ok_def Let_def pending_def)
    next
      case False
      then show ?thesis
        using ok by (simp add: conn_ok_def pending_def)
    qed
  qed
  then show ?thesis
    using assms(2,3) k(3-5) by (auto simp: web_inv_def nth_list_update)
qed

lemma broadcast_inv:
  assumes "web_inv w" "wb_hub w = None" "distinct cs" "set cs = set (wb_connections w)"
    and "wb_conns v = wb_conns w" "wb_connections v = wb_connections w" "wb_broadcast v = wb_broadcast w" "wb_panicked v = wb_panicked w" "wb_events v = wb_events w"
  shows "web_inv (broadcast m cs v)"
  using assms by (auto simp: web_inv_def broadcast_def conn_ok_def pending_def Let_def)

lemma deliver_inv:
  assumes "web_inv w" "wb_hub w = Some (m, c # cs)" "length (wc_send (wb_conns w ! c)) < 100"
  shows "web_inv (upd c (\<lambda>x. x\<lparr>wc_send := wc_send x @ [Broadcast m]\<rparr>) (w\<lparr>wb_hub := Some (m, cs)\<rparr>))"
proof -
  let ?w = "upd c (\<lambda>x. x\<lparr>wc_send := wc_send x @ [Broadcast m]\<rparr>) (w\<lparr>wb_hub := Some (m, cs)\<rparr>)"
  have c: "c \<in> set (wb_connections w)" "c < length (wb_conns w)" "c \<notin> set cs" "distinct cs" "set cs \<subseteq> set (wb_connections w)"
    using assms(1,2) by (auto simp: web_inv_def)
  have "conn_ok ?w c'" if "c' \<in> set (wb_connections w)" for c'
  proof -
    have ok: "conn_ok w c'"
      using assms(1) that by (simp add: web_inv_def)
    show ?thesis
    proof (cases "c' = c")
      case True
      then show ?thesis
        using ok c(2,3) assms(2)
        by (auto simp: conn_ok_def Let_def pending_def upd_def wc_items_def wc_start_def split: pump.splits)
    next
      case False
      then show ?thesis
        using ok assms(2) by (auto simp: conn_ok_def pending_def upd_def)
    qed
  qed
  then show ?thesis
    using assms(1,3) c by (auto simp: web_inv_def upd_def nth_list_update fresh_conn_def registered_stage_def)
qed

lemma register_inv:
  assumes "web_inv w" "wb_hub w = None" "c < length (wb_conns w)" "wc_stage (wb_conns w ! c) = Registering"
  shows "web_inv (upd c (\<lambda>x. x\<lparr>wc_stage := Starting [Metadata, EventsData, HotCountries], wc_since := length (wb_broadcast w)\<rparr>)
    (w\<lparr>wb_connections := wb_connections w @ [c]\<rparr>))" (is "web_inv ?w")
proof -
  have f: "fresh_conn (wb_conns w ! c)" "c \<notin> set (wb_connections w)"
    using assms by (auto simp: web_inv_def registered_stage_def)
  have "conn_ok ?w c'" if "c' \<in> set (wb_connections w @ [c])" for c'
  proof (cases "c' = c")
    case True
    then show ?thesis
      using f assms(2-4) by (auto simp: conn_ok_def Let_def pending_def upd_def wc_items_def wc_start_def fresh_conn_def registered_stage_def)
  next
    case False
    then have "conn_ok w c'"
      using assms(1) that by (simp add: web_inv_def)
    then show ?thesis
      using False assms(2) by (auto simp: conn_ok_def pending_def upd_def)
  qed
  then show ?thesis
    using assms f by (auto simp: web_inv_def upd_def nth_list_update fresh_conn_def registered_stage_def)
qed

lemma unregister_inv:
  assumes "web_inv w" "wb_hub w = None" "c < length (wb_conns w)" "wc_stage (wb_conns w ! c) = Leaving" "c \<in> set (wb_connections w)"
  shows "web_inv (upd c (\<lambda>x. x\<lparr>wc_stage := Gone, wc_open := False\<rparr>) (w\<lparr>wb_connections := remove1 c (wb_connections w)\<rparr>))" (is "web_inv ?w")
proof -
  have d: "distinct (wb_connections w)"
    using assms(1) by (simp add: web_inv_def)
  have "conn_ok ?w c'" if "c' \<in> set (remove1 c (wb_connections w))" for c'
  proof -
    have "c' \<noteq> c" "conn_ok w c'"
      using assms(1) that d by (auto simp: web_inv_def)
    then show ?thesis
      using assms(2) by (auto simp: conn_ok_def pending_def upd_def)
  qed
  then show ?thesis
    using assms d by (auto simp: web_inv_def upd_def nth_list_update fresh_conn_def registered_stage_def)
qed

lemma hub_step_inv:
  assumes "hub_step w w'" and "web_inv w"
  shows "web_inv w'"
  using assms
proof (induction rule: hub_step.induct)
  case (take_event w evt cs isoCode now)
  then show ?case
    by (intro broadcast_inv [of w]) simp_all
next
  case (take_hot w cs)
  then show ?case
    by (intro broadcast_inv [of w]) simp_all
next
  case (deliver w m c cs)
  then show ?case
    by (intro deliver_inv)
next
  case (deliver_closed w m c cs)
  then show ?case
    by (auto simp: web_inv_def conn_ok_def Let_def)
next
  case (delivered w m)
  then show ?case
    by (auto simp: web_inv_def conn_ok_def pending_def)
next
  case (register w c)
  then show ?case
    by (intro register_inv)
next
  case (unregister w c)
  then show ?case
    by (intro unregister_inv)
qed

lemma upgrade_inv: "web_inv w \<Longrightarrow> web_inv (w\<lparr>wb_conns := wb_conns w @ [new_connection]\<rparr>)"
  by (auto simp: web_inv_def nth_append less_Suc_eq conn_ok_def pending_def new_connection_def registered_stage_def fresh_conn_def)

lemma web_run_inv: "web_run lookup w0 w \<Longrightarrow> web_inv w0 \<Longrightarrow> web_inv w"
proof (induction rule: web_run.induct)
  case (step w0 w1 w2)
  then have "web_inv w1"
    by simp
  with step.hyps(2) show ?case
    by cases (auto intro: event_step_inv hub_step_inv upgrade_inv connection_inv)
qed

text \<open>
  C17: the web interface hands every message to every connection: in each state it can reach, a registered connection whose
  pump works has been sent its three messages of the start and, in order and once each, all messages that the hub has taken since
  it was registered, but for the one being handed out. The hub never sends on a closed channel, a channel holds at most 100
  messages and the array of events at most 1001.
\<close>

theorem web_fanout:
  assumes "web_run lookup web_New w"
  shows "\<not> wb_panicked w \<and> length (sa_array (wb_events w)) \<le> 1001 \<and>
    (\<forall>c\<in>set (wb_connections w). let x = wb_conns w ! c in wc_open x \<and> length (wc_send x) \<le> 100 \<and>
       (wc_pump x \<noteq> Stopped \<longrightarrow> wc_start x = [Metadata, EventsData, HotCountries] \<and>
          broadcasts (wc_items x) @ pending w c = drop (wc_since x) (wb_broadcast w)))"
  using web_run_inv [OF assms web_inv_New] by (auto simp: web_inv_def conn_ok_def Let_def)

section \<open>A client can stop the honeypot\<close>

lemma web_run_trans: "web_run lookup w1 w2 \<Longrightarrow> web_run lookup w0 w1 \<Longrightarrow> web_run lookup w0 w2"
  by (induction rule: web_run.induct) (auto intro: web_run.step)

definition hub_stuck :: "web \<Rightarrow> nat \<Rightarrow> bool" where
  "hub_stuck w c \<longleftrightarrow> (\<exists>m cs. wb_hub w = Some (m, c # cs)) \<and> c < length (wb_conns w) \<and>
     (let x = wb_conns w ! c in wc_pump x = Stopped \<and> length (wc_send x) = 100 \<and> wc_open x \<and> (wc_stage x = Reading \<or> wc_stage x = Leaving))"

definition web_blocked :: "web \<Rightarrow> nat \<Rightarrow> bool" where
  "web_blocked w c \<longleftrightarrow> hub_stuck w c \<and> wb_filter w \<noteq> None \<and> wb_resolver w \<noteq> None \<and> wb_loop w \<noteq> LoopIdle"

lemma conn_step_stopped:
  "conn_step x y \<Longrightarrow> wc_pump x = Stopped \<Longrightarrow> wc_stage x = Reading \<or> wc_stage x = Leaving \<Longrightarrow> y = x\<lparr>wc_stage := Leaving\<rparr>"
  by (induction rule: conn_step.induct) auto

lemma web_step_blocked:
  assumes "web_step lookup w w'" and "web_blocked w c"
  shows "web_blocked w' c"
  using assms
proof cases
  case event
  from event(2) show ?thesis
    by cases (use assms(2) in \<open>auto simp: web_blocked_def\<close>)
next
  case hub
  from hub(2) show ?thesis
    by cases (use assms(2) in \<open>auto simp: web_blocked_def hub_stuck_def Let_def\<close>)
next
  case upgrade
  then show ?thesis
    using assms(2) by (auto simp: web_blocked_def hub_stuck_def nth_append Let_def)
next
  case (connection c' x)
  then show ?thesis
    using assms(2) conn_step_stopped [of "wb_conns w ! c" x]
    by (cases "c' = c") (auto simp: web_blocked_def hub_stuck_def Let_def)
qed

lemma web_run_blocked: "web_run lookup w w' \<Longrightarrow> web_blocked w c \<Longrightarrow> web_blocked w' c"
  by (induction rule: web_run.induct) (auto intro: web_step_blocked)

text \<open>One connection, whose pump is busy writing, with a number of messages in its channel.\<close>

definition filling :: "nat \<Rightarrow> web \<Rightarrow> bool" where
  "filling n w \<longleftrightarrow> \<not> wb_panicked w \<and> wb_filter w = None \<and> wb_resolver w = None \<and> wb_loop w = LoopIdle \<and> wb_hub w = None \<and>
     wb_connections w = [0] \<and> (\<exists>x i. wb_conns w = [x] \<and> wc_pump x = Writing i \<and> wc_open x \<and> wc_stage x = Reading \<and> length (wc_send x) = n)"

lemma web_run_1: "web_step lookup w w' \<Longrightarrow> web_run lookup w w'"
  by (auto intro: web_run.intros)

lemma filter_empty: "web_filter Map.empty = Some Map.empty" "web_resolver lookup Map.empty = Map.empty" "ev_Get Map.empty k = []"
  by (simp_all add: web_filter_def web_resolver_def ev_Get_def)

text \<open>An event passes the stages as far as they are free.\<close>

lemma run_send: "\<not> wb_panicked w \<Longrightarrow> wb_filter w = None \<Longrightarrow> web_run lookup w (w\<lparr>wb_filter := Some Map.empty\<rparr>)"
  using event_step.send [of w lookup Map.empty] by (auto intro: web_run_1 web_step.event simp: filter_empty)

lemma run_resolve:
  assumes "\<not> wb_panicked w" "wb_filter w = None" "wb_resolver w = None"
  shows "web_run lookup w (w\<lparr>wb_resolver := Some Map.empty\<rparr>)"
proof -
  have "event_step lookup (w\<lparr>wb_filter := Some Map.empty\<rparr>) (w\<lparr>wb_filter := Some Map.empty, wb_filter := None, wb_resolver := Some (web_resolver lookup Map.empty)\<rparr>)"
    using event_step.resolve [of "w\<lparr>wb_filter := Some Map.empty\<rparr>" Map.empty lookup] assms(3) by simp
  moreover have "w\<lparr>wb_filter := Some Map.empty, wb_filter := None, wb_resolver := Some (web_resolver lookup Map.empty)\<rparr> = w\<lparr>wb_resolver := Some Map.empty\<rparr>"
    using assms(2) by (cases w) (simp add: filter_empty)
  ultimately have "event_step lookup (w\<lparr>wb_filter := Some Map.empty\<rparr>) (w\<lparr>wb_resolver := Some Map.empty\<rparr>)"
    by simp
  then show ?thesis
    using assms(1) by (intro web_run.step [OF run_send [OF assms(1,2)]] web_step.event) simp_all
qed

lemma run_collect:
  assumes "\<not> wb_panicked w" "wb_filter w = None" "wb_resolver w = None" "wb_loop w = LoopIdle"
  shows "\<exists>evs. web_run lookup w (w\<lparr>wb_loop := LoopEvent Map.empty, wb_events := evs\<rparr>)"
proof -
  let ?v = "w\<lparr>wb_resolver := Some Map.empty\<rparr>"
  have "event_step lookup ?v (?v\<lparr>wb_resolver := None, wb_loop := LoopEvent Map.empty, wb_events := sa_Append (wb_events ?v) Map.empty\<rparr>)"
    using event_step.collect [of ?v Map.empty lookup] assms(4) by simp
  moreover have "?v\<lparr>wb_resolver := None, wb_loop := LoopEvent Map.empty, wb_events := sa_Append (wb_events ?v) Map.empty\<rparr> =
      w\<lparr>wb_loop := LoopEvent Map.empty, wb_events := sa_Append (wb_events w) Map.empty\<rparr>"
    using assms(3) by (cases w) simp
  ultimately have "event_step lookup ?v (w\<lparr>wb_loop := LoopEvent Map.empty, wb_events := sa_Append (wb_events w) Map.empty\<rparr>)"
    by simp
  then show ?thesis
    using assms(1) by (intro exI web_run.step [OF run_resolve [OF assms(1-3)]] web_step.event) simp_all
qed

text \<open>The hub takes an event for the one connection.\<close>

lemma run_take:
  assumes "filling n w"
  shows "\<exists>v. web_run lookup w v \<and> wb_hub v = Some (EventData Map.empty, [0]) \<and> filling n (v\<lparr>wb_hub := None\<rparr>)"
proof -
  from assms obtain evs where r: "web_run lookup w (w\<lparr>wb_loop := LoopEvent Map.empty, wb_events := evs\<rparr>)"
    using run_collect [of w lookup] by (auto simp: filling_def)
  let ?v = "w\<lparr>wb_loop := LoopEvent Map.empty, wb_events := evs\<rparr>"
  have "hub_step ?v (broadcast (EventData Map.empty) [0] (?v\<lparr>wb_loop := LoopIdle\<rparr>))"
    using hub_step.take_event [of ?v Map.empty "[0]" "[]" 0] assms by (simp add: filling_def filter_empty)
  then have "web_run lookup w (broadcast (EventData Map.empty) [0] (?v\<lparr>wb_loop := LoopIdle\<rparr>))"
    using web_run.step [OF r, OF web_step.hub] assms by (simp add: filling_def)
  then show ?thesis
    using assms by (intro exI [of _ "broadcast (EventData Map.empty) [0] (?v\<lparr>wb_loop := LoopIdle\<rparr>)"]) (auto simp: broadcast_def filling_def)
qed

lemma run_fill:
  assumes "filling n w" "n < 100"
  shows "\<exists>v. web_run lookup w v \<and> filling (Suc n) v"
proof -
  obtain v where v: "web_run lookup w v" "wb_hub v = Some (EventData Map.empty, [0])" "filling n (v\<lparr>wb_hub := None\<rparr>)"
    using run_take [OF assms(1)] by blast
  then obtain x i where x: "wb_conns v = [x]" "wc_pump x = Writing i" "wc_open x" "wc_stage x = Reading" "length (wc_send x) = n"
    by (auto simp: filling_def)
  let ?u = "upd 0 (\<lambda>x. x\<lparr>wc_send := wc_send x @ [Broadcast (EventData Map.empty)]\<rparr>) (v\<lparr>wb_hub := Some (EventData Map.empty, [])\<rparr>)"
  have "hub_step v ?u"
    using hub_step.deliver [OF v(2)] x assms(2) by simp
  moreover have "hub_step ?u (?u\<lparr>wb_hub := None\<rparr>)"
    by (rule hub_step.delivered) (simp add: upd_def)
  moreover have "\<not> wb_panicked v"
    using v(3) by (simp add: filling_def)
  ultimately have "web_run lookup w (?u\<lparr>wb_hub := None\<rparr>)"
    using v(1) by (auto intro!: web_run.step [OF web_run.step [OF v(1)]] web_step.hub simp: upd_def)
  moreover have "filling (Suc n) (?u\<lparr>wb_hub := None\<rparr>)"
    using v(3) x by (auto simp: filling_def upd_def)
  ultimately show ?thesis by blast
qed

lemma run_full: "filling n w \<Longrightarrow> n \<le> 100 \<Longrightarrow> \<exists>v. web_run lookup w v \<and> filling 100 v"
proof (induction "100 - n" arbitrary: n w)
  case 0
  then show ?case
    using web_run.refl by auto
next
  case (Suc k)
  then have "n < 100" by simp
  then obtain v where v: "web_run lookup w v" "filling (Suc n) v"
    using run_fill [OF Suc.prems(1)] by blast
  have "k = 100 - Suc n" "Suc n \<le> 100"
    using Suc.hyps(2) \<open>n < 100\<close> by simp_all
  from Suc.hyps(1) [OF this(1) v(2) this(2)] obtain u where "web_run lookup v u" "filling 100 u"
    by blast
  with v(1) show ?case
    using web_run_trans by blast
qed

text \<open>A client connects, and does not read what it is sent.\<close>

definition started :: connection where
  "started = \<lparr>wc_send = [Initial EventsData, Initial HotCountries], wc_open = True, wc_pump = Writing (Initial Metadata), wc_stage = Reading,
     wc_written = [], wc_since = 0\<rparr>"

lemma run_connection:
  assumes "web_run lookup w0 w" "\<not> wb_panicked w" "wb_conns w = [x]" "conn_step x y"
  shows "web_run lookup w0 (w\<lparr>wb_conns := [y]\<rparr>)"
  using web_run.step [OF assms(1), OF web_step.connection [of w 0 y]] assms(2-4) by simp

lemma run_start: "web_run lookup web_New (web_New\<lparr>wb_connections := [0], wb_conns := [started]\<rparr>)"
proof -
  let ?x = "\<lambda>send pump st. \<lparr>wc_send = send, wc_open = True, wc_pump = pump, wc_stage = st, wc_written = [], wc_since = 0\<rparr>"
  let ?w = "\<lambda>x. web_New\<lparr>wb_connections := [0], wb_conns := [x]\<rparr>"
  have p: "\<not> wb_panicked (?w x)" "wb_conns (?w x) = [x]" "?w x\<lparr>wb_conns := [y]\<rparr> = ?w y" for x y
    by (simp_all add: web_New_def)
  have a: "web_run lookup web_New (web_New\<lparr>wb_conns := [new_connection]\<rparr>)"
    using web_run_1 [OF web_step.upgrade [of web_New lookup]] by (simp add: web_New_def)
  have h: "hub_step (web_New\<lparr>wb_conns := [new_connection]\<rparr>) (?w (?x [] NoPump (Starting [Metadata, EventsData, HotCountries])))"
    using hub_step.register [of "web_New\<lparr>wb_conns := [new_connection]\<rparr>" 0] by (simp add: web_New_def new_connection_def upd_def)
  have r0: "web_run lookup web_New (?w (?x [] NoPump (Starting [Metadata, EventsData, HotCountries])))"
    by (rule web_run.step [OF a web_step.hub [OF _ h]]) (simp add: web_New_def)
  note r = run_connection [OF _ p(1,2), unfolded p(3)]
  have c1: "conn_step (?x [] NoPump (Starting [Metadata, EventsData, HotCountries])) (?x [Initial Metadata] NoPump (Starting [EventsData, HotCountries]))"
    using conn_step.start_send [of "?x [] NoPump (Starting [Metadata, EventsData, HotCountries])"] by simp
  have c2: "conn_step (?x [Initial Metadata] NoPump (Starting [EventsData, HotCountries])) (?x [Initial Metadata, Initial EventsData] NoPump (Starting [HotCountries]))"
    using conn_step.start_send [of "?x [Initial Metadata] NoPump (Starting [EventsData, HotCountries])"] by simp
  have c3: "conn_step (?x [Initial Metadata, Initial EventsData] NoPump (Starting [HotCountries]))
      (?x [Initial Metadata, Initial EventsData, Initial HotCountries] NoPump (Starting []))"
    using conn_step.start_send [of "?x [Initial Metadata, Initial EventsData] NoPump (Starting [HotCountries])"] by simp
  have c4: "conn_step (?x [Initial Metadata, Initial EventsData, Initial HotCountries] NoPump (Starting []))
      (?x [Initial Metadata, Initial EventsData, Initial HotCountries] Waiting Reading)"
    using conn_step.start_pumps [of "?x [Initial Metadata, Initial EventsData, Initial HotCountries] NoPump (Starting [])"] by simp
  have c5: "conn_step (?x [Initial Metadata, Initial EventsData, Initial HotCountries] Waiting Reading) started"
    using conn_step.pump_take [of "?x [Initial Metadata, Initial EventsData, Initial HotCountries] Waiting Reading"] by (simp add: started_def)
  show ?thesis
    by (rule r [OF r [OF r [OF r [OF r [OF r0 c1] c2] c3] c4] c5])
qed

text \<open>
  C38: a client that does not read can stop the web interface for good, and with it the event bus that waits for it. The pump of
  the client is busy with a write, the client's channel fills, the hub waits for space in it, and the write fails: then the hub, which
  alone could remove the client, waits forever. From then on no event is taken.
\<close>

theorem web_hub_deadlock:
  "\<exists>w. web_run lookup web_New w \<and> {w'. web_run lookup w w'} \<subseteq> {w'. wb_filter w' \<noteq> None \<and> wb_hub w' \<noteq> None}"
proof -
  have "filling 2 (web_New\<lparr>wb_connections := [0], wb_conns := [started]\<rparr>)"
    by (simp add: filling_def web_New_def started_def)
  then obtain w where w0: "web_run lookup (web_New\<lparr>wb_connections := [0], wb_conns := [started]\<rparr>) w" "filling 100 w"
    using run_full [of 2 _ lookup] by auto
  have w: "web_run lookup web_New w"
    by (rule web_run_trans [OF w0(1) run_start])
  obtain v where v0: "web_run lookup w v" "wb_hub v = Some (EventData Map.empty, [0])" "filling 100 (v\<lparr>wb_hub := None\<rparr>)"
    using run_take [OF w0(2)] by blast
  note v = web_run_trans [OF v0(1) w] v0(2,3)
  from v(3) obtain x i where x: "wb_conns v = [x]" "wc_pump x = Writing i" "wc_open x" "wc_stage x = Reading" "length (wc_send x) = 100"
    by (auto simp: filling_def)
  let ?v1 = "v\<lparr>wb_conns := [x\<lparr>wc_pump := Stopped\<rparr>]\<rparr>"
  have f: "\<not> wb_panicked v" "wb_filter v = None" "wb_resolver v = None" "wb_loop v = LoopIdle"
    using v(3) by (auto simp: filling_def)
  have 1: "web_run lookup web_New ?v1"
    by (rule run_connection [OF v(1) f(1) x(1) conn_step.pump_fail [OF x(2)]])
  obtain evs where 2: "web_run lookup ?v1 (?v1\<lparr>wb_loop := LoopEvent Map.empty, wb_events := evs\<rparr>)"
    using run_collect [of ?v1 lookup] f by auto
  let ?v2 = "?v1\<lparr>wb_loop := LoopEvent Map.empty, wb_events := evs\<rparr>"
  have 3: "web_run lookup ?v2 (?v2\<lparr>wb_resolver := Some Map.empty\<rparr>)"
    by (rule run_resolve) (use f in simp_all)
  let ?v3 = "?v2\<lparr>wb_resolver := Some Map.empty\<rparr>"
  have 4: "web_run lookup ?v3 (?v3\<lparr>wb_filter := Some Map.empty\<rparr>)"
    by (rule run_send) (use f in simp_all)
  have "web_blocked (?v3\<lparr>wb_filter := Some Map.empty\<rparr>) 0"
    using x v(2) by (simp add: web_blocked_def hub_stuck_def)
  then have "{w'. web_run lookup (?v3\<lparr>wb_filter := Some Map.empty\<rparr>) w'} \<subseteq> {w'. wb_filter w' \<noteq> None \<and> wb_hub w' \<noteq> None}"
    using web_run_blocked by (fastforce simp: web_blocked_def hub_stuck_def)
  moreover have "web_run lookup web_New (?v3\<lparr>wb_filter := Some Map.empty\<rparr>)"
    by (rule web_run_trans [OF 4 web_run_trans [OF 3 web_run_trans [OF 2 1]]])
  ultimately show ?thesis by blast
qed

theorem web_fanout_witness:
  "wc_open started \<and> wc_start started = [Metadata, EventsData, HotCountries] \<and> broadcasts (wc_items started) = []"
  using web_fanout [OF run_start [of "\<lambda>_. None"]] by (simp add: started_def web_New_def pending_def Let_def)

end
