(* ===== verification/Pushers.thy ===== *)
theory Pushers
  imports Events "HOL-Library.Sublist"
begin

text \<open>
  Channels that carry events out of the honeypot (\<^verbatim>\<open>pushers\<close>): the batches for Splunk, Elasticsearch and Marija, the Kafka
  producer and the log file. A channel has a buffered queue, to which \<^verbatim>\<open>Send\<close> adds, and a goroutine that empties it.
  Whether a server takes a batch is a parameter of a step.
\<close>

section \<open>Batches\<close>

record pusher =
  pu_ch :: "event list"
  pu_batch :: "event list"
  pu_done :: "event list"
  pu_sent :: "event list"

definition pusher_New :: pusher where
  "pusher_New = \<lparr>pu_ch = [], pu_batch = [], pu_done = [], pu_sent = []\<rparr>"


text \<open>
  The goroutine adds what it takes to its batch, and writes the batch when it has ten documents or when nothing came for a
  while.
\<close>

inductive batch_step :: "(pusher \<Rightarrow> event \<Rightarrow> pusher option) \<Rightarrow> (bool \<Rightarrow> pusher \<Rightarrow> pusher) \<Rightarrow> pusher \<Rightarrow> pusher \<Rightarrow> bool"
  for Send flush where
  send: "Send p m = Some p' \<Longrightarrow> batch_step Send flush p p'"
| collect: "pu_ch p = m # ms \<Longrightarrow> length (pu_batch p @ [m]) < 10 \<Longrightarrow>
    batch_step Send flush p (p\<lparr>pu_ch := ms, pu_batch := pu_batch p @ [m]\<rparr>)"
| collect_full: "pu_ch p = m # ms \<Longrightarrow> 10 \<le> length (pu_batch p @ [m]) \<Longrightarrow>
    batch_step Send flush p (flush ok (p\<lparr>pu_ch := ms, pu_batch := pu_batch p @ [m]\<rparr>))"
| timeout: "batch_step Send flush p (flush ok p)"



text \<open>Marija reports three fields, drops what finds the queue full, and drops a batch that was not taken.\<close>

definition marija_filter :: "string \<Rightarrow> bool" where
  "marija_filter key = (\<not> List.member [''source-ip'', ''destination-ip'', ''destination-port''] key)"

definition marija_Send :: "pusher \<Rightarrow> event \<Rightarrow> pusher option" where
  "marija_Send p m =
     (let mp = (\<lambda>k. if marija_filter k then None else m k) in
      if length (pu_ch p) < 100 then Some (p\<lparr>pu_ch := pu_ch p @ [mp], pu_sent := pu_sent p @ [mp]\<rparr>) else Some p)"

definition marija_flush :: "bool \<Rightarrow> pusher \<Rightarrow> pusher" where
  "marija_flush ok p = p\<lparr>pu_done := (if ok then pu_done p @ pu_batch p else pu_done p), pu_batch := []\<rparr>"

inductive batch_run :: "(pusher \<Rightarrow> event \<Rightarrow> pusher option) \<Rightarrow> (bool \<Rightarrow> pusher \<Rightarrow> pusher) \<Rightarrow> pusher \<Rightarrow> bool" for Send flush where
  New: "batch_run Send flush pusher_New"
| step: "batch_run Send flush p \<Longrightarrow> batch_step Send flush p p' \<Longrightarrow> batch_run Send flush p'"

section \<open>Kafka\<close>

text \<open>
  The goroutine receives one document and ranges over it, which yields its keys in any order. It hands each key to the producer and
  then ends. \<^verbatim>\<open>kf_docs\<close> is what it still has to hand over, \<^const>\<open>None\<close> before it has received the document.
\<close>

record kafka =
  kf_ch :: "event list"
  kf_docs :: "string list option"
  kf_input :: "string list"
  kf_sent :: "event list"

definition kafka_New :: kafka where
  "kafka_New = \<lparr>kf_ch = [], kf_docs = None, kf_input = [], kf_sent = []\<rparr>"

inductive kafka_step :: "kafka \<Rightarrow> kafka \<Rightarrow> bool" where
  send: "length (kf_ch k) < 100 \<Longrightarrow> kafka_step k (k\<lparr>kf_ch := kf_ch k @ [m], kf_sent := kf_sent k @ [m]\<rparr>)"
| receive: "kf_docs k = None \<Longrightarrow> kf_ch k = m # ms \<Longrightarrow> distinct docs \<Longrightarrow> set docs = dom m \<Longrightarrow>
    kafka_step k (k\<lparr>kf_ch := ms, kf_docs := Some docs\<rparr>)"
| doc: "kf_docs k = Some (d # docs) \<Longrightarrow> kafka_step k (k\<lparr>kf_docs := Some docs, kf_input := kf_input k @ [d]\<rparr>)"

inductive kafka_run :: "kafka \<Rightarrow> bool" where
  New: "kafka_run kafka_New"
| step: "kafka_run k \<Longrightarrow> kafka_step k k' \<Longrightarrow> kafka_run k'"

section \<open>Log file\<close>

text \<open>
  The file to write to: an existing one is renamed when it has grown beyond the limit. The system's answers are parameters, the result
  is the new name of the old file.
\<close>

datatype file_stat = StatError | IsDir | IsFile int string

record file_os =
  os_stat :: file_stat
  os_rename :: "string option"
  os_open :: "string option"

definition openFile :: "file_os \<Rightarrow> string option \<Rightarrow> string option result" where
  "openFile os renamed = (case os_open os of Some e \<Rightarrow> Inl (Error e) | None \<Rightarrow> Inr renamed)"

definition newFile :: "string \<Rightarrow> int \<Rightarrow> file_os \<Rightarrow> string option result" where
  "newFile targetPath maxSize os = (case os_stat os of
     StatError \<Rightarrow> openFile os None
   | IsDir \<Rightarrow> Inl (Error ''Only direct file paths allowed'')
   | IsFile size' modTime \<Rightarrow>
       if size' \<le> maxSize then openFile os None
       else (case os_rename os of
           Some e \<Rightarrow> Inl (Error e)
         | None \<Rightarrow> openFile os (Some (targetPath @ ''-'' @ modTime))))"

text \<open>
  \<^verbatim>\<open>syncLoop\<close> with times in milliseconds. It collects the documents in a buffer; it writes the buffer to the file when
  half a megabyte is reached or when no document came for a second; and it closes the file when its timer ends, which was started with
  the loop. \<^verbatim>\<open>fb_file\<close> is all that was written, \<^verbatim>\<open>fb_renamed\<close> the names of old files. Arrivals of
  documents do not fall together with the end of the timer.
\<close>

record file_loop =
  fl_deadline :: int
  fl_last :: int
  fl_buf :: string

record FileBackend =
  fb_File :: string
  fb_MaxSize :: int
  fb_timeout :: int
  fb_file :: string
  fb_renamed :: "string list"
  fb_loop :: "file_loop option"

definition file_New :: "string \<Rightarrow> int \<Rightarrow> int \<Rightarrow> FileBackend" where
  "file_New path maxSize timeout =
     \<lparr>fb_File = path, fb_MaxSize = maxSize, fb_timeout = timeout, fb_file = [], fb_renamed = [], fb_loop = None\<rparr>"

text \<open>A second without a document, if it ends before the given time and before the timer.\<close>

definition loop_idle :: "int \<Rightarrow> FileBackend \<Rightarrow> FileBackend" where
  "loop_idle t f = (case fb_loop f of
     None \<Rightarrow> f
   | Some l \<Rightarrow>
       if fl_last l + 1000 < t \<and> fl_last l + 1000 < fl_deadline l
       then f\<lparr>fb_file := fb_file f @ fl_buf l, fb_loop := Some (l\<lparr>fl_buf := []\<rparr>)\<rparr> else f)"

definition loop_timer :: "int \<Rightarrow> FileBackend \<Rightarrow> FileBackend" where
  "loop_timer t f = (case fb_loop f of
     None \<Rightarrow> f
   | Some l \<Rightarrow> if fl_deadline l < t then f\<lparr>fb_loop := None\<rparr> else f)"

definition loop_request :: "(event \<Rightarrow> string option) \<Rightarrow> int \<Rightarrow> event \<Rightarrow> FileBackend \<Rightarrow> FileBackend" where
  "loop_request encode t m f = (case fb_loop f of
     None \<Rightarrow> f
   | Some l \<Rightarrow> (case encode m of
         None \<Rightarrow> f\<lparr>fb_loop := Some (l\<lparr>fl_last := t\<rparr>)\<rparr>
       | Some s \<Rightarrow>
           let buf = fl_buf l @ s in
           if length buf < 500 * 1024 then f\<lparr>fb_loop := Some (l\<lparr>fl_last := t, fl_buf := buf\<rparr>)\<rparr>
           else f\<lparr>fb_file := fb_file f @ buf, fb_loop := Some (l\<lparr>fl_last := t, fl_buf := []\<rparr>)\<rparr>))"

definition syncWrites :: "int \<Rightarrow> file_os \<Rightarrow> FileBackend \<Rightarrow> FileBackend result" where
  "syncWrites t os f = (case fb_loop f of
     Some l \<Rightarrow> Inr f
   | None \<Rightarrow> bindR (newFile (fb_File f) (fb_MaxSize f) os) (\<lambda>renamed.
       Inr (f\<lparr>fb_renamed := fb_renamed f @ (case renamed of None \<Rightarrow> [] | Some r \<Rightarrow> [r]),
              fb_loop := Some \<lparr>fl_deadline = t + fb_timeout f, fl_last = t, fl_buf = []\<rparr>\<rparr>)))"

definition file_Send :: "(event \<Rightarrow> string option) \<Rightarrow> FileBackend \<Rightarrow> int \<times> file_os \<times> event \<Rightarrow> FileBackend" where
  "file_Send encode f a = (case a of (t, os, m) \<Rightarrow>
     let f1 = loop_timer t (loop_idle t f) in
     (case syncWrites t os f1 of
        Inl e \<Rightarrow> f1
      | Inr f2 \<Rightarrow> loop_request encode t m f2))"

section \<open>Batches lose nothing\<close>






text \<open>Marija only ever gets the addresses and the port of events, and never an event twice or out of order.\<close>

definition marija_ok :: "pusher \<Rightarrow> bool" where
  "marija_ok p = (subseq (pu_done p @ pu_batch p @ pu_ch p) (pu_sent p) \<and>
     (\<forall>m \<in> set (pu_sent p). dom m \<subseteq> {''source-ip'', ''destination-ip'', ''destination-port''}))"

lemma marija_flush_ok: "marija_ok p \<Longrightarrow> marija_ok (marija_flush ok p)"
  by (auto simp: marija_ok_def marija_flush_def elim!: subseq_order.trans [rotated] intro: list_emb_append_mono)

lemma marija_Send_ok:
  assumes "marija_Send p m = Some p'" and "marija_ok p"
  shows "marija_ok p'"
proof -
  define mp where "mp = (\<lambda>k. if marija_filter k then None else m k)"
  have dom: "dom mp \<subseteq> {''source-ip'', ''destination-ip'', ''destination-port''}"
    by (auto simp: mp_def marija_filter_def split: if_splits)
  have sub: "subseq ((pu_done p @ pu_batch p @ pu_ch p) @ [mp]) (pu_sent p @ [mp])"
    using assms(2) by (intro list_emb_append_mono) (simp_all add: marija_ok_def)
  have p': "p' = (if length (pu_ch p) < 100 then p\<lparr>pu_ch := pu_ch p @ [mp], pu_sent := pu_sent p @ [mp]\<rparr> else p)"
    using assms(1) by (simp add: marija_Send_def Let_def mp_def split: if_splits)
  show ?thesis
    using dom sub assms(2) unfolding p' by (simp add: marija_ok_def)
qed

theorem marija_reports: "batch_run marija_Send marija_flush p \<Longrightarrow> marija_ok p"
proof (induction rule: batch_run.induct)
  case (step p p')
  from step.hyps(2) step.IH show ?case
  proof (induction rule: batch_step.induct)
    case (collect_full p m ms ok)
    then have "marija_ok (p\<lparr>pu_ch := ms, pu_batch := pu_batch p @ [m]\<rparr>)"
      by (simp add: marija_ok_def)
    then show ?case
      by (rule marija_flush_ok)
  next
    case (collect p m ms)
    then show ?case
      by (simp add: marija_ok_def)
  qed (blast intro: marija_flush_ok marija_Send_ok)+
qed (simp add: marija_ok_def pusher_New_def)

section \<open>Kafka stops\<close>

definition kafka_ok :: "kafka \<Rightarrow> bool" where
  "kafka_ok k = (length (kf_ch k) \<le> 100 \<and> (case kf_docs k of
     None \<Rightarrow> kf_sent k = kf_ch k \<and> kf_input k = []
   | Some docs \<Rightarrow> (\<exists>m. kf_sent k = m # kf_ch k \<and> distinct (kf_input k @ docs) \<and> set (kf_input k @ docs) = dom m)))"

lemma kafka_step_ok: "kafka_step k k' \<Longrightarrow> kafka_ok k \<Longrightarrow> kafka_ok k'"
  by (induction rule: kafka_step.induct) (auto simp: kafka_ok_def split: option.splits)

lemma kafka_run_ok: "kafka_run k \<Longrightarrow> kafka_ok k"
  by (induction rule: kafka_run.induct) (simp add: kafka_New_def kafka_ok_def, rule kafka_step_ok)

text \<open>
  C40: the Kafka channel never sends an event: what it hands to the producer are names of fields of the first event, each
  once. It accepts at most 101 events, and then waits forever.
\<close>

theorem kafka_sends_keys:
  assumes "kafka_run k"
  shows "length (kf_sent k) \<le> 101 \<and> distinct (kf_input k) \<and> (if kf_input k = [] then True else set (kf_input k) \<subseteq> dom (hd (kf_sent k)))"
proof (cases "kf_docs k")
  case None
  then show ?thesis
    using kafka_run_ok [OF assms] by (simp add: kafka_ok_def)
next
  case (Some docs)
  then obtain m where "length (kf_ch k) \<le> 100" "kf_sent k = m # kf_ch k" "distinct (kf_input k)" "set (kf_input k) \<subseteq> dom m"
    using kafka_run_ok [OF assms] unfolding kafka_ok_def by (simp, blast)
  then show ?thesis
    by simp
qed

theorem kafka_sends_keys_witness:
  "\<exists>k. kafka_run k \<and> kf_sent k = [[''category'' \<mapsto> VString ''ssh'']] \<and> kf_input k = [''category''] \<and> length (kf_sent k) \<le> 101 \<and>
     set (kf_input k) \<subseteq> dom (hd (kf_sent k))"
proof -
  let ?m = "[''category'' \<mapsto> VString ''ssh'']"
  let ?k = "\<lparr>kf_ch = [?m], kf_docs = None, kf_input = [], kf_sent = [?m]\<rparr>"
  let ?l = "\<lparr>kf_ch = [], kf_docs = Some [''category''], kf_input = [], kf_sent = [?m]\<rparr>"
  let ?n = "\<lparr>kf_ch = [], kf_docs = Some [], kf_input = [''category''], kf_sent = [?m]\<rparr>"
  have "kafka_step kafka_New ?k"
    using kafka_step.send [of kafka_New ?m] by (simp add: kafka_New_def)
  moreover have "kafka_step ?k ?l"
    using kafka_step.receive [of ?k ?m "[]" "[''category'']"] by simp
  moreover have "kafka_step ?l ?n"
    using kafka_step.doc [of ?l "''category''" "[]"] by simp
  ultimately have "kafka_run ?n"
    using kafka_run.intros by blast
  then show ?thesis
    using kafka_sends_keys [of ?n] by (intro exI [of _ ?n]) simp
qed

section \<open>The log file loses events\<close>

text \<open>Arrivals with less than a second between one and the next, and the number of bytes of their documents.\<close>

fun steady :: "int \<Rightarrow> (int \<times> file_os \<times> event) list \<Rightarrow> bool" where
  "steady t0 [] = True"
| "steady t0 ((t, os, m) # as) = (t0 \<le> t \<and> t < t0 + 1000 \<and> steady t as)"

definition doc_bytes :: "(event \<Rightarrow> string option) \<Rightarrow> event \<Rightarrow> nat" where
  "doc_bytes encode m = (case encode m of None \<Rightarrow> 0 | Some s \<Rightarrow> length s)"

definition docs_bytes :: "(event \<Rightarrow> string option) \<Rightarrow> (int \<times> file_os \<times> event) list \<Rightarrow> nat" where
  "docs_bytes encode as = sum_list (map (\<lambda>(t, os, m). doc_bytes encode m) as)"

text \<open>What the buffer holds, and that the loop was active at the given time.\<close>

definition recent :: "int \<Rightarrow> nat \<Rightarrow> FileBackend \<Rightarrow> bool" where
  "recent t n f = (case fb_loop f of None \<Rightarrow> True | Some l \<Rightarrow> fl_last l = t \<and> length (fl_buf l) \<le> n)"

lemma file_Send_steady:
  assumes "recent t0 n f" "t < t0 + 1000" "n + doc_bytes encode m < 500 * 1024"
  shows "fb_file (file_Send encode f (t, os, m)) = fb_file f \<and> recent t (n + doc_bytes encode m) (file_Send encode f (t, os, m))"
proof -
  have idle: "loop_idle t f = f"
    using assms(1,2) by (auto simp: loop_idle_def recent_def split: option.splits)
  have timer: "recent t0 n (loop_timer t f) \<and> fb_file (loop_timer t f) = fb_file f"
    using assms(1) by (auto simp: loop_timer_def recent_def split: option.splits)
  then have sync: "fb_file f2 = fb_file f \<and> (\<exists>l. fb_loop f2 = Some l \<and> length (fl_buf l) \<le> n)"
    if "syncWrites t os (loop_timer t f) = Inr f2" for f2
    using that by (auto simp: syncWrites_def recent_def bindR_Inr_iff split: option.splits)
  have failed: "fb_loop (loop_timer t f) = None" if "syncWrites t os (loop_timer t f) = Inl e" for e
    using that by (auto simp: syncWrites_def split: option.splits)
  show ?thesis
    using timer sync failed assms(3)
    by (cases "syncWrites t os (loop_timer t f)")
      (fastforce simp: file_Send_def idle recent_def loop_request_def doc_bytes_def Let_def split: option.splits)+
qed

lemma file_steady_lost:
  "recent t0 n f \<Longrightarrow> steady t0 as \<Longrightarrow> n + docs_bytes encode as < 500 * 1024 \<Longrightarrow> fb_file (foldl (file_Send encode) f as) = fb_file f"
proof (induction as arbitrary: f t0 n)
  case (Cons a as)
  obtain t os m where a: "a = (t, os, m)" by (cases a)
  have "fb_file (file_Send encode f (t, os, m)) = fb_file f \<and> recent t (n + doc_bytes encode m) (file_Send encode f (t, os, m))"
    by (rule file_Send_steady [OF Cons.prems(1)]) (use Cons.prems a in \<open>auto simp: docs_bytes_def\<close>)
  then show ?case
    using Cons.IH [of t "n + doc_bytes encode m" "file_Send encode f a"] Cons.prems a by (simp add: docs_bytes_def)
qed simp

text \<open>
  C39: as long as events come with less than a second between one and the next, and have less than half a megabyte together, none of them
  reaches the log file, whatever its timeout: a loop whose timer ends drops what it has collected.
\<close>

theorem file_steady_events_lost:
  assumes "steady t as" and "docs_bytes encode as < 500 * 1024"
  shows "fb_file (foldl (file_Send encode) (file_New path maxSize timeout) as) = []"
  using file_steady_lost [of t 0 "file_New path maxSize timeout" as encode] assms by (simp add: recent_def file_New_def)

theorem file_steady_events_lost_witness:
  "let os = \<lparr>os_stat = StatError, os_rename = None, os_open = None\<rparr> in
   fb_file (foldl (file_Send (\<lambda>m. Some ''{}'')) (file_New ''/log'' 1000 5000)
     [(0, os, Map.empty), (900, os, Map.empty), (1800, os, Map.empty), (2700, os, Map.empty), (3600, os, Map.empty),
      (4500, os, Map.empty), (5400, os, Map.empty)]) = []"
  unfolding Let_def
  by (rule file_steady_events_lost [of 0]) (simp_all add: docs_bytes_def doc_bytes_def)

end
