(* ===== verification/Directors.thy ===== *)
theory Directors
  imports Events Go_Text
begin

text \<open>
  Directors choose the machine behind a proxied service: \<^verbatim>\<open>director/forward\<close> a configured host,
  \<^verbatim>\<open>director/lxc\<close> a container of its own for every attacker. The container library answers through a record
  of outcomes, and the director is a step relation over dials, traffic, time and the housekeeper goroutines.
\<close>

unbundle bit_operations_syntax

section \<open>Addresses\<close>

text \<open>\<^verbatim>\<open>net.SplitHostPort\<close>.\<close>

definition after_byte :: "char \<Rightarrow> string \<Rightarrow> string" where
  "after_byte c s = rev (takeWhile (\<lambda>x. x \<noteq> c) (rev s))"

definition before_last :: "char \<Rightarrow> string \<Rightarrow> string" where
  "before_last c s = rev (tl (dropWhile (\<lambda>x. x \<noteq> c) (rev s)))"

definition SplitHostPort :: "string \<Rightarrow> (string \<times> string) result" where
  "SplitHostPort s =
     (if CHR '':'' \<notin> set s then Inl (Error ''missing port in address'')
      else
        let port = after_byte (CHR '':'') s; front = before_last (CHR '':'') s in
        if HasPrefix s ''['' then
          (if CHR '']'' \<notin> set s then Inl (Error ''missing ']' in address'')
           else
             let host = takeWhile (\<lambda>x. x \<noteq> CHR '']'') (tl s) in
             if front \<noteq> ''['' @ host @ '']'' then Inl (Error ''missing port or too many colons in address'')
             else if CHR ''['' \<in> set (tl s) then Inl (Error ''unexpected '[' in address'')
             else if CHR '']'' \<in> set port then Inl (Error ''unexpected ']' in address'')
             else Inr (host, port))
        else if CHR '':'' \<in> set front then Inl (Error ''too many colons in address'')
        else if CHR ''['' \<in> set s then Inl (Error ''unexpected '[' in address'')
        else if CHR '']'' \<in> set s then Inl (Error ''unexpected ']' in address'')
        else Inr (front, port))"

definition JoinHostPort :: "string \<Rightarrow> string \<Rightarrow> string" where
  "JoinHostPort host port = (if CHR '':'' \<in> set host then ''['' @ host @ '']:'' @ port else host @ '':'' @ port)"

section \<open>Forwarding\<close>

text \<open>The protocol and the address that are dialed.\<close>

definition forward_Dial :: "string \<Rightarrow> net_addr \<Rightarrow> (string \<times> string) result" where
  "forward_Dial Host laddr =
     bindR (case laddr of
         TCPAddr ip port \<Rightarrow> Inr (''tcp'', itoa_int port)
       | UDPAddr ip port \<Rightarrow> Inr (''udp'', itoa_int port)
       | OtherAddr s \<Rightarrow> Inl (Error ''Unsupported protocol'')) (\<lambda>(protocol, port).
     (case SplitHostPort Host of
        Inr (h, v) \<Rightarrow> Inr (protocol, JoinHostPort h v)
      | Inl e \<Rightarrow> Inr (protocol, JoinHostPort Host port)))"

definition qemu_Dial :: "net_addr \<Rightarrow> (string \<times> string) result" where
  "qemu_Dial laddr = Inl (Error ''Qemu director not implemented yet'')"

section \<open>Containers\<close>

datatype lxc_state = STOPPED | STARTING | RUNNING | STOPPING | ABORTING | FREEZING | FROZEN | THAWED

text \<open>
  What the container library answers during one call: the error of a call, or \<^const>\<open>None\<close>; the address of the container and the
  success of a connection per try; and per network its type, the host's end of a pair, and the linked device.
  \<^verbatim>\<open>en_stuck\<close> is the state a container is in when the wait for it to run ends without success.
\<close>

record lxc_env =
  en_new :: "string option"
  en_clone :: "string option list"
  en_state :: lxc_state
  en_defined :: bool
  en_start :: "string option"
  en_unfreeze :: "string option"
  en_wait :: bool
  en_stuck :: lxc_state
  en_ip :: "nat \<Rightarrow> string option"
  en_networks :: "(string option \<times> string list \<times> string list) list"
  en_dial :: "nat \<Rightarrow> bool"

text \<open>
  A housekeeper sleeps, or has decided to stop or to freeze the container and not yet done so. The two counters record how many
  housekeepers were started and how many ended.
\<close>

datatype keeper = Sleeping | Stopping | Freezing

record lxc_container =
  ct_name :: string
  ct_template :: string
  ct_state :: lxc_state
  ct_idle :: "int option"
  ct_ip :: string
  ct_idevice :: string
  ct_keepers :: "keeper list"
  ct_started :: nat
  ct_ended :: nat

abbreviation minutes :: "int \<Rightarrow> int" where
  "minutes n \<equiv> n * 60000"

definition FreezeDelay :: int where "FreezeDelay = minutes 15"
definition StopDelay :: int where "StopDelay = minutes 30"

text \<open>\<^verbatim>\<open>time.Since\<close> the zero time exceeds every delay.\<close>

definition since_exceeds :: "int \<Rightarrow> int option \<Rightarrow> int \<Rightarrow> bool" where
  "since_exceeds now idle d = (case idle of None \<Rightarrow> True | Some t \<Rightarrow> d < now - t)"

subsection \<open>Events\<close>

definition container_event :: "int \<Rightarrow> string \<Rightarrow> ev_option list \<Rightarrow> event" where
  "container_event now type opts = ev_New now (ev_Type type # ev_Sensor ''CONTAINER'' # opts)"

definition ContainerClonedEvent :: "int \<Rightarrow> string \<Rightarrow> string \<Rightarrow> event" where
  "ContainerClonedEvent now name template = container_event now ''CONTAINER:CLONED''
     [ev_Custom ''container-name'' (VString name), ev_Custom ''container-template'' (VString template)]"

definition ContainerUnfrozenEvent :: "int \<Rightarrow> string \<Rightarrow> string \<Rightarrow> event" where
  "ContainerUnfrozenEvent now name ip = container_event now ''CONTAINER:UNFROZEN''
     [ev_Custom ''container-name'' (VString name), ev_Custom ''container-ip'' (VString ip)]"

definition ContainerStartedEvent :: "int \<Rightarrow> string \<Rightarrow> event" where
  "ContainerStartedEvent now name = container_event now ''CONTAINER:STARTED'' [ev_Custom ''container-name'' (VString name)]"

subsection \<open>Operations\<close>

fun first_error :: "string option list \<Rightarrow> unit result" where
  "first_error [] = Inr ()"
| "first_error (Some e # es) = Inl (Error e)"
| "first_error (None # es) = first_error es"

text \<open>The two loops that try up to 51 times.\<close>

function retry :: "(nat \<Rightarrow> 'a option) \<Rightarrow> nat \<Rightarrow> 'a option" where
  "retry f retries = (case f retries of
     Some x \<Rightarrow> Some x
   | None \<Rightarrow> if retries < 50 then retry f (retries + 1) else None)"
  by auto

termination
  by (relation "measure (\<lambda>(f, retries). 50 - retries)") auto

declare retry.simps [simp del]

fun network_device :: "(string option \<times> string list \<times> string list) list \<Rightarrow> string list" where
  "network_device [] = []"
| "network_device ((None, pair, link) # ns) = network_device ns"
| "network_device ((Some itype, pair, link) # ns) = (if itype = ''veth'' then pair else link)"

text \<open>Operations return their result, the container and the events that were sent.\<close>

type_synonym container_op = "unit result \<times> lxc_container \<times> event list"

definition lxc_clone :: "lxc_env \<Rightarrow> int \<Rightarrow> lxc_container \<Rightarrow> container_op" where
  "lxc_clone en now c = (case first_error (en_clone en) of
     Inl e \<Rightarrow> (Inl e, c, [])
   | Inr _ \<Rightarrow> (Inr (), c, [ContainerClonedEvent now (ct_name c) (ct_template c)]))"

definition settle :: "lxc_env \<Rightarrow> int \<Rightarrow> lxc_container \<Rightarrow> container_op" where
  "settle en now c =
     (if \<not> en_wait en then (Inl (Error (''lxccontainer still not running '' @ ct_name c)), c\<lparr>ct_state := en_stuck en\<rparr>, [])
      else
        let c1 = c\<lparr>ct_state := RUNNING\<rparr> in
        (case retry (en_ip en) 0 of
           None \<Rightarrow> (Inl (Error ''Could not get an IP address''), c1, [])
         | Some ip \<Rightarrow>
             let c2 = c1\<lparr>ct_ip := ip\<rparr> in
             (case network_device (en_networks en) of
                [] \<Rightarrow> (Inl (Error ''could not get an network device''), c2, [])
              | idevice # _ \<Rightarrow> (Inr (), c2\<lparr>ct_idevice := idevice, ct_idle := Some now\<rparr>, []))))"

definition lxc_start :: "lxc_env \<Rightarrow> int \<Rightarrow> lxc_container \<Rightarrow> container_op" where
  "lxc_start en now c =
     (let c1 = c\<lparr>ct_idle := Some now\<rparr> in
      case (if en_defined en then (Inr (), c1, []) else lxc_clone en now c1) of
        (Inl e, c2, es) \<Rightarrow> (Inl e, c2, es)
      | (Inr _, c2, es) \<Rightarrow>
          let es2 = es @ [ContainerStartedEvent now (ct_name c2)] in
          (case en_start en of
             Some e \<Rightarrow> (Inl (Error e), c2, es2)
           | None \<Rightarrow> (case settle en now c2 of (r, c3, es3) \<Rightarrow> (r, c3, es2 @ es3))))"

definition lxc_unfreeze :: "lxc_env \<Rightarrow> int \<Rightarrow> lxc_container \<Rightarrow> container_op" where
  "lxc_unfreeze en now c = (case en_unfreeze en of
     Some e \<Rightarrow> (Inl (Error e), c, [])
   | None \<Rightarrow> (case settle en now c of
         (Inl e, c1, es) \<Rightarrow> (Inl e, c1, es)
       | (Inr _, c1, es) \<Rightarrow> (Inr (), c1, es @ [ContainerUnfrozenEvent now (ct_name c1) (ct_ip c1)])))"

definition ensureStarted :: "lxc_env \<Rightarrow> int \<Rightarrow> lxc_container \<Rightarrow> container_op" where
  "ensureStarted en now c =
     (if ct_state c = FROZEN then lxc_unfreeze en now c
      else if ct_state c = STOPPED then lxc_start en now c
      else settle en now c)"

text \<open>Before every read and write of a connection to the container; the error is ignored there.\<close>

definition stillActive :: "lxc_env \<Rightarrow> int \<Rightarrow> lxc_container \<Rightarrow> container_op" where
  "stillActive en now c =
     (if ct_state c = STOPPED then (Inl (Error (''lxccontainer not running '' @ ct_name c)), c, [])
      else if ct_state c = FROZEN then lxc_unfreeze en now c
      else if ct_state c \<noteq> RUNNING then (Inl (Error (''lxccontainer in unknown state '' @ ct_name c)), c, [])
      else (Inr (), c\<lparr>ct_idle := Some now\<rparr>, []))"

definition container_Dial :: "lxc_env \<Rightarrow> lxc_container \<Rightarrow> string \<Rightarrow> int \<Rightarrow> (string \<times> string) result" where
  "container_Dial en c network port = (case retry (\<lambda>n. if en_dial en n then Some () else None) 0 of
     Some _ \<Rightarrow> Inr (network, JoinHostPort (ct_ip c) (itoa_int port))
   | None \<Rightarrow> Inl (Error ''could not connect to container''))"

text \<open>What a housekeeper decides when it wakes up.\<close>

definition keeper_decide :: "int \<Rightarrow> lxc_container \<Rightarrow> keeper" where
  "keeper_decide now c =
     (if ct_state c = STOPPED then Sleeping
      else if since_exceeds now (ct_idle c) StopDelay \<and> ct_state c = FROZEN then Stopping
      else if since_exceeds now (ct_idle c) FreezeDelay \<and> ct_state c = RUNNING then Freezing
      else Sleeping)"

section \<open>Director\<close>

record lxc_director =
  ld_template :: string
  ld_now :: int
  ld_cache :: "string \<Rightarrow> lxc_container option"
  ld_events :: "event list"

definition lxc_New :: "string \<Rightarrow> lxc_director" where
  "lxc_New template = \<lparr>ld_template = template, ld_now = 0, ld_cache = Map.empty, ld_events = []\<rparr>"

text \<open>The name of a container: the FNV-1 hash of the attacker's address.\<close>

definition fnv32 :: "bytes \<Rightarrow> u32" where
  "fnv32 bs = foldl (\<lambda>h b. (h * 16777619) XOR ucast b) 2166136261 bs"

definition container_name :: "net_addr \<Rightarrow> string" where
  "container_name raddr =
     ''honeytrap-'' @ hex_encode (put_be32 (fnv32 (bytes_of_string
       (case SplitHostPort (addr_String raddr) of Inr (h, _) \<Rightarrow> h | Inl _ \<Rightarrow> []))))"

definition newContainer :: "lxc_env \<Rightarrow> int \<Rightarrow> string \<Rightarrow> string \<Rightarrow> container_op" where
  "newContainer en now name template =
     (let c = \<lparr>ct_name = name, ct_template = template, ct_state = en_state en, ct_idle = None, ct_ip = ''<nil>'', ct_idevice = [],
               ct_keepers = [], ct_started = 0, ct_ended = 0\<rparr> in
      if en_new en = None then (Inr (), c, []) else lxc_clone en now c)"

definition put_container :: "lxc_director \<Rightarrow> lxc_container \<Rightarrow> event list \<Rightarrow> lxc_director" where
  "put_container d c es = d\<lparr>ld_cache := (ld_cache d)(ct_name c \<mapsto> c), ld_events := ld_events d @ es\<rparr>"

definition start_keeper :: "lxc_container \<Rightarrow> lxc_container" where
  "start_keeper c = c\<lparr>ct_keepers := ct_keepers c @ [Sleeping], ct_started := ct_started c + 1\<rparr>"

definition lxc_Dial :: "lxc_env \<Rightarrow> net_addr \<Rightarrow> net_addr \<Rightarrow> lxc_director \<Rightarrow> (string \<times> string) result \<times> lxc_director" where
  "lxc_Dial en raddr laddr d =
     (let name = container_name raddr in
      case (case ld_cache d name of
              Some c \<Rightarrow> (Inr (), c, [])
            | None \<Rightarrow> newContainer en (ld_now d) name (ld_template d)) of
        (Inl e, c, es) \<Rightarrow> (Inl e, d\<lparr>ld_events := ld_events d @ es\<rparr>)
      | (Inr _, c, es) \<Rightarrow>
          (case ensureStarted en (ld_now d) c of
             (Inl e, c1, es1) \<Rightarrow> (Inl e, put_container d c1 (es @ es1))
           | (Inr _, c1, es1) \<Rightarrow>
               ((case laddr of
                   TCPAddr ip port \<Rightarrow> container_Dial en c1 ''tcp'' port
                 | UDPAddr ip port \<Rightarrow> container_Dial en c1 ''udp'' port
                 | OtherAddr s \<Rightarrow> Inl (Error ''Unsupported protocol'')),
                put_container d (start_keeper c1) (es @ es1))))"

inductive lxc_step :: "lxc_director \<Rightarrow> lxc_director \<Rightarrow> bool" where
  tick: "0 \<le> t \<Longrightarrow> lxc_step d (d\<lparr>ld_now := ld_now d + t\<rparr>)"
| dial: "lxc_step d (snd (lxc_Dial en raddr laddr d))"
| traffic: "ld_cache d name = Some c \<Longrightarrow> stillActive en (ld_now d) c = (r, c', es) \<Longrightarrow> lxc_step d (put_container d c' es)"
| decide: "ld_cache d name = Some c \<Longrightarrow> i < length (ct_keepers c) \<Longrightarrow> ct_keepers c ! i = Sleeping \<Longrightarrow>
    lxc_step d (put_container d (c\<lparr>ct_keepers := (ct_keepers c)[i := keeper_decide (ld_now d) c]\<rparr>) [])"
| freeze: "ld_cache d name = Some c \<Longrightarrow> i < length (ct_keepers c) \<Longrightarrow> ct_keepers c ! i = Freezing \<Longrightarrow>
    lxc_step d (put_container d (c\<lparr>ct_keepers := (ct_keepers c)[i := Sleeping],
      ct_state := (if ok then FROZEN else ct_state c)\<rparr>) [])"
| stop: "ld_cache d name = Some c \<Longrightarrow> i < length (ct_keepers c) \<Longrightarrow> ct_keepers c ! i = Stopping \<Longrightarrow>
    lxc_step d (put_container d (c\<lparr>ct_keepers := take i (ct_keepers c) @ drop (Suc i) (ct_keepers c),
      ct_ended := ct_ended c + 1, ct_state := (if ok then STOPPED else ct_state c)\<rparr>) [])"

inductive lxc_run :: "lxc_director \<Rightarrow> bool" where
  New: "lxc_run (lxc_New template)"
| step: "lxc_run d \<Longrightarrow> lxc_step d d' \<Longrightarrow> lxc_run d'"

section \<open>Addresses split and join\<close>

lemma last_byte_append:
  assumes "c \<notin> set port"
  shows "after_byte c (host @ c # port) = port" and "before_last c (host @ c # port) = host"
proof -
  have "takeWhile (\<lambda>x. x \<noteq> c) (rev (host @ c # port)) = rev port"
    using assms by (simp, subst takeWhile_append2, auto)
  then show "after_byte c (host @ c # port) = port"
    by (simp add: after_byte_def)
  have "dropWhile (\<lambda>x. x \<noteq> c) (rev (host @ c # port)) = c # rev host"
    using assms by (simp, subst dropWhile_append2, auto)
  then show "before_last c (host @ c # port) = host"
    by (simp add: before_last_def)
qed

lemma split_bracketed:
  assumes "CHR '']'' \<notin> set host" "CHR ''['' \<notin> set host" "CHR '':'' \<notin> set port" "CHR ''['' \<notin> set port" "CHR '']'' \<notin> set port"
  shows "SplitHostPort (''['' @ host @ '']:'' @ port) = Inr (host, port)"
proof -
  have s: "''['' @ host @ '']:'' @ port = (''['' @ host @ '']'') @ CHR '':'' # port"
    by simp
  have "takeWhile (\<lambda>x. x \<noteq> CHR '']'') (host @ CHR '']'' # CHR '':'' # port) = host"
    using assms(1) by (subst takeWhile_append2) auto
  then show ?thesis
    using assms last_byte_append [OF assms(3), of "''['' @ host @ '']''"] unfolding SplitHostPort_def s
    by (simp add: HasPrefix_def Let_def)
qed

text \<open>Splitting a joined address gives its parts back.\<close>

theorem split_join_host_port:
  assumes "CHR '']'' \<notin> set host" "CHR ''['' \<notin> set host" "CHR '':'' \<notin> set port" "CHR ''['' \<notin> set port" "CHR '']'' \<notin> set port"
  shows "SplitHostPort (JoinHostPort host port) = Inr (host, port)"
proof (cases "CHR '':'' \<in> set host")
  case True
  then show ?thesis
    using split_bracketed [OF assms] by (simp add: JoinHostPort_def)
next
  case False
  have "\<not> HasPrefix (host @ CHR '':'' # port) ''[''"
    using assms(2) by (cases host) (auto simp: HasPrefix_def)
  then show ?thesis
    using assms False last_byte_append [OF assms(3), of host] by (simp add: JoinHostPort_def SplitHostPort_def Let_def)
qed

section \<open>Housekeepers\<close>

definition keepers_ok :: "lxc_container \<Rightarrow> bool" where
  "keepers_ok c = (length (ct_keepers c) + ct_ended c = ct_started c)"

definition same_keepers :: "lxc_container \<Rightarrow> lxc_container \<Rightarrow> bool" where
  "same_keepers c c' = (ct_name c' = ct_name c \<and> ct_keepers c' = ct_keepers c \<and> ct_ended c' = ct_ended c \<and> ct_started c' = ct_started c)"

lemma settle_keepers:
  assumes "settle en now c = (r, c', es)"
  shows "same_keepers c c'"
proof (cases "en_wait en")
  case True
  then show ?thesis
    using assms unfolding settle_def
    by (cases "retry (en_ip en) 0"; cases "network_device (en_networks en)") (simp_all add: same_keepers_def Let_def, auto)
qed (use assms in \<open>auto simp: settle_def same_keepers_def\<close>)

lemma clone_keepers: "lxc_clone en now c = (r, c', es) \<Longrightarrow> c' = c"
  by (auto simp: lxc_clone_def split: sum.splits)

lemma same_keepers_idle [simp]: "same_keepers (c\<lparr>ct_idle := t\<rparr>) c' = same_keepers c c'" "same_keepers c (c\<lparr>ct_idle := t\<rparr>)" "same_keepers c c"
  by (simp_all add: same_keepers_def)

lemma start_keepers: "lxc_start en now c = (r, c', es) \<Longrightarrow> same_keepers c c'"
  by (auto simp: lxc_start_def Let_def split: sum.splits prod.splits option.splits if_splits
      dest!: settle_keepers clone_keepers)

lemma unfreeze_keepers: "lxc_unfreeze en now c = (r, c', es) \<Longrightarrow> same_keepers c c'"
  by (auto simp: lxc_unfreeze_def split: sum.splits prod.splits option.splits dest!: settle_keepers)

lemma ensureStarted_keepers: "ensureStarted en now c = (r, c', es) \<Longrightarrow> same_keepers c c'"
  by (auto simp: ensureStarted_def split: if_splits dest: settle_keepers start_keepers unfreeze_keepers)

lemma stillActive_keepers: "stillActive en now c = (r, c', es) \<Longrightarrow> same_keepers c c'"
  by (auto simp: stillActive_def split: if_splits dest: unfreeze_keepers)

definition cache_ok :: "lxc_director \<Rightarrow> bool" where
  "cache_ok d = (\<forall>name c. ld_cache d name = Some c \<longrightarrow> ct_name c = name \<and> keepers_ok c)"

lemma cache_ok_put: "cache_ok d \<Longrightarrow> keepers_ok c \<Longrightarrow> cache_ok (put_container d c es)"
  by (auto simp: cache_ok_def put_container_def)

lemma keepers_ok_same: "same_keepers c c' \<Longrightarrow> keepers_ok c \<Longrightarrow> keepers_ok c'"
  by (simp add: same_keepers_def keepers_ok_def)

lemma start_keeper_ok: "keepers_ok c \<Longrightarrow> keepers_ok (start_keeper c)"
  by (simp add: start_keeper_def keepers_ok_def)

lemma newContainer_ok: "newContainer en now name template = (r, c, es) \<Longrightarrow> keepers_ok c"
  by (auto simp: newContainer_def keepers_ok_def Let_def split: if_splits dest!: clone_keepers)

lemma lxc_Dial_ok:
  assumes "cache_ok d"
  shows "cache_ok (snd (lxc_Dial en raddr laddr d))"
proof -
  define name where "name = container_name raddr"
  obtain r c es where got: "(case ld_cache d name of Some c \<Rightarrow> (Inr (), c, []) | None \<Rightarrow> newContainer en (ld_now d) name (ld_template d)) = (r, c, es)"
    by (metis prod_cases3)
  have c: "keepers_ok c"
    using got assms by (auto simp: cache_ok_def split: option.splits dest: newContainer_ok)
  obtain r1 c1 es1 where started: "ensureStarted en (ld_now d) c = (r1, c1, es1)"
    by (metis prod_cases3)
  have "keepers_ok c1"
    using keepers_ok_same [OF ensureStarted_keepers [OF started] c] .
  moreover have "cache_ok (d\<lparr>ld_events := es'\<rparr>)" for es'
    using assms by (simp add: cache_ok_def)
  ultimately show ?thesis
    using got started cache_ok_put [OF assms] start_keeper_ok
    by (cases r; cases r1) (simp_all add: lxc_Dial_def Let_def flip: name_def)
qed

lemma lxc_step_ok:
  assumes "lxc_step d d'" and "cache_ok d"
  shows "cache_ok d'"
  using assms
proof (induction rule: lxc_step.induct)
  case (tick t d)
  then show ?case by (simp add: cache_ok_def)
next
  case (dial d en raddr laddr)
  then show ?case by (rule lxc_Dial_ok)
next
  case (traffic d name c en r c' es)
  have "keepers_ok c'"
    using keepers_ok_same [OF stillActive_keepers [OF traffic.hyps(2)]] traffic.hyps(1) traffic.prems by (auto simp: cache_ok_def)
  then show ?case by (rule cache_ok_put [OF traffic.prems])
next
  case (stop d name c i ok)
  then have "length (ct_keepers c) + ct_ended c = ct_started c"
    by (simp add: cache_ok_def keepers_ok_def)
  then show ?case
    using stop.hyps(2) by (intro cache_ok_put [OF stop.prems]) (simp add: keepers_ok_def)
qed (auto intro!: cache_ok_put simp: keepers_ok_def, auto simp: cache_ok_def keepers_ok_def)

text \<open>
  Every dial starts a housekeeper for its container, and the only way one ends is that it stops the container: of all the housekeepers
  ever started there are as many left as there were not stops. Those that find the container stopped sleep on.
\<close>

theorem lxc_keepers_accumulate:
  assumes "lxc_run d" and "ld_cache d name = Some c"
  shows "length (ct_keepers c) + ct_ended c = ct_started c \<and> ct_name c = name"
proof -
  have "cache_ok d"
    using assms(1)
  proof (induction rule: lxc_run.induct)
    case (step d d')
    then show ?case by (blast intro: lxc_step_ok)
  qed (simp add: cache_ok_def lxc_New_def)
  then show ?thesis
    using assms(2) by (simp add: cache_ok_def keepers_ok_def)
qed

text \<open>What the director can reach for one container.\<close>

definition reaches :: "int \<Rightarrow> lxc_container \<Rightarrow> bool" where
  "reaches now c = (\<exists>d. lxc_run d \<and> ld_now d = now \<and> ld_cache d (ct_name c) = Some c)"

lemma reaches_tick: "reaches now c \<Longrightarrow> 0 \<le> t \<Longrightarrow> reaches (now + t) c"
  unfolding reaches_def by (metis (no_types) lxc_run.step lxc_step.tick lxc_director.select_convs(2,3) lxc_director.surjective
      lxc_director.update_convs(2))

lemma reaches_put:
  assumes "reaches now c" and "\<And>d. ld_now d = now \<Longrightarrow> ld_cache d (ct_name c) = Some c \<Longrightarrow> lxc_step d (put_container d c' es)"
  shows "reaches now c'"
proof -
  obtain d where d: "lxc_run d" "ld_now d = now" "ld_cache d (ct_name c) = Some c"
    using assms(1) by (auto simp: reaches_def)
  have "lxc_run (put_container d c' es)"
    by (rule lxc_run.step [OF d(1) assms(2) [OF d(2,3)]])
  then show ?thesis
    unfolding reaches_def using d(2) by (intro exI [of _ "put_container d c' es"]) (simp add: put_container_def)
qed

lemma reaches_traffic: "reaches now c \<Longrightarrow> stillActive en now c = (r, c', es) \<Longrightarrow> reaches now c'"
  by (rule reaches_put) (auto intro: lxc_step.traffic)

lemma reaches_decide:
  assumes "reaches now c" and "ct_keepers c = [Sleeping]"
  shows "reaches now (c\<lparr>ct_keepers := [keeper_decide now c]\<rparr>)"
proof (rule reaches_put [OF assms(1), where es = "[]"])
  fix d :: lxc_director
  assume d: "ld_now d = now" "ld_cache d (ct_name c) = Some c"
  show "lxc_step d (put_container d (c\<lparr>ct_keepers := [keeper_decide now c]\<rparr>) [])"
    using lxc_step.decide [OF d(2), of 0] assms(2) d(1) by simp
qed

lemma reaches_freeze:
  assumes "reaches now c" and "ct_keepers c = [Freezing]"
  shows "reaches now (c\<lparr>ct_keepers := [Sleeping], ct_state := FROZEN\<rparr>)"
proof (rule reaches_put [OF assms(1), where es = "[]"])
  fix d :: lxc_director
  assume d: "ld_now d = now" "ld_cache d (ct_name c) = Some c"
  show "lxc_step d (put_container d (c\<lparr>ct_keepers := [Sleeping], ct_state := FROZEN\<rparr>) [])"
    using lxc_step.freeze [OF d(2), of 0 True] assms(2) d(1) by simp
qed

lemma reaches_stop:
  assumes "reaches now c" and "ct_keepers c = [Stopping]"
  shows "reaches now (c\<lparr>ct_keepers := [], ct_ended := ct_ended c + 1, ct_state := STOPPED\<rparr>)"
proof (rule reaches_put [OF assms(1), where es = "[]"])
  fix d :: lxc_director
  assume d: "ld_now d = now" "ld_cache d (ct_name c) = Some c"
  show "lxc_step d (put_container d (c\<lparr>ct_keepers := [], ct_ended := ct_ended c + 1, ct_state := STOPPED\<rparr>) [])"
    using lxc_step.stop [OF d(2), of 0 True] assms(2) d(1) by simp
qed

definition sample_env :: lxc_env where
  "sample_env = \<lparr>en_new = None, en_clone = [], en_state = STOPPED, en_defined = True, en_start = None, en_unfreeze = None,
     en_wait = True, en_stuck = STOPPED, en_ip = (\<lambda>n. Some ''10.0.3.2''), en_networks = [(Some ''veth'', [''veth0''], [])], en_dial = (\<lambda>n. True)\<rparr>"

lemma sample_env_simps [simp]: "en_unfreeze sample_env = None" "en_start sample_env = None" "en_defined sample_env" "en_new sample_env = None"
    "en_state sample_env = STOPPED"
  by (simp_all add: sample_env_def)

lemma settle_sample:
  "settle sample_env now c = (Inr (), c\<lparr>ct_state := RUNNING, ct_ip := ''10.0.3.2'', ct_idevice := ''veth0'', ct_idle := Some now\<rparr>, [])"
  by (simp add: settle_def sample_env_def retry.simps Let_def)

lemma reaches_dialed:
  "\<exists>name. reaches 0 \<lparr>ct_name = name, ct_template = ''honeytrap'', ct_state = RUNNING, ct_idle = Some 0, ct_ip = ''10.0.3.2'', ct_idevice = ''veth0'',
     ct_keepers = [Sleeping], ct_started = 1, ct_ended = 0\<rparr>"
proof -
  let ?a = "TCPAddr [10, 0, 0, 1] 4000"
  let ?d = "snd (lxc_Dial sample_env ?a ?a (lxc_New ''honeytrap''))"
  have start: "lxc_start sample_env now c = (case settle sample_env now (c\<lparr>ct_idle := Some now\<rparr>) of (r, c3, es3) \<Rightarrow>
      (r, c3, [ContainerStartedEvent now (ct_name c)] @ es3))" for now c
    by (simp add: lxc_start_def Let_def)
  have "lxc_run ?d"
    by (rule lxc_run.step [OF lxc_run.New lxc_step.dial])
  moreover have "ld_cache ?d = [container_name ?a \<mapsto> \<lparr>ct_name = container_name ?a, ct_template = ''honeytrap'', ct_state = RUNNING, ct_idle = Some 0,
      ct_ip = ''10.0.3.2'', ct_idevice = ''veth0'', ct_keepers = [Sleeping], ct_started = 1, ct_ended = 0\<rparr>] \<and> ld_now ?d = 0"
    by (simp add: lxc_Dial_def lxc_New_def newContainer_def ensureStarted_def start settle_sample put_container_def start_keeper_def Let_def)
  ultimately show ?thesis
    by (intro exI [of _ "container_name ?a"]) (auto simp: reaches_def)
qed

text \<open>
  A container can be stopped under a client that has just used it: between the housekeeper's look at the idle time and its call to stop, traffic
  unfreezes the container, and the stop comes all the same.
\<close>

theorem lxc_stop_race: "\<exists>d name c. lxc_run d \<and> ld_cache d name = Some c \<and> ct_state c = STOPPED \<and> ct_idle c = Some (ld_now d) \<and> ct_ended c = 1"
proof -
  obtain name where r: "reaches 0 \<lparr>ct_name = name, ct_template = ''honeytrap'', ct_state = RUNNING, ct_idle = Some 0, ct_ip = ''10.0.3.2'',
      ct_idevice = ''veth0'', ct_keepers = [Sleeping], ct_started = 1, ct_ended = 0\<rparr>" (is "reaches 0 ?c")
    using reaches_dialed by blast
  have "reaches (minutes 16) (?c\<lparr>ct_keepers := [Freezing]\<rparr>)"
    using reaches_decide [OF reaches_tick [OF r, of "minutes 16"]] by (simp add: keeper_decide_def since_exceeds_def FreezeDelay_def)
  then have "reaches (minutes 16) (?c\<lparr>ct_state := FROZEN\<rparr>)"
    by (drule_tac reaches_freeze) simp_all
  then have "reaches (minutes 16 + minutes 16) (?c\<lparr>ct_state := FROZEN\<rparr>)"
    by (rule reaches_tick) simp
  then have "reaches (minutes 32) (?c\<lparr>ct_state := FROZEN, ct_keepers := [Stopping]\<rparr>)"
    by (drule_tac reaches_decide) (simp_all add: keeper_decide_def since_exceeds_def StopDelay_def)
  then have "reaches (minutes 32) (?c\<lparr>ct_keepers := [Stopping], ct_idle := Some (minutes 32)\<rparr>)"
    by (rule reaches_traffic [of _ _ sample_env]) (simp add: stillActive_def lxc_unfreeze_def settle_sample)
  then have "reaches (minutes 32) (?c\<lparr>ct_keepers := [], ct_idle := Some (minutes 32), ct_ended := 1, ct_state := STOPPED\<rparr>)"
    by (drule_tac reaches_stop) simp_all
  then show ?thesis
    unfolding reaches_def by fastforce
qed

end
