(* ===== verification/Spec2Isabelle.thy ===== *)
theory Spec2Isabelle
  imports Canary_Listener Agent_Server Server_Dispatch Ftp_Session Ipp Ssh Vnc Smtp Redis Memcached Web Pushers Directors
begin

text \<open>
  Verification of the honeypot honeytrap, a Go program. It listens for attackers, plays services to them, and reports what they do as
  events. The development is a shallow embedding of its listeners, its server, the services with a protocol implementation of their
  own, and the channels that carry the events.

  \<^bold>\<open>Parts and how they interact.\<close> A listener accepts connections: the canary listener
  (\<^verbatim>\<open>listener/canary\<close>) runs a TCP/IP stack on raw frames, the agent listener (\<^verbatim>\<open>listener/agent\<close>) gets
  connections from remote agents over one encrypted stream. The server (\<^verbatim>\<open>server/honeytrap.go\<close>) builds services, ports,
  channels and filters from the configuration and hands each connection to the first service of its port that accepts what the client
  has sent. A service (\<^verbatim>\<open>services\<close>) reads the client's commands, answers them and sends events
  (\<^verbatim>\<open>event\<close>). The event bus and the filters (\<^verbatim>\<open>pushers\<close>) route an event to the channels that write it to a
  log, a database or the web interface (\<^verbatim>\<open>web\<close>). A director (\<^verbatim>\<open>director\<close>) chooses the machine behind a service
  that only forwards.

  \<^bold>\<open>Conventions.\<close> A Go call that can fail is a \<^verbatim>\<open>result\<close>: a value, an error value or a run-time panic
  (\<^verbatim>\<open>Go_Prelude\<close>). Integers keep their width as words wherever they can wrap around. Mutable objects are records that are
  passed and returned; where objects are shared through pointers (knock groups, agent connections) there is a heap. What a component does
  to the outside is a log of effects. Goroutines are step relations, with their runs as the reachable states. The operating system, the
  clock, random numbers, regular expressions, JSON, TLS and every library that is not part of the repository are parameters.

  \<^bold>\<open>Theories.\<close>

  \<^item> Prelude: \<^verbatim>\<open>Go_Prelude\<close> (bytes, results, byte orders), \<^verbatim>\<open>Go_Strings\<close> and \<^verbatim>\<open>Go_Text\<close> (strings,
    numbers, paths), \<^verbatim>\<open>Go_Net\<close> (addresses), \<^verbatim>\<open>Go_IO\<close> (connections, and the locale \<^verbatim>\<open>io_reader\<close> that all readers
    are instances of) and \<^verbatim>\<open>Go_Bufio\<close> (buffered readers).

  \<^item> Canary listener: \<^verbatim>\<open>Link_Headers\<close>, \<^verbatim>\<open>IPv4_Header\<close> and \<^verbatim>\<open>TCP_Header\<close> (the packages
    \<^verbatim>\<open>ethernet\<close>, \<^verbatim>\<open>arp\<close>, \<^verbatim>\<open>icmp\<close>, \<^verbatim>\<open>udp\<close>, \<^verbatim>\<open>ipv4\<close>, \<^verbatim>\<open>tcp\<close>): parsers, serialisers and checksums,
    with round trips and the inputs on which they panic. \<^verbatim>\<open>Ring_Buffer\<close> (the vendored \<^verbatim>\<open>rbuf\<close>): a refinement to
    bounded lists. \<^verbatim>\<open>Unique_Set\<close> and \<^verbatim>\<open>Knock_Detector\<close> (\<^verbatim>\<open>unique-set.go\<close>, \<^verbatim>\<open>knock.go\<close>): safety of
    the scan detector in every reachable state. \<^verbatim>\<open>Canary_State\<close> (\<^verbatim>\<open>state.go\<close>, \<^verbatim>\<open>socket.go\<close>),
    \<^verbatim>\<open>Canary_Routes\<close> (\<^verbatim>\<open>arpcache.go\<close>, \<^verbatim>\<open>route.go\<close>), \<^verbatim>\<open>Canary_TCP\<close>, \<^verbatim>\<open>Canary_Send\<close>,
    \<^verbatim>\<open>Canary_Machine\<close> and \<^verbatim>\<open>Canary_Listener\<close> (\<^verbatim>\<open>canary_linux.go\<close>): the handler refines an abstract connection
    machine, does not panic, completes handshakes and delivers data; the packets it sends are well formed and leave in order; and the
    invariant of the whole listener. \<^verbatim>\<open>Canary_Decoders\<close> (\<^verbatim>\<open>tcp_handlers.go\<close>, \<^verbatim>\<open>udp_handlers.go\<close>): the events
    for what was received.

  \<^item> Agent listener: \<^verbatim>\<open>Agent_Codec\<close> (\<^verbatim>\<open>conn2.go\<close>, \<^verbatim>\<open>encoder.go\<close>, \<^verbatim>\<open>decoder.go\<close>,
    \<^verbatim>\<open>messages.go\<close>): round trips of the messages. \<^verbatim>\<open>Agent_Server\<close> (\<^verbatim>\<open>agent.go\<close>,
    \<^verbatim>\<open>connection.go\<close>, \<^verbatim>\<open>connections.go\<close>): each connection is a stream without loss, in every interleaving.

  \<^item> Events and channels: \<^verbatim>\<open>Events\<close> (\<^verbatim>\<open>event\<close>), \<^verbatim>\<open>Channels\<close> (\<^verbatim>\<open>filters.go\<close>,
    \<^verbatim>\<open>eventbus.go\<close>): the filters route events as configured. \<^verbatim>\<open>Pushers\<close> (\<^verbatim>\<open>splunk\<close>,
    \<^verbatim>\<open>elasticsearch\<close>, \<^verbatim>\<open>marija\<close>, \<^verbatim>\<open>kafka\<close>, \<^verbatim>\<open>file\<close>): which back ends keep the events and which lose them.
    \<^verbatim>\<open>Web\<close> (\<^verbatim>\<open>web\<close>): every connection of the web interface gets every message, and how one client stops the hub.

  \<^item> Server: \<^verbatim>\<open>Server_Dispatch\<close> (\<^verbatim>\<open>server/honeytrap.go\<close>, \<^verbatim>\<open>utils/peek-connection.go\<close>): the set-up, the choice of a
    service and the containment of panics. \<^verbatim>\<open>Directors\<close> (\<^verbatim>\<open>director/forward\<close>, \<^verbatim>\<open>director/lxc\<close>): addresses to
    dial, and the life of a container with its housekeepers.

  \<^item> Services: \<^verbatim>\<open>Htfs\<close>, \<^verbatim>\<open>Ftp_Driver\<close>, \<^verbatim>\<open>Ftp_Commands\<close>, \<^verbatim>\<open>Ftp_Frame\<close> and
    \<^verbatim>\<open>Ftp_Session\<close> (\<^verbatim>\<open>services/filesystem\<close>, \<^verbatim>\<open>services/ftp\<close>): a session stays in its sandbox, needs a login,
    and answers. \<^verbatim>\<open>Service_Decoder\<close>, \<^verbatim>\<open>Ipp\<close> and \<^verbatim>\<open>Ssh\<close> (\<^verbatim>\<open>services/decoder\<close>,
    \<^verbatim>\<open>services/ipp\<close>, \<^verbatim>\<open>services/ssh\<close>): round trip and typing of messages, and the requests that hang a handler.
    \<^verbatim>\<open>Vnc\<close> (\<^verbatim>\<open>services/vnc\<close>): the fast path equals the generic one, and when the process crashes. \<^verbatim>\<open>Smtp\<close>
    (\<^verbatim>\<open>services/smtp\<close>): sessions end, and mails arrive with the envelope and text that were sent. \<^verbatim>\<open>Redis\<close>
    (\<^verbatim>\<open>services/redis\<close>): commands are understood, and the loop never returns. \<^verbatim>\<open>Datagram_Services\<close> and
    \<^verbatim>\<open>Memcached\<close> (\<^verbatim>\<open>limiter.go\<close>, \<^verbatim>\<open>tftp.go\<close>, \<^verbatim>\<open>counterstrike.go\<close>, \<^verbatim>\<open>echo.go\<close>,
    \<^verbatim>\<open>memcached.go\<close>): uploads, answers and panics.

  \<^bold>\<open>Loops.\<close> Loops that end are total functions with a measure: SMTP by the bytes left, buffered reads and memcached by the
  stream, the retries of a container by their count of 51. The transmit loop of the canary listener has fuel, one more than
  the bytes in its buffer, which is enough, because every turn but the last takes bytes out of the buffer; the theorem on it shows that it ends.
  Loops that need not end are partial functions whose value \<^const>\<open>None\<close> is not returning: changing the directory in FTP, the loops
  of the IPP decoder, the strings of an SSH request and the Redis handler. The theorems show which of their inputs
  return and which do not.

  \<^bold>\<open>Bounds.\<close> Sizes are those of the code: socket buffers of 4096 bytes, frames within the transmit buffer, messages within
  the 4096-byte buffers of the agent, channels of a hundred events, sessions of a hundred mails. Times are integers in the unit that the code needs.

  \<^bold>\<open>Not modelled.\<close> Program entry, configuration files and conversion of durations; the listeners that only accept sockets or
  hand packets to a library; the HTTP interface that the build ignores; channels that write each event to a client library; the Lua scripter
  and what relies on it; the services that wrap a library's parser (HTTP, DNS, telnet and others) or copy a connection; the SSH proxy,
  keys and certificates; storage; packet capture; generated code. In the parts that are modelled, encryption, JSON, terminals,
  logging and the registration of constructors are left out.
\<close>

end
